(* ===== verification/Prelude.thy ===== *)
theory Prelude
  imports Complex_Main "HOL-Library.AList" "HOL-Library.Signed_Division"
    "HOL-Library.Char_ord" "HOL-Library.List_Lexorder" "HOL-Library.Multiset"
begin

text \<open>
  What every component of the gateway shares: the collections of rewrite rules that drive
  the component proofs, Go's 64-bit integers, the string functions of the packages
  \<open>strings\<close> and \<open>strconv\<close> that the code calls, Go's error chains and its
  \<open>context.Context\<close>.

  Strings are char lists (one \<open>char\<close> per byte, as in Go). A Go \<open>map\<close> that is only
  looked up is a partial function; one that is iterated is an association list, whose order
  stands for the (unspecified) iteration order.
\<close>

named_theorems go_simps \<open>equations that evaluate the model\<close>
named_theorems port_simps \<open>equations of the ports a component drives\<close>

section \<open>Integers\<close>

text \<open>
  Go's \<open>int\<close>, \<open>int64\<close> and \<open>time.Duration\<close> are 64 bits wide and wrap around. They are
  modelled as \<^typ>\<open>int\<close> with \<open>i64\<close> applied wherever the code computes on values that
  another party chooses (token counts, durations). Division truncates towards zero: it is
  \<^const>\<open>signed_divide\<close> and \<^const>\<open>signed_modulo\<close>.
\<close>

definition i64 :: "int \<Rightarrow> int" where
  "i64 x = (x + 2 ^ 63) mod 2 ^ 64 - 2 ^ 63"

definition in_i64 :: "int \<Rightarrow> bool" where
  "in_i64 x \<longleftrightarrow> - (2 ^ 63) \<le> x \<and> x < 2 ^ 63"

lemma i64_range: "in_i64 (i64 x)"
  by (simp add: in_i64_def i64_def)

lemma i64_id [simp]: "in_i64 x \<Longrightarrow> i64 x = x"
  by (simp add: in_i64_def i64_def)

lemma i64_numeral_small [simp]: "i64 0 = 0" "i64 1 = 1"
  by (simp_all add: i64_def)

lemma i64_idem [simp]: "i64 (i64 x) = i64 x"
  by (simp add: i64_range)

text \<open>Nanoseconds, the unit of \<open>time.Duration\<close>.\<close>

definition Second :: int where "Second = 1000000000"
definition Minute :: int where "Minute = 60 * Second"

lemma Second_pos [simp]: "0 < Second" and Minute_pos [simp]: "0 < Minute"
  by (simp_all add: Second_def Minute_def)

lemma sdiv_nonneg: "0 \<le> a \<Longrightarrow> 0 < b \<Longrightarrow> a sdiv b = a div (b :: int)"
  by (cases "a = 0") (auto simp: signed_divide_int_def)

lemma smod_nonneg: "0 \<le> a \<Longrightarrow> 0 < b \<Longrightarrow> a smod b = a mod (b :: int)"
  by (cases "a = 0") (auto simp: signed_modulo_int_def)

lemma smod_less: "0 < b \<Longrightarrow> a smod b < (b :: int)"
proof (cases "0 \<le> a")
  case True
  assume "0 < b"
  with True show ?thesis by (simp add: smod_nonneg)
next
  case False
  assume b: "0 < b"
  have "a smod b = - (- a mod b)"
    using False b by (simp add: signed_modulo_int_def signed_divide_int_def minus_div_mult_eq_mod [symmetric])
  with b show ?thesis
    using pos_mod_sign [of b "- a"] by linarith
qed

lemma smod_gt: "0 < b \<Longrightarrow> - b < a smod (b :: int)"
proof (cases "0 \<le> a")
  case True
  assume "0 < b"
  with True show ?thesis by (simp add: smod_nonneg) (meson Euclidean_Rings.pos_mod_sign less_le_trans neg_less_0_iff_less)
next
  case False
  assume b: "0 < b"
  have "a smod b = - (- a mod b)"
    using False b by (simp add: signed_modulo_int_def signed_divide_int_def minus_div_mult_eq_mod [symmetric])
  with b show ?thesis
    using pos_mod_bound [of b "- a"] by linarith
qed

section \<open>Decimal numbers: \<open>strconv\<close>\<close>

definition digit :: "nat \<Rightarrow> char" where
  "digit d = char_of (48 + d)"

definition digit_val :: "char \<Rightarrow> nat option" where
  "digit_val c = (let k = (of_char c :: nat) in if 48 \<le> k \<and> k \<le> 57 then Some (k - 48) else None)"

fun nat_digits :: "nat \<Rightarrow> string" where
  "nat_digits n = (if n < 10 then [digit n] else nat_digits (n div 10) @ [digit (n mod 10)])"

declare nat_digits.simps [simp del]

text \<open>\<open>strconv.FormatInt(n, 10)\<close> and \<open>strconv.Itoa\<close>.\<close>

definition itoa :: "int \<Rightarrow> string" where
  "itoa n = (if n < 0 then ''-'' @ nat_digits (nat (- n)) else nat_digits (nat n))"

fun parse_digits :: "nat \<Rightarrow> string \<Rightarrow> nat option" where
  "parse_digits acc [] = Some acc"
| "parse_digits acc (c # cs) =
     (case digit_val c of None \<Rightarrow> None | Some d \<Rightarrow> parse_digits (10 * acc + d) cs)"

text \<open>\<open>strconv.ParseInt(s, 10, 64)\<close>: an optional sign, at least one digit, and a value in range.\<close>

definition parse_int64 :: "string \<Rightarrow> int option" where
  "parse_int64 s =
     (let (neg, ds) = (case s of [] \<Rightarrow> (False, [])
                       | c # cs \<Rightarrow> if c = CHR ''-'' then (True, cs)
                                   else if c = CHR ''+'' then (False, cs) else (False, s))
      in if ds = [] then None
         else case parse_digits 0 ds of None \<Rightarrow> None
              | Some k \<Rightarrow> let v = (if neg then - int k else int k)
                          in if in_i64 v then Some v else None)"

lemma of_char_digit: "d < 10 \<Longrightarrow> (of_char (digit d) :: nat) = 48 + d"
  by (simp add: digit_def)

lemma digit_val_digit [simp]: "d < 10 \<Longrightarrow> digit_val (digit d) = Some d"
  by (simp add: digit_val_def of_char_digit)

lemma parse_digits_append:
  "parse_digits acc (xs @ ys) =
     (case parse_digits acc xs of None \<Rightarrow> None | Some a \<Rightarrow> parse_digits a ys)"
  by (induction xs arbitrary: acc) (auto split: option.splits)

lemma parse_nat_digits [simp]: "parse_digits 0 (nat_digits n) = Some n"
proof (induction n rule: nat_digits.induct)
  case (1 n)
  show ?case
  proof (cases "n < 10")
    case True
    then show ?thesis by (simp add: nat_digits.simps [of n])
  next
    case False
    with 1 show ?thesis by (simp add: nat_digits.simps [of n] parse_digits_append)
  qed
qed

lemma nat_digits_ne [simp]: "nat_digits n \<noteq> []"
  by (subst nat_digits.simps) simp

lemma nat_digits_inj: "nat_digits m = nat_digits n \<Longrightarrow> m = n"
  by (metis option.inject parse_nat_digits)

lemma set_nat_digits: "c \<in> set (nat_digits n) \<Longrightarrow> \<exists>d < 10. c = digit d"
proof (induction n rule: nat_digits.induct)
  case (1 n)
  show ?case
  proof (cases "n < 10")
    case True
    with "1.prems" show ?thesis by (auto simp: nat_digits.simps [of n])
  next
    case False
    with 1 show ?thesis by (auto simp: nat_digits.simps [of n] intro: exI [of _ "n mod 10"])
  qed
qed

lemma nat_digits_no: "(of_char c :: nat) < 48 \<or> 57 < (of_char c :: nat) \<Longrightarrow> c \<notin> set (nat_digits n)"
  by (auto dest!: set_nat_digits simp: of_char_digit)

lemma nat_digits_hd: "hd (nat_digits n) \<noteq> CHR ''-''" "hd (nat_digits n) \<noteq> CHR ''+''"
  using hd_in_set [OF nat_digits_ne, of n] nat_digits_no [of "CHR ''-''" n]
    nat_digits_no [of "CHR ''+''" n] by (force, force)

lemma itoa_inj: "itoa m = itoa n \<Longrightarrow> m = n"
proof -
  assume eq: "itoa m = itoa n"
  have hd_neg: "hd (itoa k) = CHR ''-'' \<longleftrightarrow> k < 0" for k
    using nat_digits_hd(1) [of "nat k"] by (simp add: itoa_def)
  from eq hd_neg [of m] hd_neg [of n] have "m < 0 \<longleftrightarrow> n < 0" by simp
  with eq show "m = n"
    by (auto simp: itoa_def split: if_splits dest: nat_digits_inj)
qed

lemma colon_notin_itoa [simp]: "CHR '':'' \<notin> set (itoa n)"
  using nat_digits_no [of "CHR '':''"] by (simp add: itoa_def)

lemma parse_int64_itoa: "in_i64 n \<Longrightarrow> parse_int64 (itoa n) = Some n"
proof (cases "n < 0")
  case True
  assume "in_i64 n"
  with True show ?thesis by (simp add: parse_int64_def itoa_def)
next
  case False
  assume "in_i64 n"
  moreover obtain c cs where "nat_digits (nat n) = c # cs"
    by (cases "nat_digits (nat n)") auto
  ultimately show ?thesis
    using False nat_digits_hd [of "nat n"] parse_nat_digits [of "nat n"]
    by (simp add: parse_int64_def itoa_def)
qed

section \<open>Strings: \<open>strings\<close>\<close>

definition has_prefix :: "string \<Rightarrow> string \<Rightarrow> bool" where
  "has_prefix s p \<longleftrightarrow> take (length p) s = p"

definition trim_prefix :: "string \<Rightarrow> string \<Rightarrow> string" where
  "trim_prefix s p = (if has_prefix s p then drop (length p) s else s)"

definition trim_suffix :: "string \<Rightarrow> string \<Rightarrow> string" where
  "trim_suffix s p = (if has_prefix (rev s) (rev p) then take (length s - length p) s else s)"

text \<open>Both ends: \<open>strings.TrimFunc\<close>, of which \<open>Trim(s, "/")\<close> and \<open>TrimSpace\<close> are cases.\<close>

definition trim_func :: "(char \<Rightarrow> bool) \<Rightarrow> string \<Rightarrow> string" where
  "trim_func P s = rev (dropWhile P (rev (dropWhile P s)))"

text \<open>
  \<open>TrimSpace\<close> on the ASCII white space; the credentials it is applied to are ASCII, so the
  multi-byte Unicode spaces Go also trims do not occur.
\<close>

definition is_space :: "char \<Rightarrow> bool" where
  "is_space c \<longleftrightarrow> (let k = (of_char c :: nat) in (9 \<le> k \<and> k \<le> 13) \<or> k = 32)"

definition trim_space :: "string \<Rightarrow> string" where
  "trim_space = trim_func is_space"

text \<open>\<open>strings.Split\<close> at a separator of one byte, and \<open>strings.Join\<close>.\<close>

fun split_on :: "char \<Rightarrow> string \<Rightarrow> string list" where
  "split_on c [] = [[]]"
| "split_on c (x # xs) =
     (if x = c then [] # split_on c xs
      else case split_on c xs of [] \<Rightarrow> [[x]] | w # ws \<Rightarrow> (x # w) # ws)"

fun join :: "string \<Rightarrow> string list \<Rightarrow> string" where
  "join sep [] = []"
| "join sep [x] = x"
| "join sep (x # y # xs) = x @ sep @ join sep (y # xs)"

text \<open>The em dash of the code's messages, in UTF-8.\<close>

definition dash :: string where "dash = [CHR 0xE2, CHR 0x80, CHR 0x94]"

text \<open>\<open>fmt\<close>'s \<open>%q\<close> on printable strings.\<close>

definition quote :: "string \<Rightarrow> string" where
  "quote s = ''\"'' @ concat (map (\<lambda>c. if c = CHR ''\"'' \<or> c = CHR 0x5C then [CHR 0x5C, c] else [c]) s) @ ''\"''"

lemma split_on_ne [simp]: "split_on c s \<noteq> []"
  by (cases s) (auto split: list.splits)

lemma split_on_no_sep: "w \<in> set (split_on c s) \<Longrightarrow> c \<notin> set w"
  by (induction s arbitrary: w) (fastforce split: if_splits list.splits)+

lemma join_split_on [simp]: "join [c] (split_on c s) = s"
proof (induction s)
  case (Cons x xs)
  then show ?case
    by (cases "split_on c xs"; cases "tl (split_on c xs)") (auto split: list.splits)
qed simp

lemma dropWhile_hd: "dropWhile P xs = x # ys \<Longrightarrow> \<not> P x"
  by (induction xs) (auto split: if_splits)

lemma trim_func_last: "trim_func P s \<noteq> [] \<Longrightarrow> \<not> P (last (trim_func P s))"
  unfolding trim_func_def
  by (cases "dropWhile P (rev (dropWhile P s))") (auto dest: dropWhile_hd)

lemma append_colon_inj:
  assumes "CHR '':'' \<notin> set s" and "CHR '':'' \<notin> set t"
    and "xs @ '':'' @ s = ys @ '':'' @ t"
  shows "xs = ys \<and> s = t"
proof -
  have "rev s @ CHR '':'' # rev xs = rev t @ CHR '':'' # rev ys"
    using arg_cong [OF assms(3), of rev] by simp
  then have "takeWhile (\<lambda>c. c \<noteq> CHR '':'') (rev s @ CHR '':'' # rev xs) =
      takeWhile (\<lambda>c. c \<noteq> CHR '':'') (rev t @ CHR '':'' # rev ys)"
    by (rule arg_cong)
  moreover have "takeWhile (\<lambda>c. c \<noteq> CHR '':'') (rev u @ CHR '':'' # zs) = rev u"
    if "CHR '':'' \<notin> set u" for u zs
    using that by (subst takeWhile_append2) auto
  ultimately have "s = t" using assms(1,2) by simp
  with assms(3) show ?thesis by simp
qed

section \<open>\<open>context.Context\<close>\<close>

text \<open>
  A context is what its \<open>Err\<close> method can observe: the instant its caller cancels it, if
  that ever happens, and its deadline, if it has one (nanoseconds on the process clock).
  \<open>Err\<close> is sticky: whichever came first is what it reports from then on. When both instants
  coincide the cancellation is reported.
\<close>

datatype ctx_err = Canceled | DeadlineExceeded

record ctx =
  cancelled_at :: "int option"
  ctx_deadline :: "int option"

text \<open>\<open>context.Background()\<close>.\<close>

definition background :: ctx where
  "background = \<lparr>cancelled_at = None, ctx_deadline = None\<rparr>"

definition ctx_err_at :: "ctx \<Rightarrow> int \<Rightarrow> ctx_err option" where
  "ctx_err_at c now =
     (case (cancelled_at c, ctx_deadline c) of
        (None, None) \<Rightarrow> None
      | (Some x, None) \<Rightarrow> if x \<le> now then Some Canceled else None
      | (None, Some d) \<Rightarrow> if d \<le> now then Some DeadlineExceeded else None
      | (Some x, Some d) \<Rightarrow>
          if x \<le> now \<and> x \<le> d then Some Canceled
          else if d \<le> now then Some DeadlineExceeded else None)"

text \<open>\<open>context.WithTimeout(parent, d)\<close> at time \<open>now\<close>: a child never outlives its parent.\<close>

definition with_timeout :: "ctx \<Rightarrow> int \<Rightarrow> int \<Rightarrow> ctx" where
  "with_timeout c now d =
     c\<lparr>ctx_deadline := Some (case ctx_deadline c of None \<Rightarrow> now + d | Some p \<Rightarrow> min p (now + d))\<rparr>"

lemma with_timeout_deadline:
  "\<exists>t. ctx_deadline (with_timeout c now d) = Some t \<and> t \<le> now + d"
  by (auto simp: with_timeout_def split: option.splits)

lemma with_timeout_parent:
  "ctx_deadline c = Some p \<Longrightarrow> \<exists>t. ctx_deadline (with_timeout c now d) = Some t \<and> t \<le> p"
  by (auto simp: with_timeout_def)

lemma with_timeout_cancel [simp]: "cancelled_at (with_timeout c now d) = cancelled_at c"
  by (simp add: with_timeout_def)

lemma ctx_err_sticky:
  "ctx_err_at c t = Some e \<Longrightarrow> t \<le> t' \<Longrightarrow> ctx_err_at c t' = Some e"
  by (auto simp: ctx_err_at_def split: option.splits if_splits)

lemma parent_cancel:
  "ctx_err_at (with_timeout c now d) t = Some Canceled \<Longrightarrow> ctx_err_at c t = Some Canceled"
  by (auto simp: ctx_err_at_def with_timeout_def split: option.splits if_splits)

end
