(* ===== verification/GatewayDomain.thy ===== *)
theory GatewayDomain
  imports Prelude
begin

text \<open>
  The vocabulary of \<open>internal/gateway\<close> (\<open>gateway_domain.go\<close>, \<open>chat.go\<close>, \<open>tool.go\<close>,
  \<open>policy.go\<close>, \<open>errors.go\<close>): the data every adapter speaks, the core's own validation, the
  error chains the core classifies, and the two accounting judgments made on them.

  The code's enumerations are named strings (\<open>type ErrorCode string\<close> with constants). Each
  is a datatype with one constructor per constant and a last one for any other string; the
  conversions to and from the string are part of the model where the code converts.
\<close>

section \<open>Policies and enumerations\<close>

datatype PolicyKind = PolicySameModel | PolicyAllowlist | PolicyAny | PolicyOther string

record FailoverPolicy =
  Kind :: PolicyKind
  Allowlist :: "string list"

datatype Role = RoleSystem | RoleUser | RoleAssistant | RoleTool | RoleOther string

fun role_string :: "Role \<Rightarrow> string" where
  "role_string RoleSystem = ''system''"
| "role_string RoleUser = ''user''"
| "role_string RoleAssistant = ''assistant''"
| "role_string RoleTool = ''tool''"
| "role_string (RoleOther s) = s"

definition role_of_string :: "string \<Rightarrow> Role" where
  "role_of_string s =
     (if s = ''system'' then RoleSystem else if s = ''user'' then RoleUser
      else if s = ''assistant'' then RoleAssistant else if s = ''tool'' then RoleTool
      else RoleOther s)"

datatype FinishReason = FinishStop | FinishLength | FinishToolCalls

fun finish_string :: "FinishReason \<Rightarrow> string" where
  "finish_string FinishStop = ''stop''"
| "finish_string FinishLength = ''length''"
| "finish_string FinishToolCalls = ''tool_calls''"

datatype ToolChoiceMode =
  ToolChoiceNone | ToolChoiceAuto | ToolChoiceFunction | ToolChoiceOther string

section \<open>Requests, completions, results\<close>

record ToolCall =
  ID :: string
  Name :: string
  Arguments :: string

record Tool =
  ToolName :: string
  Description :: string
  Parameters :: string

record ToolChoice =
  Mode :: ToolChoiceMode
  Function :: string

record Message =
  Role :: Role
  Content :: string
  ToolCalls :: "ToolCall list"
  ToolCallID :: string

text \<open>The sampling knobs are optional finite floats, hence rationals; the core only carries them.\<close>

record ChatRequest =
  Model :: string
  Messages :: "Message list"
  MaxTokens :: int
  Temperature :: "rat option"
  TopP :: "rat option"
  Stop :: "string list"
  Tools :: "Tool list"
  ToolChoice :: "ToolChoice option"

record Usage =
  PromptTokens :: int
  CompletionTokens :: int
  TotalTokens :: int

record Completion =
  CMessage :: Message
  CFinishReason :: FinishReason
  CUsage :: Usage

record ModelProvider =
  MPModel :: string
  Provider :: string
  Endpoint :: string

record App =
  AppName :: string
  Policy :: FailoverPolicy
  AppTotalDeadline :: int

record ChatResult =
  RModel :: string
  RProvider :: string
  Substituted :: bool
  RMessage :: Message
  RFinishReason :: FinishReason
  RUsage :: Usage

section \<open>Errors\<close>

datatype ErrorCode =
  CodeInvalidRequest | CodeUnauthorized | CodeQuotaExceeded | CodeConcurrencyCeiling
| CodeUpstreamFailed | CodeModelUnavailable | CodeGatewayTimeout | CodeOther string

fun code_string :: "ErrorCode \<Rightarrow> string" where
  "code_string CodeInvalidRequest = ''invalid_request''"
| "code_string CodeUnauthorized = ''unauthorized''"
| "code_string CodeQuotaExceeded = ''quota_exceeded''"
| "code_string CodeConcurrencyCeiling = ''concurrency_ceiling''"
| "code_string CodeUpstreamFailed = ''upstream_failed''"
| "code_string CodeModelUnavailable = ''model_unavailable''"
| "code_string CodeGatewayTimeout = ''gateway_timeout''"
| "code_string (CodeOther s) = s"

record QuotaDetail =
  Limit :: int
  WindowSeconds :: int
  Used :: int

record Error =
  Code :: ErrorCode
  ErrMessage :: string
  RetryAfter :: int
  Quota :: "QuotaDetail option"
  MaxInFlight :: int
  RequestedModel :: string

text \<open>The composite literal \<open>&Error{Code: c, Message: m}\<close>, the other fields zero.\<close>

definition mk_error :: "ErrorCode \<Rightarrow> string \<Rightarrow> Error" where
  "mk_error c m = \<lparr>Code = c, ErrMessage = m, RetryAfter = 0, Quota = None, MaxInFlight = 0,
     RequestedModel = ''''\<rparr>"

datatype FaultKind =
  FaultUnreachable | FaultTimeout | FaultServerError | FaultThrottled | FaultBadResponse
| FaultRejected | FaultOther string

fun fault_string :: "FaultKind \<Rightarrow> string" where
  "fault_string FaultUnreachable = ''unreachable''"
| "fault_string FaultTimeout = ''timeout''"
| "fault_string FaultServerError = ''server_error''"
| "fault_string FaultThrottled = ''throttled''"
| "fault_string FaultBadResponse = ''bad_response''"
| "fault_string FaultRejected = ''rejected''"
| "fault_string (FaultOther s) = s"

text \<open>
  A Go \<open>error\<close> is a chain of values linked by \<open>Unwrap\<close>. The constructors are the dynamic
  types the code inspects with \<open>errors.As\<close> and \<open>errors.Is\<close>: a plain text, an
  \<open>fmt.Errorf\<close> with \<open>%w\<close>, the two context sentinels, a \<open>net.Error\<close> (with its
  \<open>Timeout()\<close>), \<open>*Error\<close>, \<open>*ProviderFault\<close> (kind, observed usage, cause) and
  \<open>*auth.IssuerMismatch\<close>.
\<close>

datatype go_error =
  ErrText string
| ErrWrap string go_error
| ErrCtx ctx_err
| ErrNet bool string
| ErrGateway Error
| ErrFault FaultKind "Usage option" "go_error option"
| ErrIssuerMismatch string string

text \<open>\<open>errors.As(err, &fault)\<close> for \<open>*ProviderFault\<close>: the first one on the chain.\<close>

fun as_fault :: "go_error \<Rightarrow> (FaultKind \<times> Usage option \<times> go_error option) option" where
  "as_fault (ErrFault k u c) = Some (k, u, c)"
| "as_fault (ErrWrap _ e) = as_fault e"
| "as_fault _ = None"

text \<open>\<open>errors.As(err, &gwErr)\<close> for \<open>*Error\<close>; \<open>ProviderFault.Unwrap\<close> exposes its cause.\<close>

fun as_gateway :: "go_error \<Rightarrow> Error option" where
  "as_gateway (ErrGateway e) = Some e"
| "as_gateway (ErrWrap _ e) = as_gateway e"
| "as_gateway (ErrFault _ _ (Some c)) = as_gateway c"
| "as_gateway _ = None"

text \<open>\<open>errors.Is(err, context.Canceled)\<close> and \<open>errors.Is(err, context.DeadlineExceeded)\<close>.\<close>

fun is_ctx :: "ctx_err \<Rightarrow> go_error \<Rightarrow> bool" where
  "is_ctx x (ErrCtx y) = (x = y)"
| "is_ctx x (ErrWrap _ e) = is_ctx x e"
| "is_ctx x (ErrFault _ _ (Some c)) = is_ctx x c"
| "is_ctx x _ = False"

text \<open>\<open>errors.As(err, &netErr) && netErr.Timeout()\<close>: the first \<open>net.Error\<close> on the chain.\<close>

fun net_timeout :: "go_error \<Rightarrow> bool" where
  "net_timeout (ErrNet t _) = t"
| "net_timeout (ErrWrap _ e) = net_timeout e"
| "net_timeout (ErrFault _ _ (Some c)) = net_timeout c"
| "net_timeout (ErrCtx x) = (x = DeadlineExceeded)"
| "net_timeout _ = False"

definition as_issuer_mismatch :: "go_error \<Rightarrow> bool" where
  "as_issuer_mismatch e = (case e of ErrIssuerMismatch _ _ \<Rightarrow> True | _ \<Rightarrow> False)"

text \<open>
  The \<open>Error()\<close> methods. An \<open>ErrWrap\<close> prefix is what stands before \<open>": %w"\<close> in the format.
\<close>

fun error_text :: "go_error \<Rightarrow> string" where
  "error_text (ErrText s) = s"
| "error_text (ErrWrap p e) = p @ '': '' @ error_text e"
| "error_text (ErrCtx Canceled) = ''context canceled''"
| "error_text (ErrCtx DeadlineExceeded) = ''context deadline exceeded''"
| "error_text (ErrNet _ s) = s"
| "error_text (ErrGateway e) = code_string (Code e) @ '': '' @ ErrMessage e"
| "error_text (ErrFault k _ (Some c)) =
     ''provider fault ('' @ fault_string k @ ''): '' @ error_text c"
| "error_text (ErrFault k _ None) = ''provider fault ('' @ fault_string k @ '')''"
| "error_text (ErrIssuerMismatch conf cluster) =
     ''auth: configured issuer '' @ quote conf @ '' is not this cluster's ('' @ quote cluster
       @ '') '' @ dash @ '' every caller would be refused 401; set auth.issuer to the cluster value''"

section \<open>Validation\<close>

definition Validate :: "ChatRequest \<Rightarrow> go_error option" where
  "Validate r =
     (if Model r = '''' then Some (ErrGateway (mk_error CodeInvalidRequest ''model is required''))
      else if Messages r = [] then
        Some (ErrGateway (mk_error CodeInvalidRequest ''messages must contain at least one message''))
      else if MaxTokens r < 1 then
        Some (ErrGateway (mk_error CodeInvalidRequest ''max_tokens is required and must be at least 1''))
      else if length (Stop r) > 4 then
        Some (ErrGateway (mk_error CodeInvalidRequest ''stop accepts at most 4 sequences''))
      else None)"

section \<open>Accounting judgments on a failed attempt\<close>

definition billsDespiteFailure :: "go_error \<Rightarrow> bool" where
  "billsDespiteFailure err =
     (case as_fault err of
        Some (k, _, _) \<Rightarrow> k = FaultTimeout \<or> k = FaultBadResponse
      | None \<Rightarrow> is_ctx DeadlineExceeded err)"

definition unobservedTokens :: "go_error \<Rightarrow> ChatRequest \<Rightarrow> int" where
  "unobservedTokens err req =
     (case as_fault err of
        Some (_, Some u, _) \<Rightarrow> TotalTokens u
      | _ \<Rightarrow> MaxTokens req)"

section \<open>Facts\<close>

lemma role_roundtrip: "role_string (role_of_string s) = s"
  by (simp add: role_of_string_def)

lemma role_of_string_tool [simp]: "role_of_string s = RoleTool \<longleftrightarrow> s = ''tool''"
  by (simp add: role_of_string_def)

lemma mk_error_simps [simp]:
  "Code (mk_error c m) = c" "ErrMessage (mk_error c m) = m" "RetryAfter (mk_error c m) = 0"
  "Quota (mk_error c m) = None" "MaxInFlight (mk_error c m) = 0"
  "RequestedModel (mk_error c m) = ''''"
  by (simp_all add: mk_error_def)

text \<open>A valid request is one the core can route and price.\<close>

definition well_formed :: "ChatRequest \<Rightarrow> bool" where
  "well_formed r \<longleftrightarrow> Model r \<noteq> '''' \<and> Messages r \<noteq> [] \<and> 1 \<le> MaxTokens r \<and> length (Stop r) \<le> 4"

lemma Validate_None: "Validate r = None \<longleftrightarrow> well_formed r"
  by (auto simp: Validate_def well_formed_def)

lemma Validate_Some:
  "Validate r = Some e \<Longrightarrow> \<exists>m. e = ErrGateway (mk_error CodeInvalidRequest m)"
  by (auto simp: Validate_def split: if_splits)

end
