(* ===== verification/Fallback.thy ===== *)
theory Fallback
  imports GatewayDomain
begin

text \<open>
  \<open>fallback_logic_build.go\<close>: from the model-provider table, the failover order and one app's
  policy to the ordered rows a request may use, and whether the policy excluded any.
\<close>

section \<open>The code\<close>

text \<open>\<open>rank[provider] = i + 1\<close> for each entry of the order; the Go map is an association list.\<close>

fun rank_loop :: "nat \<Rightarrow> string list \<Rightarrow> (string \<times> nat) list \<Rightarrow> (string \<times> nat) list" where
  "rank_loop i [] rank = rank"
| "rank_loop i (p # ps) rank = rank_loop (i + 1) ps (AList.update p (i + 1) rank)"

definition providerRank :: "(string \<times> nat) list \<Rightarrow> string \<Rightarrow> nat" where
  "providerRank rank p = (case map_of rank p of Some r \<Rightarrow> r | None \<Rightarrow> length rank + 1)"

fun allow_loop ::
  "string \<Rightarrow> ModelProvider list \<Rightarrow> string list \<Rightarrow> string list \<Rightarrow> ModelProvider list
     \<Rightarrow> string list \<times> ModelProvider list" where
  "allow_loop requested rest [] allowed eligible = (allowed, eligible)"
| "allow_loop requested rest (model # ms) allowed eligible =
     (if model = requested \<or> model \<in> set allowed
      then allow_loop requested rest ms allowed eligible
      else allow_loop requested rest ms (model # allowed)
             (eligible @ filter (\<lambda>r. MPModel r = model) rest))"

text \<open>\<open>sort.SliceStable\<close> is a stable sort by the key, which is \<^const>\<open>sort_key\<close>.\<close>

definition buildModelsProvidersFallback ::
  "string \<Rightarrow> FailoverPolicy \<Rightarrow> ModelProvider list \<Rightarrow> string list \<Rightarrow> ModelProvider list \<times> bool" where
  "buildModelsProvidersFallback requested policy modelProviders failoverOrder =
     (let primary = filter (\<lambda>r. MPModel r = requested) modelProviders;
          rest = filter (\<lambda>r. MPModel r \<noteq> requested) modelProviders
      in if primary = [] then ([], modelProviders \<noteq> [])
         else case Kind policy of
           PolicyAny \<Rightarrow>
             (let rank = rank_loop 0 failoverOrder []
              in (primary @ sort_key (\<lambda>r. providerRank rank (Provider r)) rest, False))
         | PolicyAllowlist \<Rightarrow>
             (let (allowed, eligible) = allow_loop requested rest (Allowlist policy) [] primary
              in (eligible, list_ex (\<lambda>r. MPModel r \<notin> set allowed) rest))
         | _ \<Rightarrow> (primary, rest \<noteq> []))"

section \<open>What an app's policy permits\<close>

definition permits :: "FailoverPolicy \<Rightarrow> string \<Rightarrow> string \<Rightarrow> bool" where
  "permits policy requested model \<longleftrightarrow>
     model = requested \<or> Kind policy = PolicyAny
       \<or> Kind policy = PolicyAllowlist \<and> model \<in> set (Allowlist policy)"

text \<open>The substitutes an allowlist names, each at its first mention.\<close>

fun firsts :: "string list \<Rightarrow> string list \<Rightarrow> string list" where
  "firsts seen [] = []"
| "firsts seen (x # xs) = (if x \<in> set seen then firsts seen xs else x # firsts (x # seen) xs)"

lemma firsts_cong: "set s = set t \<Longrightarrow> firsts s xs = firsts t xs"
proof (induction xs arbitrary: s t)
  case (Cons x xs)
  have "firsts (x # s) xs = firsts (x # t) xs"
    by (rule Cons.IH) (simp add: Cons.prems)
  with Cons.IH [OF Cons.prems] show ?case by (simp add: Cons.prems)
qed simp

lemma set_firsts: "set (firsts seen xs) = set xs - set seen"
  by (induction xs arbitrary: seen) auto

lemma distinct_firsts: "distinct (firsts seen xs)"
  by (induction xs arbitrary: seen) (auto simp: set_firsts)

lemma allow_loop_eq:
  "allow_loop requested rest ms allowed eligible =
     (rev (firsts (requested # allowed) ms) @ allowed,
      eligible @ concat (map (\<lambda>m. filter (\<lambda>r. MPModel r = m) rest)
                             (firsts (requested # allowed) ms)))"
proof (induction ms arbitrary: allowed eligible)
  case (Cons m ms)
  have swap: "firsts (m # requested # allowed) ms = firsts (requested # m # allowed) ms"
    by (rule firsts_cong) auto
  with Cons show ?case by auto
qed simp

section \<open>Facts about the plan\<close>

lemma filter_mset_split:
  "(\<And>x. P x \<longleftrightarrow> Q x \<or> R x) \<Longrightarrow> (\<And>x. \<not> (Q x \<and> R x)) \<Longrightarrow>
   filter_mset Q M + filter_mset R M = filter_mset P M"
  by (induction M) auto

lemma mset_concat_filter:
  "distinct ms \<Longrightarrow>
   mset (concat (map (\<lambda>m. filter (\<lambda>r. f r = m) xs) ms)) = filter_mset (\<lambda>r. f r \<in> set ms) (mset xs)"
proof (induction ms)
  case (Cons m ms)
  then have "filter_mset (\<lambda>r. f r = m \<or> f r \<in> set ms) (mset xs) =
      filter_mset (\<lambda>r. f r = m) (mset xs) + filter_mset (\<lambda>r. f r \<in> set ms) (mset xs)"
    by (intro filter_mset_split [symmetric]) auto
  with Cons show ?case by simp
qed simp

text \<open>The result for each kind of policy, once a row serves the requested model.\<close>

definition primary_rows :: "string \<Rightarrow> ModelProvider list \<Rightarrow> ModelProvider list" where
  "primary_rows requested tab = filter (\<lambda>r. MPModel r = requested) tab"

definition other_rows :: "string \<Rightarrow> ModelProvider list \<Rightarrow> ModelProvider list" where
  "other_rows requested tab = filter (\<lambda>r. MPModel r \<noteq> requested) tab"

lemma build_no_primary:
  "primary_rows m tab = [] \<Longrightarrow> buildModelsProvidersFallback m pol tab ord = ([], tab \<noteq> [])"
  by (simp add: buildModelsProvidersFallback_def primary_rows_def)

lemma build_any:
  "primary_rows m tab \<noteq> [] \<Longrightarrow> Kind pol = PolicyAny \<Longrightarrow>
   buildModelsProvidersFallback m pol tab ord =
     (primary_rows m tab @
        sort_key (\<lambda>r. providerRank (rank_loop 0 ord []) (Provider r)) (other_rows m tab), False)"
  by (simp add: buildModelsProvidersFallback_def primary_rows_def other_rows_def)

lemma build_allowlist:
  "primary_rows m tab \<noteq> [] \<Longrightarrow> Kind pol = PolicyAllowlist \<Longrightarrow>
   buildModelsProvidersFallback m pol tab ord =
     (primary_rows m tab @
        concat (map (\<lambda>x. filter (\<lambda>r. MPModel r = x) tab) (firsts [m] (Allowlist pol))),
      \<exists>r \<in> set tab. \<not> permits pol m (MPModel r))"
proof -
  assume "primary_rows m tab \<noteq> []" and k: "Kind pol = PolicyAllowlist"
  have "concat (map (\<lambda>x. filter (\<lambda>r. MPModel r = x) (other_rows m tab)) (firsts [m] xs)) =
      concat (map (\<lambda>x. filter (\<lambda>r. MPModel r = x) tab) (firsts [m] xs))" for xs
    by (rule arg_cong [where f = concat], rule map_cong [OF refl])
      (auto simp: other_rows_def set_firsts intro!: filter_cong)
  with \<open>primary_rows m tab \<noteq> []\<close> k show ?thesis
    by (auto simp: buildModelsProvidersFallback_def primary_rows_def other_rows_def allow_loop_eq
        set_firsts permits_def list_ex_iff)
qed

lemma build_default:
  "primary_rows m tab \<noteq> [] \<Longrightarrow> Kind pol \<noteq> PolicyAny \<Longrightarrow> Kind pol \<noteq> PolicyAllowlist \<Longrightarrow>
   buildModelsProvidersFallback m pol tab ord =
     (primary_rows m tab, \<exists>r \<in> set tab. \<not> permits pol m (MPModel r))"
proof -
  assume "primary_rows m tab \<noteq> []" and "Kind pol \<noteq> PolicyAny" "Kind pol \<noteq> PolicyAllowlist"
  then have "buildModelsProvidersFallback m pol tab ord = (primary_rows m tab, other_rows m tab \<noteq> [])"
    by (cases "Kind pol")
      (simp_all add: buildModelsProvidersFallback_def primary_rows_def other_rows_def)
  moreover have "other_rows m tab \<noteq> [] \<longleftrightarrow> (\<exists>r \<in> set tab. \<not> permits pol m (MPModel r))"
    using \<open>Kind pol \<noteq> PolicyAny\<close> \<open>Kind pol \<noteq> PolicyAllowlist\<close>
    by (auto simp: other_rows_def permits_def filter_empty_conv)
  ultimately show ?thesis by simp
qed

lemmas build_cases = build_any build_allowlist build_default

lemma mset_eligible:
  assumes "primary_rows m tab \<noteq> []"
  shows "mset (fst (buildModelsProvidersFallback m pol tab ord)) =
     filter_mset (\<lambda>r. permits pol m (MPModel r)) (mset tab)"
proof -
  consider "Kind pol = PolicyAny" | "Kind pol = PolicyAllowlist"
    | "Kind pol \<noteq> PolicyAny" "Kind pol \<noteq> PolicyAllowlist" by blast
  then show ?thesis
  proof cases
    case 1
    then have "filter_mset (\<lambda>r. permits pol m (MPModel r)) (mset tab) = mset tab"
      by (simp add: permits_def)
    with 1 assms show ?thesis
      by (simp add: build_any primary_rows_def other_rows_def filter_mset_split [where P = "\<lambda>_. True"])
  next
    case 2
    with assms show ?thesis
      by (simp add: build_allowlist mset_concat_filter distinct_firsts primary_rows_def)
        (rule filter_mset_split, auto simp: permits_def set_firsts)
  next
    case 3
    with assms show ?thesis
      by (simp add: build_default) (simp add: primary_rows_def permits_def)
  qed
qed

lemma set_eligible:
  assumes "primary_rows m tab \<noteq> []"
  shows "set (fst (buildModelsProvidersFallback m pol tab ord)) =
     {r \<in> set tab. permits pol m (MPModel r)}"
  using arg_cong [OF mset_eligible [OF assms], of set_mset] by simp

lemma constrained_eq:
  "snd (buildModelsProvidersFallback m pol tab ord) \<longleftrightarrow>
     \<not> set tab \<subseteq> set (fst (buildModelsProvidersFallback m pol tab ord))"
proof (cases "primary_rows m tab = []")
  case True
  then show ?thesis by (simp add: build_no_primary)
next
  case False
  have "snd (buildModelsProvidersFallback m pol tab ord) \<longleftrightarrow>
      (\<exists>r \<in> set tab. \<not> permits pol m (MPModel r))"
  proof (cases "Kind pol = PolicyAny")
    case True
    with False show ?thesis by (simp add: build_any permits_def)
  next
    case nany: False
    with False show ?thesis
      by (cases "Kind pol = PolicyAllowlist") (simp_all add: build_allowlist build_default)
  qed
  with set_eligible [OF False] show ?thesis by auto
qed

lemma eligible_primary_prefix:
  "takeWhile (\<lambda>r. MPModel r = m) (fst (buildModelsProvidersFallback m pol tab ord)) =
     primary_rows m tab"
proof (cases "primary_rows m tab = []")
  case True
  then show ?thesis by (simp add: build_no_primary)
next
  case False
  have tw: "takeWhile (\<lambda>r. MPModel r = m) (primary_rows m tab @ ys) = primary_rows m tab"
    if "\<forall>r \<in> set ys. MPModel r \<noteq> m" for ys
    using that by (cases ys) (auto simp: primary_rows_def takeWhile_append)
  show ?thesis
  proof (cases "Kind pol = PolicyAny")
    case True
    with False show ?thesis by (auto simp: build_any other_rows_def intro!: tw)
  next
    case nany: False
    show ?thesis
    proof (cases "Kind pol = PolicyAllowlist")
      case True
      with False show ?thesis by (auto simp: build_allowlist set_firsts intro!: tw)
    next
      case nallow: False
      with False nany show ?thesis using tw [of "[]"] by (simp add: build_default)
    qed
  qed
qed

section \<open>The failover order\<close>

text \<open>The place of a provider in the order; absent providers are last.\<close>

definition position :: "string list \<Rightarrow> string \<Rightarrow> nat" where
  "position ord p = length (takeWhile (\<lambda>q. q \<noteq> p) ord)"

lemma position_absent: "p \<notin> set ord \<Longrightarrow> position ord p = length ord"
  by (induction ord) (auto simp: position_def)

lemma length_update_new: "k \<notin> fst ` set al \<Longrightarrow> length (AList.update k v al) = Suc (length al)"
  by (induction al) auto

lemma rank_loop_distinct:
  "distinct ps \<Longrightarrow> set ps \<inter> fst ` set rank = {} \<Longrightarrow>
   length (rank_loop i ps rank) = length rank + length ps \<and>
   map_of (rank_loop i ps rank) p =
     (if p \<in> set ps then Some (i + position ps p + 1) else map_of rank p)"
proof (induction ps arbitrary: i rank)
  case (Cons q ps)
  then have "set ps \<inter> fst ` set (AList.update q (i + 1) rank) = {}"
    by (auto simp: dom_update)
  with Cons show ?case
    by (auto simp: length_update_new update_conv position_def)
qed simp

lemma providerRank_position:
  "distinct ord \<Longrightarrow> providerRank (rank_loop 0 ord []) p = position ord p + 1"
  using rank_loop_distinct [of ord "[]" 0 p]
  by (auto simp: providerRank_def position_absent)

lemma sort_key_mono_fun:
  "(\<And>x y. f x \<le> f y \<longleftrightarrow> g x \<le> (g y :: nat)) \<Longrightarrow> sort_key (f :: 'a \<Rightarrow> nat) xs = sort_key g xs"
proof (induction xs)
  case (Cons x xs)
  have "insort_key f x ys = insort_key g x ys" for ys
    by (induction ys) (auto simp: Cons.prems)
  with Cons show ?case by simp
qed simp

section \<open>Properties\<close>

text \<open>C7: The plan holds exactly the table rows the app's policy permits for the requested model,
  each as often as in the table, and nothing at all when no row serves the requested model.\<close>

theorem plan_is_permitted_rows:
  "mset (fst (buildModelsProvidersFallback requested policy tab ord)) =
     (if \<exists>r \<in> set tab. MPModel r = requested
      then filter_mset (\<lambda>r. permits policy requested (MPModel r)) (mset tab) else {#})"
  by (auto simp: mset_eligible build_no_primary primary_rows_def filter_empty_conv)

text \<open>The rows that serve the requested model come first, in table order, under every policy.\<close>

theorem plan_primary_first:
  "takeWhile (\<lambda>r. MPModel r = requested)
       (fst (buildModelsProvidersFallback requested policy tab ord)) =
     filter (\<lambda>r. MPModel r = requested) tab"
  by (simp add: eligible_primary_prefix primary_rows_def)

text \<open>The plan reports \<open>constrained\<close> exactly when the policy left out a row that exists.\<close>

theorem plan_constrained_iff:
  "snd (buildModelsProvidersFallback requested policy tab ord) \<longleftrightarrow>
     (\<exists>r. r \<in> set tab \<and> r \<notin> set (fst (buildModelsProvidersFallback requested policy tab ord)))"
  by (auto simp: constrained_eq)

text \<open>Under an allowlist the substitutes follow the primary rows in the app's preference order,
  each at its first mention, and the requested model earns no second turn.\<close>

theorem plan_allowlist_order:
  assumes "Kind policy = PolicyAllowlist" and "\<exists>r \<in> set tab. MPModel r = requested"
  shows "fst (buildModelsProvidersFallback requested policy tab ord) =
     filter (\<lambda>r. MPModel r = requested) tab @
     concat (map (\<lambda>m. filter (\<lambda>r. MPModel r = m) tab) (firsts [requested] (Allowlist policy)))"
  using assms by (subst build_allowlist) (auto simp: primary_rows_def filter_empty_conv)

definition row :: "string \<Rightarrow> string \<Rightarrow> ModelProvider" where
  "row m p = \<lparr>MPModel = m, Provider = p, Endpoint = ''http://'' @ p\<rparr>"

theorem plan_allowlist_order_witness:
  "fst (buildModelsProvidersFallback ''gpt'' \<lparr>Kind = PolicyAllowlist, Allowlist = [''opus'', ''gpt'', ''opus'', ''llama'']\<rparr>
      [row ''llama'' ''ollama'', row ''gpt'' ''openai'', row ''opus'' ''anthropic'', row ''mini'' ''openai''] []) =
     [row ''gpt'' ''openai'', row ''opus'' ''anthropic'', row ''llama'' ''ollama'']"
  by (subst plan_allowlist_order) (simp_all add: row_def)

text \<open>Under \<open>any\<close>, with a failover order that lists no provider twice, the other rows follow
  in the failover order, stably, and providers absent from it go last.\<close>

theorem plan_any_order:
  assumes "Kind policy = PolicyAny" and "distinct ord" and "\<exists>r \<in> set tab. MPModel r = requested"
  shows "fst (buildModelsProvidersFallback requested policy tab ord) =
     filter (\<lambda>r. MPModel r = requested) tab @
     sort_key (\<lambda>r. position ord (Provider r)) (filter (\<lambda>r. MPModel r \<noteq> requested) tab)"
proof -
  have "sort_key (\<lambda>r. providerRank (rank_loop 0 ord []) (Provider r)) xs =
      sort_key (\<lambda>r. position ord (Provider r)) xs" for xs
    by (rule sort_key_mono_fun) (simp add: providerRank_position assms(2))
  with assms show ?thesis
    by (subst build_any) (auto simp: primary_rows_def other_rows_def filter_empty_conv)
qed

theorem plan_any_order_witness:
  "fst (buildModelsProvidersFallback ''gpt'' \<lparr>Kind = PolicyAny, Allowlist = []\<rparr>
      [row ''x'' ''other'', row ''llama'' ''ollama'', row ''gpt'' ''openai'', row ''opus'' ''anthropic'']
      [''anthropic'', ''ollama'']) =
     [row ''gpt'' ''openai'', row ''opus'' ''anthropic'', row ''llama'' ''ollama'', row ''x'' ''other'']"
  by (subst plan_any_order) (simp_all add: row_def position_def)

text \<open>A failover order that repeats a provider breaks the ranking: the rank of an absent provider
  is the number of distinct providers plus one, so a repeated entry can be outranked by it.\<close>

theorem plan_any_repeated_provider:
  "fst (buildModelsProvidersFallback ''gpt'' \<lparr>Kind = PolicyAny, Allowlist = []\<rparr>
      [row ''gpt'' ''openai'', row ''llama'' ''ollama'', row ''x'' ''unlisted'']
      [''ollama'', ''ollama'', ''ollama'']) =
     [row ''gpt'' ''openai'', row ''x'' ''unlisted'', row ''llama'' ''ollama'']"
  by (simp add: buildModelsProvidersFallback_def providerRank_def row_def)

end
