(* ===== verification/Service.thy ===== *)
theory Service
  imports Fallback
begin

text \<open>
  \<open>llm_gateway.go\<close>: the core. Its ports (the Go interfaces) are the function fields of a
  record over a world \<open>'w\<close>: each takes the world and returns its answer and the new world, so
  the adapters below (limiters, directory, router, recorder) can be plugged in as they are
  wired in \<open>main\<close>. A \<open>(value, error)\<close> pair is a sum. The \<open>release\<close> closure that
  \<open>TryAcquire\<close> hands out is a function on the world.
\<close>

section \<open>Ports\<close>

record RateDecision =
  Allowed :: bool
  RDRetryAfter :: int
  RDQuota :: "QuotaDetail option"

datatype 'w SlotGrant = Granted "'w \<Rightarrow> 'w" | Refused int

text \<open>The five methods of \<open>UsageRecorder\<close>, a call of one as a value.\<close>

datatype UsageEvent =
  RecordCompletion string ModelProvider Usage int bool
| RecordRejection string ErrorCode
| RecordRateLimiterFailOpen string
| RecordDoubleSpendRisk string ModelProvider int
| RecordClientDisconnect string ModelProvider int

type_synonym 'w AppDirectory = "ctx \<Rightarrow> string \<Rightarrow> 'w \<Rightarrow> App option \<times> 'w"
type_synonym 'w RateCheck = "ctx \<Rightarrow> string \<Rightarrow> 'w \<Rightarrow> (go_error + RateDecision) \<times> 'w"
type_synonym 'w Settler = "ctx \<Rightarrow> string \<Rightarrow> int \<Rightarrow> 'w \<Rightarrow> go_error option \<times> 'w"
type_synonym 'w SlotLimiter = "string \<Rightarrow> 'w \<Rightarrow> 'w SlotGrant \<times> 'w"
type_synonym 'w ProviderClient =
  "ctx \<Rightarrow> ModelProvider \<Rightarrow> ChatRequest \<Rightarrow> 'w \<Rightarrow> (go_error + Completion) \<times> 'w"
type_synonym 'w UsageRecorder = "UsageEvent \<Rightarrow> 'w \<Rightarrow> 'w"

definition NopUsageRecorder :: "'w UsageRecorder" where
  "NopUsageRecorder e w = w"

record Config =
  ModelProviders :: "ModelProvider list"
  FailoverOrder :: "string list"
  TotalDeadline :: int
  PerTryDeadline :: int

text \<open>An interface value may be nil, so a dependency is optional until \<open>New\<close> has judged it.\<close>

record 'w Deps =
  Apps :: "'w AppDirectory option"
  RateLimiter :: "'w RateCheck option"
  Tokens :: "('w RateCheck \<times> 'w Settler) option"
  Slots :: "'w SlotLimiter option"
  ProviderPort :: "'w ProviderClient option"
  UsagePort :: "'w UsageRecorder option"

record 'w Service =
  cfg :: Config
  apps :: "'w AppDirectory"
  limits :: "'w RateCheck"
  tokens_Check :: "'w RateCheck"
  tokens_Settle :: "'w Settler"
  slots :: "'w SlotLimiter"
  provider :: "'w ProviderClient"
  usage :: "'w UsageRecorder"
  clock :: "'w \<Rightarrow> int"

text \<open>\<open>New\<close>; the process clock (\<open>time.Now\<close>) is the argument \<open>clk\<close>.\<close>

definition New :: "('w \<Rightarrow> int) \<Rightarrow> Config \<Rightarrow> 'w Deps \<Rightarrow> go_error + 'w Service" where
  "New clk c d =
     (case Apps d of None \<Rightarrow> Inl (ErrText ''gateway: AppDirectory is required'') | Some ad \<Rightarrow>
      case RateLimiter d of None \<Rightarrow> Inl (ErrText ''gateway: RateLimiter is required'') | Some rl \<Rightarrow>
      case Tokens d of None \<Rightarrow> Inl (ErrText ''gateway: TokenLimiter is required'') | Some (tc, ts) \<Rightarrow>
      case Slots d of None \<Rightarrow> Inl (ErrText ''gateway: SlotLimiter is required'') | Some sl \<Rightarrow>
      case ProviderPort d of None \<Rightarrow> Inl (ErrText ''gateway: ProviderClient is required'') | Some pc \<Rightarrow>
      if TotalDeadline c \<le> 0 then Inl (ErrText ''gateway: TotalDeadline must be positive'')
      else if PerTryDeadline c \<le> 0 \<or> PerTryDeadline c \<ge> TotalDeadline c then
        Inl (ErrText ''gateway: PerTryDeadline must be positive and below TotalDeadline'')
      else Inr \<lparr>cfg = c, apps = ad, limits = rl, tokens_Check = tc, tokens_Settle = ts, slots = sl,
             provider = pc,
             usage = (case UsagePort d of None \<Rightarrow> NopUsageRecorder | Some u \<Rightarrow> u),
             clock = clk\<rparr>)"

section \<open>\<open>Chat\<close>\<close>

definition slotRetryAfter :: int where "slotRetryAfter = Second"
definition maxAttempts :: nat where "maxAttempts = 2"

definition modelUnavailable :: "string \<Rightarrow> Error" where
  "modelUnavailable model =
     (mk_error CodeModelUnavailable
        (''no eligible model provider for '' @ model @ '' under the app's failover policy''))
     \<lparr>RequestedModel := model\<rparr>"

text \<open>The request-rate quota: an error of the limiter admits the request and records it.\<close>

definition meterRate :: "'w Service \<Rightarrow> ctx \<Rightarrow> App \<Rightarrow> 'w \<Rightarrow> Error option \<times> 'w" where
  "meterRate s c app w =
     (case limits s c (AppName app) w of
        (Inl _, w) \<Rightarrow> (None, usage s (RecordRateLimiterFailOpen (AppName app)) w)
      | (Inr decision, w) \<Rightarrow>
          if \<not> Allowed decision then
            (Some ((mk_error CodeQuotaExceeded (AppName app @ '' is over its rate quota''))
               \<lparr>RetryAfter := RDRetryAfter decision, Quota := RDQuota decision\<rparr>),
             usage s (RecordRejection (AppName app) CodeQuotaExceeded) w)
          else (None, w))"

text \<open>The token budget, in the same way.\<close>

definition meterTokens :: "'w Service \<Rightarrow> ctx \<Rightarrow> App \<Rightarrow> 'w \<Rightarrow> Error option \<times> 'w" where
  "meterTokens s c app w =
     (case tokens_Check s c (AppName app) w of
        (Inl _, w) \<Rightarrow> (None, usage s (RecordRateLimiterFailOpen (AppName app)) w)
      | (Inr budget, w) \<Rightarrow>
          if \<not> Allowed budget then
            (Some ((mk_error CodeQuotaExceeded (AppName app @ '' is over its token budget''))
               \<lparr>RetryAfter := RDRetryAfter budget, Quota := RDQuota budget\<rparr>),
             usage s (RecordRejection (AppName app) CodeQuotaExceeded) w)
          else (None, w))"

text \<open>\<open>settle\<close>: the debit's error is dropped. The sum of two provider-reported counts wraps.\<close>

definition settle :: "'w Service \<Rightarrow> ctx \<Rightarrow> string \<Rightarrow> Usage \<Rightarrow> 'w \<Rightarrow> 'w" where
  "settle s c app u w =
     snd (tokens_Settle s c app (i64 (PromptTokens u + CompletionTokens u)) w)"

definition tryModelProvider ::
  "'w Service \<Rightarrow> ctx \<Rightarrow> ModelProvider \<Rightarrow> ChatRequest \<Rightarrow> 'w \<Rightarrow> (go_error + Completion) \<times> 'w" where
  "tryModelProvider s c mp req w =
     provider s (with_timeout c (clock s w) (PerTryDeadline (cfg s))) mp req w"

text \<open>What \<open>Chat\<close> returns when the loop over the plan ends without an answer.\<close>

definition exhausted ::
  "'w Service \<Rightarrow> App \<Rightarrow> ChatRequest \<Rightarrow> bool \<Rightarrow> nat \<Rightarrow> 'w \<Rightarrow> (go_error + ChatResult) \<times> 'w" where
  "exhausted s app req constrained attempts w =
     (if attempts < maxAttempts \<and> constrained then
        (Inl (ErrGateway (modelUnavailable (Model req))),
         usage s (RecordRejection (AppName app) CodeModelUnavailable) w)
      else
        (Inl (ErrGateway (mk_error CodeUpstreamFailed ''all eligible provider attempts failed'')),
         usage s (RecordRejection (AppName app) CodeUpstreamFailed) w))"

definition served :: "ChatRequest \<Rightarrow> ModelProvider \<Rightarrow> Completion \<Rightarrow> ChatResult" where
  "served req mp completion =
     \<lparr>RModel = MPModel mp, RProvider = Provider mp, Substituted = (MPModel mp \<noteq> Model req),
      RMessage = CMessage completion, RFinishReason = CFinishReason completion,
      RUsage = CUsage completion\<rparr>"

text \<open>
  The loop over the eligible rows: \<open>cc\<close> is the caller's context, \<open>c\<close> the one that carries the
  request's total deadline; \<open>tried\<close> is the set of providers already called.
\<close>

fun attempt_loop ::
  "'w Service \<Rightarrow> ctx \<Rightarrow> ctx \<Rightarrow> App \<Rightarrow> ChatRequest \<Rightarrow> bool \<Rightarrow> ModelProvider list \<Rightarrow> nat
     \<Rightarrow> string list \<Rightarrow> 'w \<Rightarrow> (go_error + ChatResult) \<times> 'w" where
  "attempt_loop s cc c app req constrained [] attempts tried w =
     exhausted s app req constrained attempts w"
| "attempt_loop s cc c app req constrained (mp # mps) attempts tried w =
     (if attempts = maxAttempts then exhausted s app req constrained attempts w
      else if Provider mp \<in> set tried then
        attempt_loop s cc c app req constrained mps attempts tried w
      else
        (case tryModelProvider s c mp req w of
           (Inr completion, w1) \<Rightarrow>
             (Inr (served req mp completion),
              settle s c (AppName app) (CUsage completion)
                (usage s (RecordCompletion (AppName app) mp (CUsage completion)
                    (clock s w1 - clock s w) (attempts + 1 > 1)) w1))
         | (Inl err, w1) \<Rightarrow>
             if ctx_err_at cc (clock s w1) = Some Canceled then
               (Inl (ErrWrap ''caller disconnected'' (ErrCtx Canceled)),
                usage s (RecordClientDisconnect (AppName app) mp (unobservedTokens err req)) w1)
             else if ctx_err_at c (clock s w1) \<noteq> None then
               (Inl (ErrGateway (mk_error CodeGatewayTimeout ''total request deadline exhausted'')),
                usage s (RecordRejection (AppName app) CodeGatewayTimeout) w1)
             else
               attempt_loop s cc c app req constrained mps (attempts + 1) (Provider mp # tried)
                 (if billsDespiteFailure err then
                    usage s (RecordDoubleSpendRisk (AppName app) mp (unobservedTokens err req)) w1
                  else w1)))"

text \<open>With the slot held: plan the route, set the total deadline, run the loop.\<close>

definition route ::
  "'w Service \<Rightarrow> ctx \<Rightarrow> App \<Rightarrow> ChatRequest \<Rightarrow> 'w \<Rightarrow> (go_error + ChatResult) \<times> 'w" where
  "route s cc app req w =
     (let (eligible, constrained) =
            buildModelsProvidersFallback (Model req) (Policy app) (ModelProviders (cfg s))
              (FailoverOrder (cfg s))
      in if eligible = [] then
           (Inl (ErrGateway (modelUnavailable (Model req))),
            usage s (RecordRejection (AppName app) CodeModelUnavailable) w)
         else
           let total = (if AppTotalDeadline app > 0 then AppTotalDeadline app
                        else TotalDeadline (cfg s))
           in attempt_loop s cc (with_timeout cc (clock s w) total) app req constrained eligible 0 [] w)"

text \<open>The slot: refused with the ceiling (\<open>cap\<close>) that refused, or held until \<open>route\<close> returns
  (\<open>defer release()\<close>).\<close>

definition with_slot ::
  "'w Service \<Rightarrow> ctx \<Rightarrow> App \<Rightarrow> ChatRequest \<Rightarrow> 'w \<Rightarrow> (go_error + ChatResult) \<times> 'w" where
  "with_slot s c app req w =
     (case slots s (AppName app) w of
        (Refused cap, w) \<Rightarrow>
          (Inl (ErrGateway ((mk_error CodeConcurrencyCeiling
              (AppName app @ '' is at its in-flight ceiling ('' @ itoa cap @ '')''))
              \<lparr>RetryAfter := slotRetryAfter, MaxInFlight := cap\<rparr>)),
           usage s (RecordRejection (AppName app) CodeConcurrencyCeiling) w)
      | (Granted release, w) \<Rightarrow>
          (let (res, w) = route s c app req w in (res, release w)))"

definition Chat ::
  "'w Service \<Rightarrow> ctx \<Rightarrow> string \<Rightarrow> ChatRequest \<Rightarrow> 'w \<Rightarrow> (go_error + ChatResult) \<times> 'w" where
  "Chat s c apiKey req w =
     (case apps s c apiKey w of
        (None, w) \<Rightarrow>
          (Inl (ErrGateway (mk_error CodeUnauthorized ''missing or invalid API key'')), w)
      | (Some app, w) \<Rightarrow>
        (case Validate req of
           Some err \<Rightarrow> (Inl err, usage s (RecordRejection (AppName app) CodeInvalidRequest) w)
         | None \<Rightarrow>
           (case meterRate s c app w of
              (Some e, w) \<Rightarrow> (Inl (ErrGateway e), w)
            | (None, w) \<Rightarrow>
              (case meterTokens s c app w of
                 (Some e, w) \<Rightarrow> (Inl (ErrGateway e), w)
               | (None, w) \<Rightarrow> with_slot s c app req w))))"

end
