(* ===== verification/ChatTrace.thy ===== *)
theory ChatTrace
  imports Service
begin

text \<open>
  How \<open>Chat\<close> drives its ports. \<open>traced\<close> wraps every port of a service so that the world also
  carries the list of calls made; tracing changes neither the results nor the underlying
  world (\<open>traced_erase\<close>). The facts below are about that list, so they hold for every choice
  of adapters, clock and caller context.
\<close>

section \<open>The instrumented service\<close>

datatype call =
  CApp string bool
| CAllow string "go_error + RateDecision"
| CCheck string "go_error + RateDecision"
| CSettle string int
| CAcquire int string bool
| CRelease string
| CComplete int ctx ModelProvider
| CRecord UsageEvent

definition traced :: "'w Service \<Rightarrow> ('w \<times> call list) Service" where
  "traced s = \<lparr>cfg = cfg s,
     apps = (\<lambda>c k (w, t). case apps s c k w of (r, w') \<Rightarrow> (r, (w', t @ [CApp k (r \<noteq> None)]))),
     limits = (\<lambda>c a (w, t). case limits s c a w of (r, w') \<Rightarrow> (r, (w', t @ [CAllow a r]))),
     tokens_Check = (\<lambda>c a (w, t). case tokens_Check s c a w of (r, w') \<Rightarrow> (r, (w', t @ [CCheck a r]))),
     tokens_Settle = (\<lambda>c a n (w, t). case tokens_Settle s c a n w of (r, w') \<Rightarrow> (r, (w', t @ [CSettle a n]))),
     slots = (\<lambda>a (w, t). case slots s a w of
        (Refused n, w') \<Rightarrow> (Refused n, (w', t @ [CAcquire (clock s w') a False]))
      | (Granted rel, w') \<Rightarrow> (Granted (\<lambda>(w, t). (rel w, t @ [CRelease a])), (w', t @ [CAcquire (clock s w') a True]))),
     provider = (\<lambda>c mp req (w, t). case provider s c mp req w of
        (r, w') \<Rightarrow> (r, (w', t @ [CComplete (clock s w) c mp]))),
     usage = (\<lambda>e (w, t). (usage s e w, t @ [CRecord e])),
     clock = (\<lambda>(w, t). clock s w)\<rparr>"

lemma traced_simps [port_simps]:
  "cfg (traced s) = cfg s"
  "apps (traced s) c k (w, t) = (case apps s c k w of (r, w') \<Rightarrow> (r, (w', t @ [CApp k (r \<noteq> None)])))"
  "limits (traced s) c a (w, t) = (case limits s c a w of (r, w') \<Rightarrow> (r, (w', t @ [CAllow a r])))"
  "tokens_Check (traced s) c a (w, t) = (case tokens_Check s c a w of (r, w') \<Rightarrow> (r, (w', t @ [CCheck a r])))"
  "tokens_Settle (traced s) c a n (w, t) = (case tokens_Settle s c a n w of (r, w') \<Rightarrow> (r, (w', t @ [CSettle a n])))"
  "slots (traced s) a (w, t) = (case slots s a w of
        (Refused n, w') \<Rightarrow> (Refused n, (w', t @ [CAcquire (clock s w') a False]))
      | (Granted rel, w') \<Rightarrow> (Granted (\<lambda>(w, t). (rel w, t @ [CRelease a])), (w', t @ [CAcquire (clock s w') a True])))"
  "provider (traced s) c mp req (w, t) = (case provider s c mp req w of
        (r, w') \<Rightarrow> (r, (w', t @ [CComplete (clock s w) c mp])))"
  "usage (traced s) e (w, t) = (usage s e w, t @ [CRecord e])"
  "clock (traced s) (w, t) = clock s w"
  by (simp_all add: traced_def)

lemma settle_traced [port_simps]:
  "settle (traced s) c a u (w, t) =
     (settle s c a u w, t @ [CSettle a (i64 (PromptTokens u + CompletionTokens u))])"
  by (simp add: settle_def port_simps split: prod.splits)

lemma try_traced [port_simps]:
  "tryModelProvider (traced s) c mp req (w, t) =
     (case tryModelProvider s c mp req w of (r, w') \<Rightarrow>
        (r, (w', t @ [CComplete (clock s w) (with_timeout c (clock s w) (PerTryDeadline (cfg s))) mp])))"
  by (simp add: tryModelProvider_def port_simps)

text \<open>The calls of one request.\<close>

definition calls :: "'w Service \<Rightarrow> ctx \<Rightarrow> string \<Rightarrow> ChatRequest \<Rightarrow> 'w \<Rightarrow> call list" where
  "calls s c k req w = snd (snd (Chat (traced s) c k req (w, [])))"

section \<open>Reading a trace\<close>

definition attempts_of :: "call list \<Rightarrow> ModelProvider list" where
  "attempts_of t = concat (map (\<lambda>x. case x of CComplete _ _ mp \<Rightarrow> [mp] | _ \<Rightarrow> []) t)"

definition settles_of :: "call list \<Rightarrow> (string \<times> int) list" where
  "settles_of t = concat (map (\<lambda>x. case x of CSettle a n \<Rightarrow> [(a, n)] | _ \<Rightarrow> []) t)"

fun terminal_event :: "UsageEvent \<Rightarrow> bool" where
  "terminal_event (RecordCompletion _ _ _ _ _) = True"
| "terminal_event (RecordRejection _ _) = True"
| "terminal_event (RecordClientDisconnect _ _ _) = True"
| "terminal_event _ = False"

definition terminals_of :: "call list \<Rightarrow> UsageEvent list" where
  "terminals_of t = concat (map (\<lambda>x. case x of CRecord e \<Rightarrow> if terminal_event e then [e] else [] | _ \<Rightarrow> []) t)"

text \<open>Which port a call goes to; the recorder is observability and is left out.\<close>

datatype port = PApp | PAllow | PCheck | PAcquire | PComplete | PSettle | PRelease

fun port_of :: "call \<Rightarrow> port list" where
  "port_of (CApp _ _) = [PApp]"
| "port_of (CAllow _ _) = [PAllow]"
| "port_of (CCheck _ _) = [PCheck]"
| "port_of (CAcquire _ _ _) = [PAcquire]"
| "port_of (CComplete _ _ _) = [PComplete]"
| "port_of (CSettle _ _) = [PSettle]"
| "port_of (CRelease _) = [PRelease]"
| "port_of (CRecord _) = []"

definition ports_of :: "call list \<Rightarrow> port list" where
  "ports_of t = concat (map port_of t)"

lemma attempts_simps [simp]:
  "attempts_of [] = []"
  "attempts_of (x # t) = (case x of CComplete _ _ mp \<Rightarrow> [mp] | _ \<Rightarrow> []) @ attempts_of t"
  "attempts_of (t @ t') = attempts_of t @ attempts_of t'"
  by (simp_all add: attempts_of_def)

lemma settles_simps [simp]:
  "settles_of [] = []"
  "settles_of (x # t) = (case x of CSettle a n \<Rightarrow> [(a, n)] | _ \<Rightarrow> []) @ settles_of t"
  "settles_of (t @ t') = settles_of t @ settles_of t'"
  by (simp_all add: settles_of_def)

lemma terminals_simps [simp]:
  "terminals_of [] = []"
  "terminals_of (x # t) =
     (case x of CRecord e \<Rightarrow> if terminal_event e then [e] else [] | _ \<Rightarrow> []) @ terminals_of t"
  "terminals_of (t @ t') = terminals_of t @ terminals_of t'"
  by (simp_all add: terminals_of_def)

lemma ports_simps [simp]:
  "ports_of [] = []"
  "ports_of (x # t) = port_of x @ ports_of t"
  "ports_of (t @ t') = ports_of t @ ports_of t'"
  by (simp_all add: ports_of_def)

lemma recorder_only:
  "set us \<subseteq> range CRecord \<Longrightarrow> attempts_of us = [] \<and> settles_of us = [] \<and> ports_of us = []"
  by (induction us) auto

text \<open>The answers that refuse a request, and what a caller is told of them: a limiter's refusal keeps
  its hint and its quota, the semaphore's says when to come back.\<close>

fun refusal :: "call \<Rightarrow> bool" where
  "refusal (CApp _ known) = (\<not> known)"
| "refusal (CAllow _ (Inr d)) = (\<not> Allowed d)"
| "refusal (CCheck _ (Inr d)) = (\<not> Allowed d)"
| "refusal (CAcquire _ _ granted) = (\<not> granted)"
| "refusal _ = False"

fun told :: "call \<Rightarrow> Error \<Rightarrow> bool" where
  "told (CApp _ _) e = (Code e = CodeUnauthorized)"
| "told (CAllow _ (Inr d)) e = (Code e = CodeQuotaExceeded \<and> RetryAfter e = RDRetryAfter d \<and> Quota e = RDQuota d)"
| "told (CCheck _ (Inr d)) e = (Code e = CodeQuotaExceeded \<and> RetryAfter e = RDRetryAfter d \<and> Quota e = RDQuota d)"
| "told (CAcquire _ _ _) e = (Code e = CodeConcurrencyCeiling \<and> RetryAfter e = slotRetryAfter)"
| "told _ e = False"

definition refusals :: "call list \<Rightarrow> call list" where
  "refusals = filter refusal"

lemma refusals_simps [simp]:
  "refusals [] = []" "refusals (x # t) = (if refusal x then x # refusals t else refusals t)"
  "refusals (t @ t') = refusals t @ refusals t'"
  by (simp_all add: refusals_def)

lemma refusal_port: "refusal x \<Longrightarrow> \<exists>p \<in> {PApp, PAllow, PCheck, PAcquire}. port_of x = [p]"
  by (cases x rule: refusal.cases) auto

lemma no_refusals:
  "set (ports_of t) \<inter> {PApp, PAllow, PCheck, PAcquire} = {} \<Longrightarrow> refusals t = []"
proof (induction t)
  case (Cons x t)
  then show ?case using refusal_port [of x] by (cases "refusal x") auto
qed simp

text \<open>The recorder call that accounts for a result.\<close>

fun accounts :: "string \<Rightarrow> go_error + ChatResult \<Rightarrow> UsageEvent \<Rightarrow> bool" where
  "accounts app (Inr r) (RecordCompletion a mp u _ _) =
     (a = app \<and> MPModel mp = RModel r \<and> Provider mp = RProvider r \<and> u = RUsage r)"
| "accounts app (Inl (ErrGateway e)) (RecordRejection a code) = (a = app \<and> code = Code e)"
| "accounts app (Inl (ErrWrap _ (ErrCtx Canceled))) (RecordClientDisconnect a _ _) = (a = app)"
| "accounts _ _ _ = False"

section \<open>The loop\<close>

text \<open>
  What the loop adds to the trace, given how many attempts and which providers came before:
  the attempts are new providers from the plan and at most two in all, each under a context
  no later than the request's and the attempt's own deadline; one recorder call accounts for
  the result; a served completion, and nothing else, is debited.
\<close>

definition loop_facts ::
  "'w Service \<Rightarrow> ctx \<Rightarrow> App \<Rightarrow> ChatRequest \<Rightarrow> ModelProvider list \<Rightarrow> nat \<Rightarrow> string list
     \<Rightarrow> go_error + ChatResult \<Rightarrow> call list \<Rightarrow> bool" where
  "loop_facts s c app req mps n tried res ts \<longleftrightarrow>
     n + length (attempts_of ts) \<le> maxAttempts \<and>
     distinct (map Provider (attempts_of ts)) \<and>
     Provider ` set (attempts_of ts) \<inter> set tried = {} \<and>
     set (attempts_of ts) \<subseteq> set mps \<and>
     (\<exists>e. terminals_of ts = [e] \<and> accounts (AppName app) res e) \<and>
     (case res of
        Inl _ \<Rightarrow> settles_of ts = [] \<and> ports_of ts = replicate (length (attempts_of ts)) PComplete
      | Inr r \<Rightarrow> settles_of ts = [(AppName app, i64 (PromptTokens (RUsage r) + CompletionTokens (RUsage r)))]
          \<and> ports_of ts = replicate (length (attempts_of ts)) PComplete @ [PSettle]
          \<and> attempts_of ts \<noteq> []
          \<and> (\<exists>comp. r = served req (last (attempts_of ts)) comp)) \<and>
     (\<forall>now c' mp. CComplete now c' mp \<in> set ts \<longrightarrow>
        c' = with_timeout c now (PerTryDeadline (cfg s)))"

lemma exhausted_traced:
  assumes "exhausted (traced s) app req con n (w, t) = (res, (w', t'))" and "n \<le> maxAttempts"
  shows "exhausted s app req con n w = (res, w') \<and>
    (\<exists>ts. t' = t @ ts \<and> loop_facts s c app req mps n tried res ts)"
  using assms
  by (auto simp: exhausted_def port_simps loop_facts_def modelUnavailable_def split: if_splits)

lemma loop_facts_next:
  assumes "loop_facts s c app req mps (Suc n) (Provider mp # tried) res ts"
    and "set us \<subseteq> range CRecord" and "terminals_of us = []" and "Provider mp \<notin> set tried"
  shows "loop_facts s c app req (mp # mps) n tried res
    (CComplete now (with_timeout c now (PerTryDeadline (cfg s))) mp # us @ ts)"
proof -
  note us = recorder_only [OF assms(2)]
  have "CComplete n' c' mp' \<notin> set us" for n' c' mp' using assms(2) by auto
  with assms us show ?thesis
    by (cases res) (auto simp: loop_facts_def image_iff)
qed

lemma loop_traced:
  assumes "attempt_loop (traced s) cc c app req con mps n tried (w, t) = (res, (w', t'))"
    and "n \<le> maxAttempts"
  shows "attempt_loop s cc c app req con mps n tried w = (res, w') \<and>
    (\<exists>ts. t' = t @ ts \<and> loop_facts s c app req mps n tried res ts)"
  using assms
proof (induction mps arbitrary: n tried w t)
  case Nil
  then show ?case using exhausted_traced [of s app req con n w t res w' t' c "[]" tried] by simp
next
  case (Cons mp mps)
  show ?case
  proof (cases "n = maxAttempts \<or> Provider mp \<in> set tried")
    case True
    show ?thesis
    proof (cases "n = maxAttempts")
      case True
      with Cons.prems show ?thesis
        using exhausted_traced [of s app req con n w t res w' t' c "mp # mps" tried] by simp
    next
      case False
      with True Cons.prems Cons.IH [of n tried w t] show ?thesis
        by (auto simp: loop_facts_def)
    qed
  next
    case False
    then have new: "n \<noteq> maxAttempts" "Provider mp \<notin> set tried" by auto
    obtain r w1 where tr: "tryModelProvider s c mp req w = (r, w1)" by fastforce
    let ?cc = "CComplete (clock s w) (with_timeout c (clock s w) (PerTryDeadline (cfg s))) mp"
    show ?thesis
    proof (cases r)
      case (Inr comp)
      with Cons.prems new tr show ?thesis
        by (auto simp: port_simps loop_facts_def served_def maxAttempts_def)
    next
      case (Inl err)
      show ?thesis
      proof (cases "ctx_err_at cc (clock s w1) = Some Canceled \<or> ctx_err_at c (clock s w1) \<noteq> None")
        case True
        with Inl Cons.prems new tr show ?thesis
          by (auto simp: port_simps loop_facts_def maxAttempts_def split: if_splits)
      next
        case False
        define us where "us = (if billsDespiteFailure err
          then [CRecord (RecordDoubleSpendRisk (AppName app) mp (unobservedTokens err req))] else [])"
        define w2 where "w2 = (if billsDespiteFailure err
          then usage s (RecordDoubleSpendRisk (AppName app) mp (unobservedTokens err req)) w1 else w1)"
        have nle: "Suc n \<le> maxAttempts" using new Cons.prems(2) by simp
        have step: "attempt_loop (traced s) cc c app req con mps (Suc n) (Provider mp # tried)
            (w2, t @ ?cc # us) = (res, (w', t'))"
          using Inl Cons.prems(1) new tr False by (auto simp: port_simps us_def w2_def)
        have eq: "attempt_loop s cc c app req con (mp # mps) n tried w =
            attempt_loop s cc c app req con mps (Suc n) (Provider mp # tried) w2"
          using Inl new tr False by (simp add: w2_def)
        from Cons.IH [OF step nle] obtain ts where
          "attempt_loop s cc c app req con mps (Suc n) (Provider mp # tried) w2 = (res, w')"
          and ts: "t' = (t @ ?cc # us) @ ts"
            "loop_facts s c app req mps (Suc n) (Provider mp # tried) res ts" by blast
        moreover have "loop_facts s c app req (mp # mps) n tried res (?cc # us @ ts)"
          by (rule loop_facts_next [OF ts(2)]) (auto simp: us_def new)
        ultimately show ?thesis using eq ts(1) by auto
      qed
    qed
  qed
qed

section \<open>The whole request\<close>

text \<open>
  The extension of a trace by one stage that has no attempt and no debit: either it refuses
  (one terminal event, which accounts for the error) or it passes (no terminal event).
\<close>

definition stage :: "App \<Rightarrow> port \<Rightarrow> Error option \<Rightarrow> call list \<Rightarrow> bool" where
  "stage app p r ts \<longleftrightarrow> attempts_of ts = [] \<and> settles_of ts = [] \<and> ports_of ts = [p] \<and>
     (case r of None \<Rightarrow> terminals_of ts = [] \<and> refusals ts = []
      | Some e \<Rightarrow> terminals_of ts = [RecordRejection (AppName app) (Code e)] \<and>
          (\<exists>x. refusals ts = [x] \<and> port_of x = [p] \<and> told x e))"

lemma meterRate_stage:
  assumes "meterRate (traced s) c app (w, t) = (r, (w', t'))"
  shows "meterRate s c app w = (r, w') \<and> (\<exists>ts. t' = t @ ts \<and> stage app PAllow r ts)"
proof -
  obtain a w1 where l: "limits s c (AppName app) w = (a, w1)" by fastforce
  show ?thesis
  proof (cases a)
    case (Inl e)
    with l assms show ?thesis by (auto simp: meterRate_def port_simps stage_def)
  next
    case (Inr d)
    with l assms show ?thesis by (cases "Allowed d") (auto simp: meterRate_def port_simps stage_def)
  qed
qed

lemma meterTokens_stage:
  assumes "meterTokens (traced s) c app (w, t) = (r, (w', t'))"
  shows "meterTokens s c app w = (r, w') \<and> (\<exists>ts. t' = t @ ts \<and> stage app PCheck r ts)"
proof -
  obtain a w1 where l: "tokens_Check s c (AppName app) w = (a, w1)" by fastforce
  show ?thesis
  proof (cases a)
    case (Inl e)
    with l assms show ?thesis by (auto simp: meterTokens_def port_simps stage_def)
  next
    case (Inr d)
    with l assms show ?thesis by (cases "Allowed d") (auto simp: meterTokens_def port_simps stage_def)
  qed
qed

text \<open>The plan of a request and its total deadline, as \<open>route\<close> computes them.\<close>

abbreviation plan :: "'w Service \<Rightarrow> App \<Rightarrow> ChatRequest \<Rightarrow> ModelProvider list" where
  "plan s app req \<equiv> fst (buildModelsProvidersFallback (Model req) (Policy app)
     (ModelProviders (cfg s)) (FailoverOrder (cfg s)))"

definition total_deadline :: "'w Service \<Rightarrow> App \<Rightarrow> int" where
  "total_deadline s app =
     (if AppTotalDeadline app > 0 then AppTotalDeadline app else TotalDeadline (cfg s))"

lemma route_traced:
  assumes "route (traced s) c app req (w, t) = (res, (w', t'))"
  shows "route s c app req w = (res, w') \<and>
    (\<exists>ts. t' = t @ ts \<and> loop_facts s (with_timeout c (clock s w) (total_deadline s app)) app req
       (plan s app req) 0 [] res ts)"
proof (cases "plan s app req = []")
  case True
  with assms show ?thesis
    by (auto simp: route_def port_simps modelUnavailable_def loop_facts_def split: prod.splits)
next
  case False
  obtain el con where b: "buildModelsProvidersFallback (Model req) (Policy app)
     (ModelProviders (cfg s)) (FailoverOrder (cfg s)) = (el, con)" by fastforce
  with False assms have
    "attempt_loop (traced s) c (with_timeout c (clock s w) (total_deadline s app)) app req con
       el 0 [] (w, t) = (res, (w', t'))"
    by (auto simp: route_def port_simps total_deadline_def Let_def)
  from loop_traced [OF this] b False show ?thesis
    by (simp add: route_def total_deadline_def)
qed

text \<open>What the slot stage adds: a refusal, or the claim, the routed calls and the release.\<close>

definition slot_facts ::
  "'w Service \<Rightarrow> ctx \<Rightarrow> App \<Rightarrow> ChatRequest \<Rightarrow> go_error + ChatResult \<Rightarrow> call list \<Rightarrow> bool" where
  "slot_facts s c app req res ts \<longleftrightarrow>
     (\<exists>now e. ts = [CAcquire now (AppName app) False, CRecord (RecordRejection (AppName app) CodeConcurrencyCeiling)]
        \<and> res = Inl (ErrGateway e) \<and> Code e = CodeConcurrencyCeiling \<and> RetryAfter e = slotRetryAfter)
   \<or> (\<exists>now us. ts = CAcquire now (AppName app) True # us @ [CRelease (AppName app)]
        \<and> loop_facts s (with_timeout c now (total_deadline s app)) app req (plan s app req) 0 [] res us)"

lemma with_slot_traced:
  assumes "with_slot (traced s) c app req (w, t) = (res, (w', t'))"
  shows "with_slot s c app req w = (res, w') \<and> (\<exists>ts. t' = t @ ts \<and> slot_facts s c app req res ts)"
proof -
  obtain g w1 where sl: "slots s (AppName app) w = (g, w1)" by fastforce
  show ?thesis
  proof (cases g)
    case (Refused n)
    with sl assms show ?thesis
      by (auto simp: with_slot_def port_simps slot_facts_def)
  next
    case (Granted rel)
    obtain w2 t2 where r: "route (traced s) c app req (w1, t @ [CAcquire (clock s w1) (AppName app) True]) = (res, (w2, t2))"
      and fin: "w' = rel w2" "t' = t2 @ [CRelease (AppName app)]"
      using Granted sl assms by (auto simp: with_slot_def port_simps split: prod.splits)
    from route_traced [OF r] obtain us where
      "route s c app req w1 = (res, w2)" "t2 = (t @ [CAcquire (clock s w1) (AppName app) True]) @ us"
      "loop_facts s (with_timeout c (clock s w1) (total_deadline s app)) app req (plan s app req) 0 [] res us"
      by blast
    with Granted sl fin show ?thesis
      by (auto simp: with_slot_def slot_facts_def)
  qed
qed

text \<open>
  The four ways a request can go: unknown caller, invalid request, refused by a meter, or past
  the meters to the slot.
\<close>

lemma Chat_traced:
  assumes "Chat (traced s) c k req (w, []) = (res, (w', t'))"
  obtains
    (unauthorized) "t' = [CApp k False]" "Chat s c k req w = (res, w')"
      "res = Inl (ErrGateway (mk_error CodeUnauthorized ''missing or invalid API key''))"
      "fst (apps s c k w) = None"
  | (invalid) app w1 m where "apps s c k w = (Some app, w1)" "\<not> well_formed req"
      "t' = [CApp k True, CRecord (RecordRejection (AppName app) CodeInvalidRequest)]"
      "Chat s c k req w = (res, w')" "res = Inl (ErrGateway (mk_error CodeInvalidRequest m))"
  | (rate) app w1 e ts where "apps s c k w = (Some app, w1)" "well_formed req"
      "t' = CApp k True # ts" "stage app PAllow (Some e) ts"
      "Chat s c k req w = (res, w')" "res = Inl (ErrGateway e)"
  | (tokens) app w1 e ts us where "apps s c k w = (Some app, w1)" "well_formed req"
      "t' = CApp k True # ts @ us" "stage app PAllow None ts" "stage app PCheck (Some e) us"
      "Chat s c k req w = (res, w')" "res = Inl (ErrGateway e)"
  | (admitted) app w1 ts us vs where "apps s c k w = (Some app, w1)" "well_formed req"
      "t' = CApp k True # ts @ us @ vs" "stage app PAllow None ts" "stage app PCheck None us"
      "slot_facts s c app req res vs" "Chat s c k req w = (res, w')"
proof -
  obtain a w1 where ap: "apps s c k w = (a, w1)" by fastforce
  show thesis
  proof (cases a)
    case None
    with ap assms show thesis by (intro unauthorized) (auto simp: Chat_def port_simps)
  next
    case (Some app)
    show thesis
    proof (cases "Validate req")
      case (Some err)
      then obtain m where "err = ErrGateway (mk_error CodeInvalidRequest m)"
        using Validate_Some by blast
      moreover have "\<not> well_formed req" using Some Validate_None [of req] by simp
      ultimately show thesis using Some \<open>a = Some app\<close> ap assms
        by (intro invalid [of app w1 m]) (auto simp: Chat_def port_simps)
    next
      case None
      then have wf: "well_formed req" by (simp add: Validate_None)
      obtain r1 w2 t2 where m1: "meterRate (traced s) c app (w1, [CApp k True]) = (r1, (w2, t2))"
        by (metis prod_cases3)
      from meterRate_stage [OF m1] obtain ts where
        n1: "meterRate s c app w1 = (r1, w2)" "t2 = [CApp k True] @ ts" "stage app PAllow r1 ts" by blast
      show thesis
      proof (cases r1)
        case (Some e)
        with None \<open>a = Some app\<close> ap m1 n1 wf assms show thesis
          by (intro rate [of app w1 ts e]) (auto simp: Chat_def port_simps)
      next
        case r1: None
        obtain r2 w3 t3 where m2: "meterTokens (traced s) c app (w2, t2) = (r2, (w3, t3))"
          by (metis prod_cases3)
        from meterTokens_stage [OF m2] obtain us where
          n2: "meterTokens s c app w2 = (r2, w3)" "t3 = t2 @ us" "stage app PCheck r2 us" by blast
        show thesis
        proof (cases r2)
          case (Some e)
          with r1 None \<open>a = Some app\<close> ap m1 n1 m2 n2 wf assms show thesis
            by (intro tokens [of app w1 ts us e]) (auto simp: Chat_def port_simps)
        next
          case r2: None
          have ws: "with_slot (traced s) c app req (w3, t3) = (res, (w', t'))"
            using r1 r2 None \<open>a = Some app\<close> ap m1 m2 assms by (auto simp: Chat_def port_simps)
          from with_slot_traced [OF ws] obtain vs where
            n3: "with_slot s c app req w3 = (res, w')" "t' = t3 @ vs" "slot_facts s c app req res vs"
            by blast
          show thesis
            by (rule admitted [of app w1 ts us vs])
              (use r1 r2 None \<open>a = Some app\<close> ap n1 n2 n3 wf in \<open>auto simp: Chat_def\<close>)
        qed
      qed
    qed
  qed
qed

lemma traced_erase: "fst (Chat (traced s) c k req (w, [])) = fst (Chat s c k req w) \<and>
    fst (snd (Chat (traced s) c k req (w, []))) = snd (Chat s c k req w)"
proof -
  obtain res w' t' where t: "Chat (traced s) c k req (w, []) = (res, (w', t'))"
    by (metis prod_cases3)
  then have "Chat s c k req w = (res, w')" by (cases rule: Chat_traced) auto
  with t show ?thesis by simp
qed

end
