(* ===== verification/Ports.thy ===== *)
theory Ports
  imports ChatTrace
begin

text \<open>
  The contracts between the core and its adapters, as locales. Each fixes the operations the
  core calls, assumes what an implementation promises, and proves once what \<open>Chat\<close> gains from
  it. The theories of the adapters interpret them on the model of the code.
\<close>

section \<open>Slot limiters\<close>

text \<open>
  \<open>held\<close> counts the slots an app holds in a limiter's state, \<open>valid\<close> is the states a limiter
  can be in. A granted claim adds one, and its \<open>release\<close>, run when nothing else moved the
  state, restores the counts.
\<close>

locale slot_limiter =
  fixes acquire :: "string \<Rightarrow> 'w \<Rightarrow> 'w SlotGrant \<times> 'w"
    and state :: "'w \<Rightarrow> 's"
    and valid :: "'s \<Rightarrow> bool"
    and held :: "'s \<Rightarrow> string \<Rightarrow> int"
  assumes refused: "acquire a w = (Refused n, w1) \<Longrightarrow> state w1 = state w"
    and granted: "valid (state w) \<Longrightarrow> acquire a w = (Granted rel, w1) \<Longrightarrow>
      valid (state w1) \<and> held (state w1) = (held (state w))(a := held (state w) a + 1)"
    and released: "valid (state w) \<Longrightarrow> acquire a w = (Granted rel, w1) \<Longrightarrow> state w2 = state w1 \<Longrightarrow>
      valid (state (rel w2)) \<and> held (state (rel w2)) = held (state w)"

text \<open>A service whose slot port is such a limiter and whose other ports leave it alone.\<close>

locale slot_client = slot_limiter "slots s" state valid held
  for s :: "'w Service" and state :: "'w \<Rightarrow> 's" and valid :: "'s \<Rightarrow> bool"
    and held :: "'s \<Rightarrow> string \<Rightarrow> int" +
  assumes apps_frame: "state (snd (apps s c k w)) = state w"
    and limits_frame: "state (snd (limits s c a w)) = state w"
    and check_frame: "state (snd (tokens_Check s c a w)) = state w"
    and settle_frame: "state (snd (tokens_Settle s c a n w)) = state w"
    and provider_frame: "state (snd (provider s c mp req w)) = state w"
    and usage_frame: "state (usage s e w) = state w"
begin

lemma meters_frame:
  "state (snd (meterRate s c app w)) = state w"
  "state (snd (meterTokens s c app w)) = state w"
  using limits_frame [of c "AppName app" w] check_frame [of c "AppName app" w]
  by (auto simp: meterRate_def meterTokens_def usage_frame split: sum.splits prod.splits)

lemma loop_frame: "state (snd (attempt_loop s cc c app req con mps n tried w)) = state w"
proof (induction mps arbitrary: n tried w)
  case (Cons mp mps)
  obtain r w1 where tr: "tryModelProvider s c mp req w = (r, w1)" by fastforce
  with provider_frame have "state w1 = state w"
    by (metis tryModelProvider_def snd_conv)
  with Cons tr show ?case
    by (auto simp: exhausted_def usage_frame settle_frame settle_def split: sum.splits)
qed (simp add: exhausted_def usage_frame)

lemma route_frame: "state (snd (route s c app req w)) = state w"
  by (simp add: route_def usage_frame loop_frame Let_def split: prod.splits)

lemma with_slot_held:
  assumes valid: "valid (state w)"
  shows "valid (state (snd (with_slot s c app req w))) \<and>
    held (state (snd (with_slot s c app req w))) = held (state w)"
proof -
  obtain g w1 where sl: "slots s (AppName app) w = (g, w1)" by fastforce
  obtain res w2 where r: "route s c app req w1 = (res, w2)" by fastforce
  then have w2: "state w2 = state w1" using route_frame [of c app req w1] by simp
  show ?thesis
  proof (cases g)
    case (Granted rel)
    with sl r released [OF valid _ w2] show ?thesis by (simp add: with_slot_def)
  next
    case (Refused n)
    with sl refused [of "AppName app" w n w1] valid show ?thesis by (simp add: with_slot_def usage_frame)
  qed
qed

lemma chat_held:
  assumes "valid (state w)"
  shows "valid (state (snd (Chat s c k req w))) \<and> held (state (snd (Chat s c k req w))) = held (state w)"
proof -
  obtain a w1 where ap: "apps s c k w = (a, w1)" by fastforce
  with apps_frame have w1: "state w1 = state w" by (metis snd_conv)
  show ?thesis
  proof (cases a)
    case (Some app)
    obtain r2 w2 where m2: "meterRate s c app w1 = (r2, w2)" by fastforce
    obtain r3 w3 where m3: "meterTokens s c app w2 = (r3, w3)" by fastforce
    from m2 m3 meters_frame have "state w2 = state w1" "state w3 = state w2"
      by (metis snd_conv)+
    with Some ap w1 m2 m3 assms show ?thesis
      by (simp add: Chat_def usage_frame with_slot_held split: option.splits)
  qed (use ap w1 assms in \<open>simp add: Chat_def\<close>)
qed

end

section \<open>Rate limiters\<close>

text \<open>A refusal says when to come back, within two minutes, and which quota refused.\<close>

definition useful_refusal :: "RateDecision \<Rightarrow> bool" where
  "useful_refusal d \<longleftrightarrow> Allowed d \<or> 0 < RDRetryAfter d \<and> RDRetryAfter d < 2 * Minute \<and> RDQuota d \<noteq> None"

locale rate_limiter =
  fixes check :: "'w RateCheck"
  assumes useful: "check c a w = (Inr d, w1) \<Longrightarrow> useful_refusal d"

text \<open>What a refusal by any meter tells the caller.\<close>

definition actionable :: "Error \<Rightarrow> bool" where
  "actionable e \<longleftrightarrow>
     (Code e = CodeQuotaExceeded \<longrightarrow> 0 < RetryAfter e \<and> RetryAfter e < 2 * Minute \<and> Quota e \<noteq> None) \<and>
     (Code e = CodeConcurrencyCeiling \<longrightarrow> RetryAfter e = Second)"

locale metered_service =
  rate: rate_limiter "limits s" + budget: rate_limiter "tokens_Check s" for s :: "'w Service"
begin

lemma meterRate_actionable: "meterRate s c app w = (Some e, w1) \<Longrightarrow> actionable e"
  using rate.useful [of c "AppName app" w]
  by (auto simp: meterRate_def actionable_def useful_refusal_def split: sum.splits prod.splits if_splits)

lemma meterTokens_actionable: "meterTokens s c app w = (Some e, w1) \<Longrightarrow> actionable e"
  using budget.useful [of c "AppName app" w]
  by (auto simp: meterTokens_def actionable_def useful_refusal_def split: sum.splits prod.splits if_splits)

lemma loop_actionable:
  "attempt_loop s cc c app req con mps n tried w = (Inl (ErrGateway e), w1) \<Longrightarrow> actionable e"
  by (induction mps arbitrary: n tried w)
    (auto simp: exhausted_def modelUnavailable_def actionable_def split: if_splits sum.splits prod.splits)

lemma with_slot_actionable:
  "with_slot s c app req w = (Inl (ErrGateway e), w1) \<Longrightarrow> actionable e"
  by (auto simp: with_slot_def route_def Let_def modelUnavailable_def slotRetryAfter_def
        split: prod.splits SlotGrant.splits if_splits dest: loop_actionable)
     (auto simp: actionable_def)

lemma chat_actionable:
  assumes "Chat s c k req w = (Inl (ErrGateway e), w1)"
  shows "actionable e"
proof -
  have "Validate req = Some (ErrGateway e) \<Longrightarrow> actionable e"
    by (auto dest!: Validate_Some simp: actionable_def)
  moreover have "actionable (mk_error CodeUnauthorized m)" for m by (simp add: actionable_def)
  ultimately show ?thesis
    using assms
    by (auto simp: Chat_def split: option.splits prod.splits
        dest: meterRate_actionable meterTokens_actionable with_slot_actionable)
qed

end

section \<open>Provider clients\<close>

text \<open>Every failed attempt is a classified fault, so the core can account for it.\<close>

locale provider_client =
  fixes complete :: "'w ProviderClient"
  assumes classified: "complete c mp req w = (Inl e, w1) \<Longrightarrow> as_fault e \<noteq> None"
begin

text \<open>The tokens a failed attempt may have cost are recorded exactly for the two kinds of fault
  in which the provider may have done the work.\<close>

lemma bills_iff:
  "complete c mp req w = (Inl e, w1) \<Longrightarrow>
     billsDespiteFailure e \<longleftrightarrow> (\<exists>k u x. as_fault e = Some (k, u, x) \<and> (k = FaultTimeout \<or> k = FaultBadResponse))"
  using classified [of c mp req w e w1] by (auto simp: billsDespiteFailure_def split: option.splits)

end

end
