(* ===== verification/ChatProps.thy ===== *)
theory ChatProps
  imports ChatTrace
begin

text \<open>
  The properties of \<open>Chat\<close>, for every choice of adapters. Most are read off the request's
  trace (\<^const>\<open>calls\<close>) with the case rule \<open>Chat_traced\<close>; the witnesses run a small concrete
  service.
\<close>

section \<open>A concrete service for the witnesses\<close>

text \<open>
  The world is the clock. The provider \<open>openai\<close> times out after ten nanoseconds, the others
  answer after five. The caller of \<open>demo_request\<close> accepts any model.
\<close>

definition demo_app :: App where
  "demo_app = \<lparr>AppName = ''rag'', Policy = \<lparr>Kind = PolicyAny, Allowlist = []\<rparr>, AppTotalDeadline = 0\<rparr>"

definition demo_message :: Message where
  "demo_message = \<lparr>Role = RoleUser, Content = ''hi'', ToolCalls = [], ToolCallID = ''''\<rparr>"

definition demo_request :: ChatRequest where
  "demo_request = \<lparr>Model = ''gpt'', Messages = [demo_message], MaxTokens = 100, Temperature = None,
     TopP = None, Stop = [], Tools = [], ToolChoice = None\<rparr>"

definition demo_completion :: Completion where
  "demo_completion = \<lparr>CMessage = demo_message, CFinishReason = FinishStop,
     CUsage = \<lparr>PromptTokens = 7, CompletionTokens = 3, TotalTokens = 10\<rparr>\<rparr>"

definition demo_service :: "int Service" where
  "demo_service = \<lparr>cfg = \<lparr>ModelProviders = [row ''gpt'' ''openai'', row ''opus'' ''anthropic''],
       FailoverOrder = [''openai'', ''anthropic''], TotalDeadline = 100, PerTryDeadline = 20\<rparr>,
     apps = (\<lambda>_ k w. (if k = ''token'' then Some demo_app else None, w)),
     limits = (\<lambda>_ _ w. (Inr \<lparr>Allowed = True, RDRetryAfter = 0, RDQuota = None\<rparr>, w)),
     tokens_Check = (\<lambda>_ _ w. (Inr \<lparr>Allowed = True, RDRetryAfter = 0, RDQuota = None\<rparr>, w)),
     tokens_Settle = (\<lambda>_ _ _ w. (None, w)),
     slots = (\<lambda>_ w. (Granted (\<lambda>w. w), w)),
     provider = (\<lambda>_ mp _ w. if Provider mp = ''openai''
        then (Inl (ErrFault FaultTimeout None None), w + 10) else (Inr demo_completion, w + 5)),
     usage = (\<lambda>_ w. w), clock = (\<lambda>w. w)\<rparr>"

lemmas demo_defs = demo_service_def demo_app_def demo_request_def demo_message_def
  demo_completion_def row_def

lemmas chat_defs = Chat_def Validate_def meterRate_def meterTokens_def with_slot_def route_def
  buildModelsProvidersFallback_def providerRank_def tryModelProvider_def settle_def served_def
  exhausted_def maxAttempts_def ctx_err_at_def with_timeout_def background_def
  billsDespiteFailure_def unobservedTokens_def

lemma demo_run:
  "Chat demo_service background ''token'' demo_request 0 =
     (Inr (served demo_request (row ''opus'' ''anthropic'') demo_completion), 15)"
  by (simp add: demo_defs chat_defs)

lemma demo_calls:
  "calls demo_service background ''token'' demo_request 0 =
     [CApp ''token'' True, CAllow ''rag'' (Inr \<lparr>Allowed = True, RDRetryAfter = 0, RDQuota = None\<rparr>),
      CCheck ''rag'' (Inr \<lparr>Allowed = True, RDRetryAfter = 0, RDQuota = None\<rparr>), CAcquire 0 ''rag'' True,
      CComplete 0 \<lparr>cancelled_at = None, ctx_deadline = Some 20\<rparr> (row ''gpt'' ''openai''),
      CRecord (RecordDoubleSpendRisk ''rag'' (row ''gpt'' ''openai'') 100),
      CComplete 10 \<lparr>cancelled_at = None, ctx_deadline = Some 30\<rparr> (row ''opus'' ''anthropic''),
      CRecord (RecordCompletion ''rag'' (row ''opus'' ''anthropic'')
        \<lparr>PromptTokens = 7, CompletionTokens = 3, TotalTokens = 10\<rparr> 5 True),
      CSettle ''rag'' 10, CRelease ''rag'']"
  by (simp add: calls_def traced_def demo_defs chat_defs i64_def)

section \<open>Properties\<close>

text \<open>The ports a request passes before it is routed, in order.\<close>

definition entry_ports :: "port list" where
  "entry_ports = [PApp, PAllow, PCheck, PAcquire]"

text \<open>C22: A request makes at most two provider attempts, never two at the same provider.\<close>

theorem chat_attempts_bounded:
  "length (attempts_of (calls s c k req w)) \<le> maxAttempts \<and>
   distinct (map Provider (attempts_of (calls s c k req w)))"
proof -
  obtain res w' t' where t: "Chat (traced s) c k req (w, []) = (res, (w', t'))"
    by (metis prod_cases3)
  then have "length (attempts_of t') \<le> maxAttempts \<and> distinct (map Provider (attempts_of t'))"
    by (cases rule: Chat_traced)
      (auto simp: stage_def slot_facts_def loop_facts_def)
  with t show ?thesis by (simp add: calls_def)
qed

text \<open>C1: The ports are driven in one order and a refusal ends the request. Identity, request rate,
  token budget and slot are asked in this order, and nothing after the first of them that refuses;
  the caller is told which one it was, with its hint of when to come back and its quota. A request
  that is not well formed goes no further than identity. One that no port refuses holds a slot,
  makes its attempts, is debited at most once, and gives the slot back as the last thing it does.\<close>

theorem chat_port_protocol:
  "case refusals (calls s c k req w) of
     x # rest \<Rightarrow> rest = [] \<and>
       ports_of (calls s c k req w) = takeWhile (\<lambda>p. p \<noteq> hd (port_of x)) entry_ports @ port_of x \<and>
       (\<exists>e. fst (Chat s c k req w) = Inl (ErrGateway e) \<and> told x e)
   | [] \<Rightarrow>
       if \<not> well_formed req then
         ports_of (calls s c k req w) = [PApp] \<and>
         (\<exists>e. fst (Chat s c k req w) = Inl (ErrGateway e) \<and> Code e = CodeInvalidRequest)
       else \<exists>debit. debit \<in> {[], [PSettle]} \<and>
         ports_of (calls s c k req w) = entry_ports @
           replicate (length (attempts_of (calls s c k req w))) PComplete @ debit @ [PRelease]"
proof -
  obtain res w' t' where t: "Chat (traced s) c k req (w, []) = (res, (w', t'))"
    by (metis prod_cases3)
  then show ?thesis
  proof (cases rule: Chat_traced)
    case (rate app w1 e ts)
    then obtain x where "refusals ts = [x]" "port_of x = [PAllow]" "told x e" by (auto simp: stage_def)
    with t rate show ?thesis by (auto simp: calls_def stage_def entry_ports_def)
  next
    case (tokens app w1 e ts us)
    then obtain x where "refusals us = [x]" "port_of x = [PCheck]" "told x e" by (auto simp: stage_def)
    with t tokens show ?thesis by (auto simp: calls_def stage_def entry_ports_def)
  next
    case (admitted app w1 ts us vs)
    from admitted(6) show ?thesis
      unfolding slot_facts_def
    proof (elim disjE exE conjE)
      fix now xs
      assume "vs = CAcquire now (AppName app) True # xs @ [CRelease (AppName app)]"
        and l: "loop_facts s (with_timeout c now (total_deadline s app)) app req (plan s app req) 0 [] res xs"
      moreover have "refusals xs = []"
        by (rule no_refusals) (use l in \<open>auto simp: loop_facts_def split: sum.splits\<close>)
      ultimately show ?thesis using t admitted
        by (cases res) (auto simp: calls_def stage_def loop_facts_def entry_ports_def)
    qed (use t admitted in \<open>auto simp: calls_def stage_def entry_ports_def\<close>)
  qed (use t in \<open>auto simp: calls_def entry_ports_def\<close>)
qed

fun slot_call :: "call \<Rightarrow> bool" where
  "slot_call (CAcquire _ _ _) = True"
| "slot_call (CRelease _) = True"
| "slot_call _ = False"

lemma no_slot_call: "PAcquire \<notin> set (ports_of ts) \<Longrightarrow> PRelease \<notin> set (ports_of ts) \<Longrightarrow>
    filter slot_call ts = []"
proof (induction ts)
  case (Cons x ts)
  then show ?case by (cases x) auto
qed simp

text \<open>A granted slot is released exactly once and last, whatever the outcome; a refused claim
  releases nothing.\<close>

theorem chat_slot_paired:
  "filter slot_call (calls s c k req w) = [] \<or>
   (\<exists>now a. filter slot_call (calls s c k req w) = [CAcquire now a False]) \<or>
   (\<exists>now a. filter slot_call (calls s c k req w) = [CAcquire now a True, CRelease a] \<and>
      last (calls s c k req w) = CRelease a)"
proof -
  obtain res w' t' where t: "Chat (traced s) c k req (w, []) = (res, (w', t'))"
    by (metis prod_cases3)
  have st: "filter slot_call ts = []" if "stage app p r ts" "p = PAllow \<or> p = PCheck" for app p r ts
    using that by (intro no_slot_call) (auto simp: stage_def)
  from t show ?thesis
  proof (cases rule: Chat_traced)
    case (admitted app w1 ts us vs)
    have lp: "filter slot_call xs = []"
      if "loop_facts s c' app req mps n tried res xs" for c' mps n tried xs
      using that by (intro no_slot_call) (auto simp: loop_facts_def split: sum.splits)
    from t admitted show ?thesis
      by (auto simp: calls_def st slot_facts_def lp)
  qed (use t in \<open>auto simp: calls_def st\<close>)
qed

text \<open>C2: Every request of a known app ends with exactly one accounting record, under that app's name,
  and it says what the caller was told: a completion for an answer, a rejection with the error's
  code, or a disconnect. A caller that the directory does not know leaves no record and is told
  that it is unauthorized.\<close>

theorem chat_accounted:
  "case fst (apps s c k w) of
     None \<Rightarrow> terminals_of (calls s c k req w) = [] \<and>
       fst (Chat s c k req w) = Inl (ErrGateway (mk_error CodeUnauthorized ''missing or invalid API key''))
   | Some app \<Rightarrow> \<exists>e. terminals_of (calls s c k req w) = [e] \<and>
       accounts (AppName app) (fst (Chat s c k req w)) e"
proof -
  obtain res w' t' where t: "Chat (traced s) c k req (w, []) = (res, (w', t'))"
    by (metis prod_cases3)
  then show ?thesis
  proof (cases rule: Chat_traced)
    case (admitted app w1 ts us vs)
    from admitted(6) have "\<exists>e. terminals_of vs = [e] \<and> accounts (AppName app) res e"
      by (auto simp: slot_facts_def loop_facts_def)
    with t admitted show ?thesis by (auto simp: calls_def stage_def)
  qed (use t in \<open>auto simp: calls_def stage_def\<close>)
qed

text \<open>C24: The token budget is debited exactly when a completion was served, once, by the prompt
  and completion tokens the provider reported.\<close>

theorem chat_debits_served_only:
  "map snd (settles_of (calls s c k req w)) =
     (case fst (Chat s c k req w) of
        Inl _ \<Rightarrow> []
      | Inr r \<Rightarrow> [i64 (PromptTokens (RUsage r) + CompletionTokens (RUsage r))])"
proof -
  obtain res w' t' where t: "Chat (traced s) c k req (w, []) = (res, (w', t'))"
    by (metis prod_cases3)
  then show ?thesis
  proof (cases rule: Chat_traced)
    case admitted
    with t show ?thesis
      by (cases res) (auto simp: calls_def stage_def slot_facts_def loop_facts_def)
  qed (use t in \<open>auto simp: calls_def stage_def\<close>)
qed

lemma plan_row: "mp \<in> set (plan s app req) \<Longrightarrow>
    mp \<in> set (ModelProviders (cfg s)) \<and> permits (Policy app) (Model req) (MPModel mp)"
  by (cases "primary_rows (Model req) (ModelProviders (cfg s)) = []")
    (simp_all add: build_no_primary set_eligible)

lemma served_row:
  assumes "fst (Chat s c k req w) = Inr r" and "apps s c k w = (Some app, w1)"
  shows "\<exists>mp \<in> set (ModelProviders (cfg s)). RModel r = MPModel mp \<and> RProvider r = Provider mp \<and>
     permits (Policy app) (Model req) (RModel r) \<and> Substituted r = (RModel r \<noteq> Model req)"
proof -
  obtain res w' t' where t: "Chat (traced s) c k req (w, []) = (res, (w', t'))"
    by (metis prod_cases3)
  from t show ?thesis
  proof (cases rule: Chat_traced)
    case (admitted app' w1' ts us vs)
    with assms have "res = Inr r" "app' = app" by auto
    with admitted(6) obtain xs comp where
      "set (attempts_of xs) \<subseteq> set (plan s app req)" "attempts_of xs \<noteq> []"
      "r = served req (last (attempts_of xs)) comp"
      by (auto simp: slot_facts_def loop_facts_def)
    moreover from this have "last (attempts_of xs) \<in> set (plan s app req)"
      using last_in_set by blast
    ultimately show ?thesis
      by (intro bexI [of _ "last (attempts_of xs)"]) (auto simp: served_def dest: plan_row)
  qed (use assms(1) in simp_all)
qed

text \<open>C8: An answer names the row that served it: a row of the table that the app's policy permits
  for the requested model; the substitution flag is set exactly when its model differs from
  the requested one.\<close>

theorem chat_served_by_permitted_row:
  assumes "fst (Chat s c k req w) = Inr r" and "apps s c k w = (Some app, w1)"
  shows "\<exists>mp \<in> set (ModelProviders (cfg s)). RModel r = MPModel mp \<and> RProvider r = Provider mp \<and>
     permits (Policy app) (Model req) (RModel r) \<and> Substituted r = (RModel r \<noteq> Model req)"
  by (rule served_row [OF assms])

theorem chat_served_by_permitted_row_witness:
  "\<exists>mp \<in> set (ModelProviders (cfg demo_service)).
     ''opus'' = MPModel mp \<and> ''anthropic'' = Provider mp \<and>
     permits (Policy demo_app) ''gpt'' ''opus''"
proof -
  have "fst (Chat demo_service background ''token'' demo_request 0) =
      Inr (served demo_request (row ''opus'' ''anthropic'') demo_completion)"
    by (simp add: demo_run)
  moreover have "apps demo_service background ''token'' 0 = (Some demo_app, 0)"
    by (simp add: demo_service_def)
  ultimately show ?thesis
    using chat_served_by_permitted_row [of demo_service background "''token''" demo_request 0]
    by (force simp: served_def demo_request_def row_def)
qed

lemma loop_deadline: "loop_facts s c app req mps n tried res ts \<Longrightarrow> CComplete now c' mp \<in> set ts \<Longrightarrow>
    c' = with_timeout c now (PerTryDeadline (cfg s))"
  unfolding loop_facts_def by blast

text \<open>C25: Each attempt runs under a context that expires no later than its own per-try deadline,
  no later than the request's total deadline counted from the slot, and no later than the
  caller's own deadline.\<close>

theorem chat_attempt_deadline:
  assumes "CComplete now c' mp \<in> set (calls s c k req w)" and "apps s c k w = (Some app, w1)"
  shows "\<exists>t0 d. CAcquire t0 (AppName app) True \<in> set (calls s c k req w) \<and> ctx_deadline c' = Some d \<and>
     d \<le> now + PerTryDeadline (cfg s) \<and> d \<le> t0 + total_deadline s app \<and>
     (case ctx_deadline c of None \<Rightarrow> True | Some p \<Rightarrow> d \<le> p)"
proof -
  obtain res w' t' where t: "Chat (traced s) c k req (w, []) = (res, (w', t'))"
    by (metis prod_cases3)
  have no: "CComplete now c' mp \<notin> set ts" if "attempts_of ts = []" for ts
    using that by (auto simp: attempts_of_def)
  from t show ?thesis
  proof (cases rule: Chat_traced)
    case (admitted app' w1' ts us vs)
    with assms(2) have app: "app' = app" by simp
    have "CComplete now c' mp \<notin> set ts" "CComplete now c' mp \<notin> set us"
      using admitted(4,5) no by (auto simp: stage_def)
    with t admitted assms(1) have "CComplete now c' mp \<in> set vs" by (auto simp: calls_def)
    with admitted(6) app obtain t0 xs where
      vs: "vs = CAcquire t0 (AppName app) True # xs @ [CRelease (AppName app)]" and
      "loop_facts s (with_timeout c t0 (total_deadline s app)) app req (plan s app req) 0 [] res xs"
      unfolding slot_facts_def by auto
    with \<open>CComplete now c' mp \<in> set vs\<close> have
      "c' = with_timeout (with_timeout c t0 (total_deadline s app)) now (PerTryDeadline (cfg s))"
      by (auto dest!: loop_deadline simp: vs)
    with t admitted vs show ?thesis
      by (auto simp: calls_def with_timeout_def min_def split: option.splits)
  qed (use t assms(1) no in \<open>auto simp: calls_def stage_def\<close>)
qed

theorem chat_attempt_deadline_witness:
  "\<exists>t0 d. CAcquire t0 ''rag'' True \<in> set (calls demo_service background ''token'' demo_request 0) \<and>
     d \<le> 10 + PerTryDeadline (cfg demo_service) \<and> d \<le> t0 + total_deadline demo_service demo_app \<and>
     d = 30"
proof -
  have "CComplete 10 \<lparr>cancelled_at = None, ctx_deadline = Some 30\<rparr> (row ''opus'' ''anthropic'')
      \<in> set (calls demo_service background ''token'' demo_request 0)"
    by (simp add: demo_calls)
  moreover have "apps demo_service background ''token'' 0 = (Some demo_app, 0)"
    by (simp add: demo_service_def)
  ultimately show ?thesis
    by (drule_tac chat_attempt_deadline) (auto simp: demo_app_def)
qed

definition core_error :: "go_error \<Rightarrow> bool" where
  "core_error err \<longleftrightarrow>
     (case err of
        ErrGateway e \<Rightarrow> (case Code e of CodeOther _ \<Rightarrow> False | _ \<Rightarrow> True)
      | _ \<Rightarrow> err = ErrWrap ''caller disconnected'' (ErrCtx Canceled))"

lemma core_error_simps [simp]:
  "core_error (ErrGateway e) \<longleftrightarrow> (case Code e of CodeOther _ \<Rightarrow> False | _ \<Rightarrow> True)"
  "core_error (ErrWrap p x) \<longleftrightarrow> p = ''caller disconnected'' \<and> x = ErrCtx Canceled"
  by (simp_all add: core_error_def)

lemma loop_error:
  "attempt_loop s cc c app req con mps n tried w = (Inl err, w1) \<Longrightarrow> core_error err"
  by (induction mps arbitrary: n tried w)
    (auto simp: exhausted_def modelUnavailable_def split: if_splits sum.splits prod.splits)

lemma with_slot_error: "with_slot s c app req w = (Inl err, w1) \<Longrightarrow> core_error err"
  by (auto simp: with_slot_def route_def Let_def modelUnavailable_def dest: loop_error
      split: prod.splits SlotGrant.splits if_splits)

lemma meter_error:
  "meterRate s c app w = (Some e, w1) \<Longrightarrow> Code e = CodeQuotaExceeded"
  "meterTokens s c app w = (Some e, w1) \<Longrightarrow> Code e = CodeQuotaExceeded"
  by (auto simp: meterRate_def meterTokens_def split: sum.splits prod.splits if_splits)

lemma chat_error_facts: "Chat s c k req w = (Inl err, w1) \<Longrightarrow> core_error err"
  by (auto simp: Chat_def split: option.splits prod.splits
      dest: Validate_Some meter_error with_slot_error)

text \<open>A caller the directory knows is never told that it is unknown.\<close>

lemma known_loop:
  "attempt_loop s cc c app req con mps n tried w = (Inl (ErrGateway e), w1) \<Longrightarrow> Code e \<noteq> CodeUnauthorized"
  by (induction mps arbitrary: n tried w)
    (auto simp: exhausted_def modelUnavailable_def split: if_splits sum.splits prod.splits)

lemma known_errors:
  assumes "apps s c k w = (Some app, w1)" and "Chat s c k req w = (Inl (ErrGateway e), w2)"
  shows "Code e \<noteq> CodeUnauthorized"
proof -
  have "Code e \<noteq> CodeUnauthorized" if "with_slot s c app req v = (Inl (ErrGateway e), w2)" for v
    using that by (auto simp: with_slot_def route_def Let_def modelUnavailable_def dest: known_loop
      split: prod.splits SlotGrant.splits if_splits)
  with assms show ?thesis
    by (auto simp: Chat_def split: option.splits prod.splits dest: Validate_Some meter_error)
qed

text \<open>An error of \<open>Chat\<close> is a gateway error with one of the seven codes of the contract, or the
  caller's own disconnection: nothing else reaches the edge.\<close>

theorem chat_error_contract:
  "case fst (Chat s c k req w) of Inl err \<Rightarrow> core_error err | Inr _ \<Rightarrow> True"
  using chat_error_facts [of s c k req w] by (cases "Chat s c k req w") (auto split: sum.split)

text \<open>
  Fail-open. \<open>fail_open\<close> is the meter that admits whatever the limiter could not answer and
  records that it did.
\<close>

definition fail_open :: "'w UsageRecorder \<Rightarrow> 'w RateCheck \<Rightarrow> 'w RateCheck" where
  "fail_open rec check c a w =
     (case check c a w of
        (Inl _, w1) \<Rightarrow> (Inr \<lparr>Allowed = True, RDRetryAfter = 0, RDQuota = None\<rparr>,
                        rec (RecordRateLimiterFailOpen a) w1)
      | (Inr d, w1) \<Rightarrow> (Inr d, w1))"

lemma loop_ignores_meters:
  "attempt_loop (s\<lparr>limits := x, tokens_Check := y\<rparr>) cc c app req con mps n tried w =
   attempt_loop s cc c app req con mps n tried w"
  by (induction mps arbitrary: n tried w)
    (simp_all add: exhausted_def tryModelProvider_def settle_def split: sum.splits prod.splits)

lemma slot_ignores_meters:
  "with_slot (s\<lparr>limits := x, tokens_Check := y\<rparr>) c app req w = with_slot s c app req w"
  by (simp add: with_slot_def route_def loop_ignores_meters Let_def
      split: SlotGrant.splits prod.splits)

lemma meter_open:
  "meterRate (s\<lparr>limits := fail_open (usage s) (limits s), tokens_Check := y\<rparr>) c app w = meterRate s c app w"
  "meterTokens (s\<lparr>limits := x, tokens_Check := fail_open (usage s) (tokens_Check s)\<rparr>) c app w =
     meterTokens s c app w"
  by (simp_all add: meterRate_def meterTokens_def fail_open_def split: sum.splits prod.splits)

text \<open>C26: The limiters fail open: a request through limiters that may err is the same request, call
  for call and result for result, through limiters that answer every failed check with an
  admission recorded as a fail-open. No limiter error is ever what refuses a caller.\<close>

theorem chat_fails_open:
  "Chat s c k req w =
     Chat (s\<lparr>limits := fail_open (usage s) (limits s),
             tokens_Check := fail_open (usage s) (tokens_Check s)\<rparr>) c k req w"
  by (simp add: Chat_def meter_open slot_ignores_meters cong: option.case_cong prod.case_cong)

lemma New_accepts:
  "(\<exists>s. New clk c d = Inr s) \<longleftrightarrow>
     Apps d \<noteq> None \<and> RateLimiter d \<noteq> None \<and> Tokens d \<noteq> None \<and> Slots d \<noteq> None \<and>
     ProviderPort d \<noteq> None \<and> 0 < PerTryDeadline c \<and> PerTryDeadline c < TotalDeadline c"
  by (auto simp: New_def split: option.splits if_splits)

lemma New_cfg: "New clk c d = Inr s \<Longrightarrow> cfg s = c \<and> 0 < PerTryDeadline c \<and> PerTryDeadline c < TotalDeadline c"
  by (auto simp: New_def split: option.splits if_splits)

end
