(* ===== verification/Tasks.thy ===== *)
theory Tasks
  imports Ports ChatProps
begin

text \<open>
  \<open>Chat\<close> as it runs beside other requests: one step per call of a port, so that anything may happen
  between two calls. A \<open>task\<close> is where a request is and what it has in its hands; \<open>advance\<close> is its
  next step. Run alone it is \<^const>\<open>Chat\<close>, and it is done in at most sixteen steps.
\<close>

section \<open>One request, step by step\<close>

text \<open>
  \<open>rel\<close> is the closure of the slot it holds, \<open>cc\<close> the caller's context and \<open>c\<close> the current one;
  \<open>Judging\<close> has just come back from a provider called at \<open>start\<close>; \<open>Recording\<close> has one fact to report
  before it goes on; \<open>Finished\<close> keeps the caller's app, if there was one, and the answer.
\<close>

datatype 'w task =
  Calling ctx string ChatRequest
| Metering ctx App ChatRequest
| Budgeting ctx App ChatRequest
| Claiming ctx App ChatRequest
| Planning "'w \<Rightarrow> 'w" ctx App ChatRequest
| Trying "'w \<Rightarrow> 'w" ctx ctx App ChatRequest bool "ModelProvider list" nat "string list"
| Judging "'w \<Rightarrow> 'w" ctx ctx App ChatRequest bool ModelProvider int "ModelProvider list" nat "string list"
    "go_error + Completion"
| Settling "'w \<Rightarrow> 'w" ctx App ChatResult
| Releasing "'w \<Rightarrow> 'w" App "go_error + ChatResult"
| Recording UsageEvent "'w task"
| Finished "App option" "go_error + ChatResult"

definition refused :: "App \<Rightarrow> ErrorCode \<Rightarrow> go_error \<Rightarrow> 'w task" where
  "refused app code err = Recording (RecordRejection (AppName app) code) (Finished (Some app) (Inl err))"

definition stopped :: "('w \<Rightarrow> 'w) \<Rightarrow> App \<Rightarrow> ErrorCode \<Rightarrow> go_error \<Rightarrow> 'w task" where
  "stopped rel app code err = Recording (RecordRejection (AppName app) code) (Releasing rel app (Inl err))"

text \<open>The two meters differ in the port, the message and where the request goes next.\<close>

definition metered :: "App \<Rightarrow> string \<Rightarrow> 'w task \<Rightarrow> go_error + RateDecision \<Rightarrow> 'w task" where
  "metered app what further r =
     (case r of
        Inl _ \<Rightarrow> Recording (RecordRateLimiterFailOpen (AppName app)) further
      | Inr d \<Rightarrow>
          if \<not> Allowed d then
            refused app CodeQuotaExceeded (ErrGateway ((mk_error CodeQuotaExceeded (AppName app @ what))
              \<lparr>RetryAfter := RDRetryAfter d, Quota := RDQuota d\<rparr>))
          else further)"

definition gave_up :: "('w \<Rightarrow> 'w) \<Rightarrow> App \<Rightarrow> ChatRequest \<Rightarrow> bool \<Rightarrow> nat \<Rightarrow> 'w task" where
  "gave_up rel app req constrained attempts =
     (if attempts < maxAttempts \<and> constrained then
        stopped rel app CodeModelUnavailable (ErrGateway (modelUnavailable (Model req)))
      else stopped rel app CodeUpstreamFailed
        (ErrGateway (mk_error CodeUpstreamFailed ''all eligible provider attempts failed'')))"

text \<open>A row whose provider was tried is skipped without a call.\<close>

definition untried :: "string list \<Rightarrow> ModelProvider list \<Rightarrow> ModelProvider list" where
  "untried tried mps = dropWhile (\<lambda>mp. Provider mp \<in> set tried) mps"

definition planned :: "'w Service \<Rightarrow> ('w \<Rightarrow> 'w) \<Rightarrow> ctx \<Rightarrow> App \<Rightarrow> ChatRequest \<Rightarrow> int \<Rightarrow> 'w task" where
  "planned s rel cc app req t =
     (let (eligible, constrained) =
            buildModelsProvidersFallback (Model req) (Policy app) (ModelProviders (cfg s)) (FailoverOrder (cfg s));
          total = (if AppTotalDeadline app > 0 then AppTotalDeadline app else TotalDeadline (cfg s))
      in if eligible = [] then
           stopped rel app CodeModelUnavailable (ErrGateway (modelUnavailable (Model req)))
         else Trying rel cc (with_timeout cc t total) app req constrained eligible 0 [])"

definition judged ::
  "('w \<Rightarrow> 'w) \<Rightarrow> ctx \<Rightarrow> ctx \<Rightarrow> App \<Rightarrow> ChatRequest \<Rightarrow> bool \<Rightarrow> ModelProvider \<Rightarrow> int \<Rightarrow> ModelProvider list
     \<Rightarrow> nat \<Rightarrow> string list \<Rightarrow> go_error + Completion \<Rightarrow> int \<Rightarrow> 'w task" where
  "judged rel cc c app req constrained mp start mps attempts tried r t =
     (case r of
        Inr completion \<Rightarrow>
          Recording (RecordCompletion (AppName app) mp (CUsage completion) (t - start) (attempts > 1))
            (Settling rel c app (served req mp completion))
      | Inl err \<Rightarrow>
          if ctx_err_at cc t = Some Canceled then
            Recording (RecordClientDisconnect (AppName app) mp (unobservedTokens err req))
              (Releasing rel app (Inl (ErrWrap ''caller disconnected'' (ErrCtx Canceled))))
          else if ctx_err_at c t \<noteq> None then
            stopped rel app CodeGatewayTimeout
              (ErrGateway (mk_error CodeGatewayTimeout ''total request deadline exhausted''))
          else if billsDespiteFailure err then
            Recording (RecordDoubleSpendRisk (AppName app) mp (unobservedTokens err req))
              (Trying rel cc c app req constrained mps attempts tried)
          else Trying rel cc c app req constrained mps attempts tried)"

fun advance :: "'w Service \<Rightarrow> 'w task \<Rightarrow> 'w \<Rightarrow> 'w task \<times> 'w" where
  "advance s (Calling c k req) w =
     (case apps s c k w of
        (None, w) \<Rightarrow> (Finished None (Inl (ErrGateway (mk_error CodeUnauthorized ''missing or invalid API key''))), w)
      | (Some app, w) \<Rightarrow>
          (case Validate req of
             Some err \<Rightarrow> (refused app CodeInvalidRequest err, w)
           | None \<Rightarrow> (Metering c app req, w)))"
| "advance s (Metering c app req) w =
     apfst (metered app '' is over its rate quota'' (Budgeting c app req)) (limits s c (AppName app) w)"
| "advance s (Budgeting c app req) w =
     apfst (metered app '' is over its token budget'' (Claiming c app req)) (tokens_Check s c (AppName app) w)"
| "advance s (Claiming c app req) w =
     (case slots s (AppName app) w of
        (Refused cap, w) \<Rightarrow>
          (refused app CodeConcurrencyCeiling (ErrGateway ((mk_error CodeConcurrencyCeiling
              (AppName app @ '' is at its in-flight ceiling ('' @ itoa cap @ '')''))
              \<lparr>RetryAfter := slotRetryAfter, MaxInFlight := cap\<rparr>)), w)
      | (Granted rel, w) \<Rightarrow> (Planning rel c app req, w))"
| "advance s (Planning rel c app req) w = (planned s rel c app req (clock s w), w)"
| "advance s (Trying rel cc c app req constrained mps attempts tried) w =
     (if attempts = maxAttempts then (gave_up rel app req constrained attempts, w)
      else case untried tried mps of
        [] \<Rightarrow> (gave_up rel app req constrained attempts, w)
      | mp # rest \<Rightarrow>
          apfst (Judging rel cc c app req constrained mp (clock s w) rest (attempts + 1) (Provider mp # tried))
            (tryModelProvider s c mp req w))"
| "advance s (Judging rel cc c app req constrained mp start mps attempts tried r) w =
     (judged rel cc c app req constrained mp start mps attempts tried r (clock s w), w)"
| "advance s (Settling rel c app res) w = (Releasing rel app (Inr res), settle s c (AppName app) (RUsage res) w)"
| "advance s (Releasing rel app r) w = (Finished (Some app) r, rel w)"
| "advance s (Recording e t) w = (t, usage s e w)"
| "advance s (Finished a r) w = (Finished a r, w)"

section \<open>Alone\<close>

text \<open>What is left of \<open>Chat\<close> for a request that nobody else disturbs.\<close>

fun remaining :: "'w Service \<Rightarrow> 'w task \<Rightarrow> 'w \<Rightarrow> (go_error + ChatResult) \<times> 'w" where
  "remaining s (Calling c k req) w = Chat s c k req w"
| "remaining s (Metering c app req) w =
     (case meterRate s c app w of
        (Some e, w) \<Rightarrow> (Inl (ErrGateway e), w)
      | (None, w) \<Rightarrow>
          (case meterTokens s c app w of
             (Some e, w) \<Rightarrow> (Inl (ErrGateway e), w)
           | (None, w) \<Rightarrow> with_slot s c app req w))"
| "remaining s (Budgeting c app req) w =
     (case meterTokens s c app w of
        (Some e, w) \<Rightarrow> (Inl (ErrGateway e), w)
      | (None, w) \<Rightarrow> with_slot s c app req w)"
| "remaining s (Claiming c app req) w = with_slot s c app req w"
| "remaining s (Planning rel c app req) w = apsnd rel (route s c app req w)"
| "remaining s (Trying rel cc c app req constrained mps attempts tried) w =
     apsnd rel (attempt_loop s cc c app req constrained mps attempts tried w)"
| "remaining s (Judging rel cc c app req constrained mp start mps attempts tried r) w =
     (case r of
        Inr completion \<Rightarrow>
          (Inr (served req mp completion),
           rel (settle s c (AppName app) (CUsage completion)
             (usage s (RecordCompletion (AppName app) mp (CUsage completion) (clock s w - start) (attempts > 1)) w)))
      | Inl err \<Rightarrow>
          if ctx_err_at cc (clock s w) = Some Canceled then
            (Inl (ErrWrap ''caller disconnected'' (ErrCtx Canceled)),
             rel (usage s (RecordClientDisconnect (AppName app) mp (unobservedTokens err req)) w))
          else if ctx_err_at c (clock s w) \<noteq> None then
            (Inl (ErrGateway (mk_error CodeGatewayTimeout ''total request deadline exhausted'')),
             rel (usage s (RecordRejection (AppName app) CodeGatewayTimeout) w))
          else
            apsnd rel (attempt_loop s cc c app req constrained mps attempts tried
              (if billsDespiteFailure err then
                 usage s (RecordDoubleSpendRisk (AppName app) mp (unobservedTokens err req)) w
               else w)))"
| "remaining s (Settling rel c app res) w = (Inr res, rel (settle s c (AppName app) (RUsage res) w))"
| "remaining s (Releasing rel app r) w = (r, rel w)"
| "remaining s (Recording e t) w = remaining s t (usage s e w)"
| "remaining s (Finished a r) w = (r, w)"

lemma stopped_remaining [simp]:
  "remaining s (refused app code err) w = (Inl err, usage s (RecordRejection (AppName app) code) w)"
  "remaining s (stopped rel app code err) w = (Inl err, rel (usage s (RecordRejection (AppName app) code) w))"
  by (simp_all add: refused_def stopped_def)

lemma gave_up_remaining [simp]:
  "remaining s (gave_up rel app req constrained n) w = apsnd rel (exhausted s app req constrained n w)"
  by (simp add: gave_up_def exhausted_def)

lemma loop_untried:
  "attempt_loop s cc c app req constrained mps n tried w =
     (if n = maxAttempts then exhausted s app req constrained n w
      else case untried tried mps of
        [] \<Rightarrow> exhausted s app req constrained n w
      | mp # rest \<Rightarrow> attempt_loop s cc c app req constrained (mp # rest) n tried w)"
  by (induction mps) (auto simp: untried_def)

lemma untried_head: "untried tried mps = mp # rest \<Longrightarrow> Provider mp \<notin> set tried"
  by (metis dropWhile_eq_Cons_conv untried_def)

lemma remaining_step: "remaining s (fst (advance s t w)) (snd (advance s t w)) = remaining s t w"
proof (cases t)
  case (Calling c k req)
  then show ?thesis by (simp add: Chat_def split: prod.split option.split)
next
  case (Metering c app req)
  then show ?thesis by (simp add: metered_def meterRate_def split: prod.split sum.split)
next
  case (Budgeting c app req)
  then show ?thesis by (simp add: metered_def meterTokens_def split: prod.split sum.split)
next
  case (Claiming c app req)
  then show ?thesis by (simp add: with_slot_def split: prod.split SlotGrant.split)
next
  case (Planning rel c app req)
  then show ?thesis by (simp add: planned_def route_def Let_def split: prod.split)
next
  case (Trying rel cc c app req constrained mps attempts tried)
  then show ?thesis
    using loop_untried [of s cc c app req constrained mps attempts tried w] untried_head [of tried mps]
    by (auto split: list.split prod.split sum.split)
next
  case (Judging rel cc c app req constrained mp start mps attempts tried r)
  then show ?thesis by (cases r) (simp_all add: judged_def served_def)
qed simp_all

section \<open>Steps are bounded\<close>

fun finished :: "'w task \<Rightarrow> bool" where
  "finished (Finished a r) = True"
| "finished _ = False"

text \<open>The steps a request still has before it at most: three for each attempt it may make, and what
  comes before and after.\<close>

fun steps_left :: "'w task \<Rightarrow> nat" where
  "steps_left (Calling c k req) = 16"
| "steps_left (Metering c app req) = 15"
| "steps_left (Budgeting c app req) = 13"
| "steps_left (Claiming c app req) = 11"
| "steps_left (Planning rel c app req) = 10"
| "steps_left (Trying rel cc c app req constrained mps attempts tried) = 9 - 3 * attempts"
| "steps_left (Judging rel cc c app req constrained mp start mps attempts tried r) = 11 - 3 * attempts"
| "steps_left (Settling rel c app res) = 2"
| "steps_left (Releasing rel app r) = 1"
| "steps_left (Recording e t) = Suc (steps_left t)"
| "steps_left (Finished a r) = 0"

text \<open>No request is ever in a third attempt.\<close>

fun within_attempts :: "'w task \<Rightarrow> bool" where
  "within_attempts (Trying rel cc c app req constrained mps attempts tried) = (attempts \<le> maxAttempts)"
| "within_attempts (Judging rel cc c app req constrained mp start mps attempts tried r) =
     (1 \<le> attempts \<and> attempts \<le> maxAttempts)"
| "within_attempts (Recording e t) = within_attempts t"
| "within_attempts _ = True"

lemmas task_outcomes = refused_def stopped_def metered_def gave_up_def planned_def judged_def

lemma advance_progress:
  "within_attempts t \<Longrightarrow> \<not> finished t \<Longrightarrow>
    within_attempts (fst (advance s t w)) \<and> steps_left (fst (advance s t w)) < steps_left t"
  by (cases t) (auto simp: task_outcomes maxAttempts_def Let_def
      split: prod.split option.split sum.split SlotGrant.split list.split)

lemma steps_left_0: "within_attempts t \<Longrightarrow> steps_left t = 0 \<longleftrightarrow> finished t"
  by (cases t) (auto simp: maxAttempts_def)

lemma advance_finished: "finished t \<Longrightarrow> advance s t w = (t, w)"
  by (cases t) simp_all

text \<open>A request on its own.\<close>

definition alone :: "'w Service \<Rightarrow> nat \<Rightarrow> 'w task \<times> 'w \<Rightarrow> 'w task \<times> 'w" where
  "alone s n = (\<lambda>(t, w). advance s t w) ^^ n"

lemma alone_simps [simp]: "alone s 0 x = x" "alone s (Suc n) (t, w) = alone s n (advance s t w)"
  by (simp_all add: alone_def funpow_Suc_right del: funpow.simps(2))

lemma alone_ends:
  "within_attempts t \<Longrightarrow> steps_left t \<le> n \<Longrightarrow>
    (case alone s n (t, w) of (t', w') \<Rightarrow> finished t' \<and> remaining s t' w' = remaining s t w)"
proof (induction n arbitrary: t w)
  case 0
  with steps_left_0 [of t] show ?case by simp
next
  case (Suc n)
  obtain t1 w1 where a: "advance s t w = (t1, w1)" by fastforce
  have "within_attempts t1 \<and> steps_left t1 \<le> n"
    using advance_progress [OF Suc.prems(1), of s w] advance_finished [of t s w] steps_left_0 [OF Suc.prems(1)]
      Suc.prems a by (cases "finished t") auto
  with Suc.IH [of t1 w1] remaining_step [of s t w] a show ?case by (simp split: prod.splits)
qed

text \<open>C5: The steps are \<open>Chat\<close>. Sixteen steps of a request that runs alone finish it with the answer of
  \<open>Chat\<close> in the world \<open>Chat\<close> leaves, for every service, request and state of the world.\<close>

theorem steps_refine_chat:
  "case alone s 16 (Calling c k req, w) of (t, w') \<Rightarrow>
     (\<exists>a. t = Finished a (fst (Chat s c k req w))) \<and> w' = snd (Chat s c k req w)"
proof -
  obtain t w' where a: "alone s 16 (Calling c k req, w) = (t, w')" by fastforce
  with alone_ends [of "Calling c k req" 16 s w] have "finished t" "remaining s t w' = Chat s c k req w"
    by simp_all
  with a show ?thesis by (cases t; cases "Chat s c k req w") auto
qed

section \<open>Side by side\<close>

text \<open>
  The requests of a server, each with the number of its steps so far, over one world. A request may
  arrive at any time, any of them may take the next step, and anything else in the process may
  change the world as far as \<open>env\<close> allows it.
\<close>

type_synonym 'w server = "(nat \<times> 'w task) multiset \<times> 'w"

inductive side_step :: "'w Service \<Rightarrow> ('w \<Rightarrow> 'w \<Rightarrow> bool) \<Rightarrow> 'w server \<Rightarrow> 'w server \<Rightarrow> bool"
  for s :: "'w Service" and env :: "'w \<Rightarrow> 'w \<Rightarrow> bool" where
  arrives: "side_step s env (ts, w) (add_mset (0, Calling c k req) ts, w)"
| moves: "\<not> finished t \<Longrightarrow> advance s t w = (t', w') \<Longrightarrow>
    side_step s env (add_mset (n, t) ts, w) (add_mset (Suc n, t') ts, w')"
| outside: "env w w' \<Longrightarrow> side_step s env (ts, w) (ts, w')"

inductive_cases side_stepE: "side_step s env x y"

inductive serves :: "'w Service \<Rightarrow> ('w \<Rightarrow> 'w \<Rightarrow> bool) \<Rightarrow> 'w server \<Rightarrow> 'w server \<Rightarrow> bool" for s env x where
  start: "serves s env x x"
| more: "serves s env x y \<Longrightarrow> side_step s env y z \<Longrightarrow> serves s env x z"

text \<open>An invariant of the world and of every task in it.\<close>

lemma serves_inv:
  assumes "serves s env (ts0, w0) (ts, w)" and "I ts0 w0"
    and "\<And>ts w c k req. I ts w \<Longrightarrow> I (add_mset (0, Calling c k req) ts) w"
    and "\<And>ts w n t t' w'. I (add_mset (n, t) ts) w \<Longrightarrow> \<not> finished t \<Longrightarrow> advance s t w = (t', w') \<Longrightarrow>
      I (add_mset (Suc n, t') ts) w'"
    and "\<And>ts w w'. I ts w \<Longrightarrow> env w w' \<Longrightarrow> I ts w'"
  shows "I ts w"
proof -
  have "serves s env x y \<Longrightarrow> I (fst x) (snd x) \<Longrightarrow> I (fst y) (snd y)" for x y
  proof (induction rule: serves.induct)
    case (more y z)
    then show ?case using assms(3-5) by (auto elim!: side_stepE)
  qed simp
  from this [OF assms(1)] assms(2) show ?thesis by simp
qed

text \<open>C23: No request waits for another. However the requests interleave with each other and with the rest
  of the process, a request that is not done can take its next step at once, and each is done
  after at most sixteen steps of its own.\<close>

theorem requests_end:
  assumes "serves s env ({#}, w0) (ts, w)" and "(n, t) \<in># ts"
  shows "n \<le> 16 \<and> (finished t \<or> n < 16 \<and>
    (\<exists>t' w'. side_step s env (ts, w) (add_mset (Suc n, t') (ts - {#(n, t)#}), w')))"
proof -
  let ?ok = "\<lambda>(n, t). within_attempts t \<and> n + steps_left t \<le> 16"
  have "\<forall>x \<in># ts. ?ok x"
  proof (rule serves_inv [OF assms(1), of "\<lambda>ts w. \<forall>x \<in># ts. ?ok x"])
    fix ts w n t t' w'
    assume "\<forall>x \<in># add_mset (n, t) ts. ?ok x" "\<not> finished t" "advance s t w = (t', w')"
    with advance_progress [of t s w] show "\<forall>x \<in># add_mset (Suc n, t') ts. ?ok x" by auto
  qed auto
  with assms(2) have t: "within_attempts t" "n + steps_left t \<le> 16" by auto
  show ?thesis
  proof (cases "finished t")
    case False
    obtain t' w' where "advance s t w = (t', w')" by fastforce
    from side_step.moves [OF False this, of env n "ts - {#(n, t)#}"] assms(2)
    have "side_step s env (ts, w) (add_mset (Suc n, t') (ts - {#(n, t)#}), w')" by simp
    moreover have "n < 16" using t steps_left_0 [OF t(1)] False by simp
    ultimately show ?thesis by auto
  qed (use t in simp)
qed

section \<open>Slots in hand\<close>

text \<open>The closure a task holds, and the app it was granted to.\<close>

fun in_hand :: "'w task \<Rightarrow> (('w \<Rightarrow> 'w) \<times> string) multiset" where
  "in_hand (Planning rel c app req) = {#(rel, AppName app)#}"
| "in_hand (Trying rel cc c app req constrained mps attempts tried) = {#(rel, AppName app)#}"
| "in_hand (Judging rel cc c app req constrained mp start mps attempts tried r) = {#(rel, AppName app)#}"
| "in_hand (Settling rel c app res) = {#(rel, AppName app)#}"
| "in_hand (Releasing rel app r) = {#(rel, AppName app)#}"
| "in_hand (Recording e t) = in_hand t"
| "in_hand _ = {#}"

definition hands :: "(nat \<times> 'w task) multiset \<Rightarrow> (('w \<Rightarrow> 'w) \<times> string) multiset" where
  "hands ts = \<Sum>\<^sub># (image_mset (\<lambda>x. in_hand (snd x)) ts)"

lemma hands_simps [simp]: "hands {#} = {#}" "hands (add_mset x ts) = in_hand (snd x) + hands ts"
  by (simp_all add: hands_def)

lemma apfst_eq: "apfst f x = (a, b) \<longleftrightarrow> (\<exists>r. x = (r, b) \<and> a = f r)"
  by (cases x) auto

text \<open>A step takes a slot only when claiming, gives it up only by releasing it, and keeps it otherwise.\<close>

lemma claiming_step:
  assumes "advance s (Claiming c app req) w = (t', w')"
  obtains n where "slots s (AppName app) w = (Refused n, w')" "in_hand t' = {#}"
    | rel where "slots s (AppName app) w = (Granted rel, w')" "in_hand t' = {#(rel, AppName app)#}"
  using assms by (auto simp: refused_def split: prod.splits SlotGrant.splits)

lemma outcome_hands [simp]:
  "in_hand (refused app code err) = {#}"
  "in_hand (stopped rel app code err) = {#(rel, AppName app)#}"
  "in_hand further = {#} \<Longrightarrow> in_hand (metered app what further r) = {#}"
  "in_hand (gave_up rel app req constrained n) = {#(rel, AppName app)#}"
  "in_hand (planned s rel cc app req k) = {#(rel, AppName app)#}"
  "in_hand (judged rel cc c app req constrained mp start mps n tried r' k) = {#(rel, AppName app)#}"
  by (auto simp: refused_def stopped_def metered_def gave_up_def planned_def judged_def Let_def
      split: sum.split prod.split)

lemma other_step:
  "advance s t w = (t', w') \<Longrightarrow> (\<And>c app req. t \<noteq> Claiming c app req) \<Longrightarrow> (\<And>rel app r. t \<noteq> Releasing rel app r) \<Longrightarrow>
    in_hand t' = in_hand t"
  by (cases t) (auto simp: apfst_eq split: prod.splits option.splits sum.splits list.splits if_splits)

text \<open>
  A slot limiter that many hold slots of at once: \<open>claims\<close> are the slots claimed and not yet given
  back, each with its app; \<open>opens\<close> says which of them a closure gives back, whatever else has
  happened to the limiter since.
\<close>

locale shared_slots = slot_client s state valid held
  for s :: "'w Service" and state :: "'w \<Rightarrow> 's" and valid :: "'s \<Rightarrow> bool" and held :: "'s \<Rightarrow> string \<Rightarrow> int" +
  fixes claims :: "'s \<Rightarrow> ('h \<times> string) multiset" and opens :: "('w \<Rightarrow> 'w) \<Rightarrow> 'h \<Rightarrow> bool"
  assumes claimed: "valid (state w) \<Longrightarrow> slots s a w = (Granted rel, w1) \<Longrightarrow>
      \<exists>h. opens rel h \<and> claims (state w1) = add_mset (h, a) (claims (state w))"
    and given_back: "valid (state w) \<Longrightarrow> opens rel h \<Longrightarrow> claims (state w) = add_mset (h, a) C \<Longrightarrow>
      valid (state (rel w)) \<and> claims (state (rel w)) = C"
    and counted: "valid st \<Longrightarrow> held st a = int (count (image_mset snd (claims st)) a)"
begin

text \<open>Every claim is in the hand of exactly one task.\<close>

definition matched :: "(nat \<times> 'w task) multiset \<Rightarrow> 'w \<Rightarrow> bool" where
  "matched ts w \<longleftrightarrow> valid (state w) \<and>
     rel_mset (\<lambda>x y. opens (fst x) (fst y) \<and> snd x = snd y) (hands ts) (claims (state w))"

lemma advance_frame:
  assumes "advance s t w = (t', w')" "\<And>c app req. t \<noteq> Claiming c app req" "\<And>rel app r. t \<noteq> Releasing rel app r"
  shows "state w' = state w"
  using assms apps_frame limits_frame check_frame settle_frame provider_frame usage_frame
  by (cases t) (auto simp: settle_def tryModelProvider_def apfst_eq
      split: prod.splits option.splits list.splits if_splits, (metis snd_conv)+)

lemma matched_step:
  assumes "matched (add_mset (n, t) ts) w" and "advance s t w = (t', w')"
  shows "matched (add_mset (n', t') ts) w'"
proof (cases t)
  case (Claiming c app req)
  with assms(1) have m: "matched ts w" by (simp add: matched_def)
  from assms(2) [unfolded Claiming] show ?thesis
  proof (cases rule: claiming_step)
    case (1 k)
    with m refused [OF 1(1)] show ?thesis by (simp add: matched_def)
  next
    case (2 rel)
    from m have v: "valid (state w)" by (simp add: matched_def)
    from claimed [OF v 2(1)] obtain h where "opens rel h"
      "claims (state w') = add_mset (h, AppName app) (claims (state w))" by blast
    with m 2 granted [OF v 2(1)] show ?thesis by (auto simp: matched_def intro: rel_mset_Plus)
  qed
next
  case (Releasing rel app r)
  with assms(1) have v: "valid (state w)"
    and "rel_mset (\<lambda>x y. opens (fst x) (fst y) \<and> snd x = snd y) (add_mset (rel, AppName app) (hands ts)) (claims (state w))"
    by (simp_all add: matched_def)
  from msed_rel_invL [OF this(2)] obtain h C where c: "claims (state w) = add_mset (h, AppName app) C" "opens rel h"
    and m: "rel_mset (\<lambda>x y. opens (fst x) (fst y) \<and> snd x = snd y) (hands ts) C" by auto
  with given_back [OF v c(2,1)] Releasing assms(2) show ?thesis by (auto simp: matched_def)
qed (use assms advance_frame [OF assms(2)] other_step [OF assms(2)] in \<open>auto simp: matched_def\<close>)

text \<open>What an app holds in the limiter is what its tasks hold.\<close>

lemma held_by_tasks:
  assumes "serves s env ({#}, w0) (ts, w)" and "valid (state w0)" "claims (state w0) = {#}"
    and env: "\<And>w w'. env w w' \<Longrightarrow> state w' = state w"
  shows "matched ts w" and "held (state w) a = int (count (image_mset snd (hands ts)) a)"
proof -
  show m: "matched ts w"
  proof (rule serves_inv [OF assms(1), of matched])
    show "matched {#} w0" using assms(2,3) by (simp add: matched_def)
    show "matched (add_mset (0, Calling c k req) ts) w" if "matched ts w" for ts w c k req
      using that by (simp add: matched_def)
    show "matched ts w'" if "matched ts w" "env w w'" for ts w w'
      using that env [of w w'] by (simp add: matched_def)
  qed (rule matched_step)
  have "rel_mset R X Y \<Longrightarrow> (\<And>x y. R x y \<Longrightarrow> snd x = snd y) \<Longrightarrow> image_mset snd X = image_mset snd Y"
    for R and X :: "(('w \<Rightarrow> 'w) \<times> string) multiset" and Y :: "('h \<times> string) multiset"
    by (induction rule: rel_mset_induct) auto
  from this [of _ "hands ts" "claims (state w)"] m have "image_mset snd (hands ts) = image_mset snd (claims (state w))"
    unfolding matched_def by blast
  with m counted [of "state w" a] show "held (state w) a = int (count (image_mset snd (hands ts)) a)"
    by (simp add: matched_def)
qed

end

section \<open>Accounts\<close>

text \<open>The answer a task is past accounting for.\<close>

fun accounted :: "'w task \<Rightarrow> (string \<times> (go_error + ChatResult)) multiset" where
  "accounted (Settling rel c app res) = {#(AppName app, Inr res)#}"
| "accounted (Releasing rel app r) = {#(AppName app, r)#}"
| "accounted (Finished (Some app) r) = {#(AppName app, r)#}"
| "accounted (Recording e t) = (if terminal_event e then {#} else accounted t)"
| "accounted _ = {#}"

definition accounts_of :: "(nat \<times> 'w task) multiset \<Rightarrow> (string \<times> (go_error + ChatResult)) multiset" where
  "accounts_of ts = \<Sum>\<^sub># (image_mset (\<lambda>x. accounted (snd x)) ts)"

lemma accounts_of_simps [simp]:
  "accounts_of {#} = {#}" "accounts_of (add_mset x ts) = accounted (snd x) + accounts_of ts"
  by (simp_all add: accounts_of_def)

lemma outcome_accounted [simp]:
  "accounted (refused app code err) = {#}" "accounted (stopped rel app code err) = {#}"
  "accounted further = {#} \<Longrightarrow> accounted (metered app what further r) = {#}"
  "accounted (gave_up rel app req constrained n) = {#}"
  "accounted (planned s rel cc app req k) = {#}"
  "accounted (judged rel cc c app req constrained mp start mps n tried r' k) = {#}"
  by (auto simp: refused_def stopped_def metered_def gave_up_def planned_def judged_def Let_def
      split: sum.split prod.split)

text \<open>What a task is about to record agrees with the answer it carries.\<close>

fun recording :: "'w task \<Rightarrow> bool" where
  "recording (Recording e t) = True"
| "recording _ = False"

fun agreeing :: "'w task \<Rightarrow> bool" where
  "agreeing (Recording e t) \<longleftrightarrow> \<not> recording t \<and>
     (if terminal_event e then (\<exists>a r. accounted t = {#(a, r)#} \<and> accounts a r e) else accounted t = {#})"
| "agreeing _ = True"

lemma gateway_accounts [simp]: "accounts a (Inl (ErrGateway e)) (RecordRejection a' code) \<longleftrightarrow> a = a' \<and> Code e = code"
  by auto

lemma outcome_agreeing [simp]:
  "Code e = code \<Longrightarrow> agreeing (refused app code (ErrGateway e))"
  "Code e = code \<Longrightarrow> agreeing (stopped rel app code (ErrGateway e))"
  "accounted further = {#} \<Longrightarrow> \<not> recording further \<Longrightarrow> agreeing further \<Longrightarrow> agreeing (metered app what further r)"
  "agreeing (gave_up rel app req constrained n)"
  "agreeing (planned s rel cc app req k)"
  "agreeing (judged rel cc c app req constrained mp start mps n tried r' k)"
  by (auto simp: refused_def stopped_def metered_def gave_up_def planned_def judged_def served_def
      modelUnavailable_def Let_def split: sum.split prod.split)

lemma agreeing_step:
  assumes "agreeing t" and "advance s t w = (t', w')"
  shows "agreeing t' \<and>
    (accounted t' = accounted t \<and> (\<forall>e t1. t = Recording e t1 \<longrightarrow> \<not> terminal_event e) \<or>
     (\<exists>a r e t1. t = Recording e t1 \<and> terminal_event e \<and> accounts a r e \<and>
        accounted t' = add_mset (a, r) (accounted t)))"
proof (cases t)
  case (Calling c k req)
  with assms show ?thesis by (auto dest!: Validate_Some split: prod.splits option.splits)
next
  case (Claiming c app req)
  with assms show ?thesis by (auto split: prod.splits SlotGrant.splits)
next
  case (Recording e t1)
  with assms show ?thesis by (cases t1) (auto split: if_splits)
qed (use assms in \<open>auto simp: apfst_eq split: prod.splits list.splits if_splits\<close>)

text \<open>A service that keeps books: only the usage port writes them, one fact at a time.\<close>

locale booked_service =
  fixes s :: "'w Service" and books :: "'w \<Rightarrow> 'b" and post :: "UsageEvent \<Rightarrow> 'b \<Rightarrow> 'b"
  assumes apps_books: "books (snd (apps s c k w)) = books w"
    and limits_books: "books (snd (limits s c a w)) = books w"
    and check_books: "books (snd (tokens_Check s c a w)) = books w"
    and settle_books: "books (snd (tokens_Settle s c a n w)) = books w"
    and slots_books: "books (snd (slots s a w)) = books w"
    and release_books: "slots s a w = (Granted rel, w1) \<Longrightarrow> books (rel w2) = books w2"
    and provider_books: "books (snd (provider s c mp req w)) = books w"
    and usage_books: "books (usage s e w) = post e (books w)"
begin

definition prepared :: "'w task \<Rightarrow> bool" where
  "prepared t \<longleftrightarrow> agreeing t \<and> (\<forall>x \<in># in_hand t. \<forall>w. books (fst x w) = books w)"

lemma step_books:
  assumes "prepared t" and "advance s t w = (t', w')"
  shows "books w' = (case t of Recording e t1 \<Rightarrow> post e (books w) | _ \<Rightarrow> books w)"
  using assms apps_books limits_books check_books settle_books slots_books provider_books usage_books
  by (cases t) (auto simp: prepared_def settle_def tryModelProvider_def apfst_eq
      split: prod.splits option.splits list.splits SlotGrant.splits if_splits, (metis snd_conv)+)

lemma step_prepared:
  assumes "prepared t" and "advance s t w = (t', w')"
  shows "prepared t'"
proof -
  have "\<forall>x \<in># in_hand t'. \<forall>w. books (fst x w) = books w"
  proof (cases "(\<exists>c app req. t = Claiming c app req) \<or> (\<exists>rel app r. t = Releasing rel app r)")
    case True
    then show ?thesis using assms(2) by (auto elim!: claiming_step dest: release_books)
  next
    case False
    with other_step [OF assms(2)] assms(1) show ?thesis by (auto simp: prepared_def)
  qed
  with agreeing_step [OF _ assms(2)] assms(1) show ?thesis by (simp add: prepared_def)
qed

text \<open>What is true of the accounts and the books at the start, and stays true when both gain an account,
  is true of them in every interleaving.\<close>

lemma books_kept:
  assumes "serves s env ({#}, w0) (ts, w)" and "J {#} (books w0)"
    and rest: "\<And>w w'. env w w' \<Longrightarrow> books w' = books w"
    and note_only: "\<And>A b e. J A b \<Longrightarrow> \<not> terminal_event e \<Longrightarrow> J A (post e b)"
    and account: "\<And>A b e a r. J A b \<Longrightarrow> terminal_event e \<Longrightarrow> accounts a r e \<Longrightarrow> J (add_mset (a, r) A) (post e b)"
  shows "J (accounts_of ts) (books w)"
proof -
  let ?I = "\<lambda>ts w. (\<forall>y \<in># ts. prepared (snd y)) \<and> J (accounts_of ts) (books w)"
  have "?I ts w"
  proof (rule serves_inv [OF assms(1), of ?I])
    show "?I {#} w0" using assms(2) by simp
    show "?I (add_mset (0, Calling c k req) ts) w" if "?I ts w" for ts w c k req
      using that by (simp add: prepared_def)
    show "?I ts w'" if "?I ts w" "env w w'" for ts w w'
      using that rest [OF that(2)] by simp
    fix ts w n t t' w'
    assume I: "?I (add_mset (n, t) ts) w" and a: "advance s t w = (t', w')"
    then have t: "prepared t" by simp
    have "J (accounts_of (add_mset (Suc n, t') ts)) (books w')"
      using agreeing_step [OF _ a] t I note_only account
      by (auto simp: step_books [OF t a] prepared_def split: task.split)
    with step_prepared [OF t a] I show "?I (add_mset (Suc n, t') ts) w'" by simp
  qed
  then show ?thesis by simp
qed

end

text \<open>The calls of the recorder, of which a traced service keeps the list.\<close>

definition noted :: "UsageEvent \<Rightarrow> UsageEvent list \<Rightarrow> UsageEvent list" where
  "noted e es = es @ (if terminal_event e then [e] else [])"

interpretation traced_books: booked_service "traced s" "\<lambda>x. terminals_of (snd x)" noted for s
  by unfold_locales (auto simp: traced_def noted_def split: prod.splits SlotGrant.splits)

text \<open>C6: Every request is accounted for once, also when many run side by side. At any moment of any
  interleaving, the accounting records so far and the answers of the known callers whose request is
  past its accounting are paired one to one, each record agreeing with its answer: a completion
  with the row and the tokens of the answer, a rejection with its code, a disconnect with a caller
  that left.\<close>

theorem accounts_pair_up:
  assumes "serves (traced s) (\<lambda>x y. snd y = snd x) ({#}, (w0, [])) (ts, (w, u))"
  shows "rel_mset (\<lambda>x e. accounts (fst x) (snd x) e) (accounts_of ts) (mset (terminals_of u))"
proof -
  let ?R = "\<lambda>x e. accounts (fst x) (snd x) e"
  have "rel_mset ?R (accounts_of ts) (mset (terminals_of (snd (w, u))))"
    by (rule traced_books.books_kept [OF assms, of "\<lambda>A es. rel_mset ?R A (mset es)"])
      (auto simp: noted_def intro!: rel_mset_Plus [where R = ?R])
  then show ?thesis by simp
qed

section \<open>An example\<close>

lemma serves_trans: "serves s env y z \<Longrightarrow> serves s env x y \<Longrightarrow> serves s env x z"
  by (induction rule: serves.induct) (auto intro: serves.more)

text \<open>Running a request to its end is one of the interleavings.\<close>

lemma alone_serves: "\<exists>m. serves s env (add_mset (k, t) ts, w) (add_mset (m, fst (alone s n (t, w))) ts, snd (alone s n (t, w)))"
proof (induction n arbitrary: k t w)
  case 0
  then show ?case by (auto intro: serves.start)
next
  case (Suc n)
  obtain t' w' where a: "advance s t w = (t', w')" by fastforce
  show ?case
  proof (cases "finished t")
    case True
    with Suc.IH [of k t w] advance_finished [OF True] show ?thesis by simp
  next
    case False
    from serves.more [OF serves.start side_step.moves [OF False a]]
    have "serves s env (add_mset (k, t) ts, w) (add_mset (Suc k, t') ts, w')" .
    moreover obtain m where "serves s env (add_mset (Suc k, t') ts, w')
        (add_mset (m, fst (alone s n (t', w'))) ts, snd (alone s n (t', w')))"
      using Suc.IH by blast
    ultimately show ?thesis using a by (auto intro: serves_trans)
  qed
qed

text \<open>The example of \<^theory_text>\<open>ChatProps\<close>: the first provider times out, the second answers.\<close>

lemma demo_alone: "case alone (traced demo_service) 16 (Calling background ''token'' demo_request, (0, [])) of (t, w) \<Rightarrow>
    t = Finished (Some demo_app) (Inr (served demo_request (row ''opus'' ''anthropic'') demo_completion)) \<and>
    terminals_of (snd w) = [RecordCompletion ''rag'' (row ''opus'' ''anthropic'') (CUsage demo_completion) 5 True]"
  by (simp add: eval_nat_numeral port_simps demo_defs chat_defs task_outcomes untried_def Let_def)

abbreviation demo_answer :: "(int \<times> call list) task" where
  "demo_answer \<equiv> Finished (Some demo_app) (Inr (served demo_request (row ''opus'' ''anthropic'') demo_completion))"

lemma demo_serves:
  obtains m w u where "serves (traced demo_service) (\<lambda>x y. snd y = snd x) ({#}, (0, [])) ({#(m, demo_answer)#}, (w, u))"
proof -
  let ?c = "Calling background ''token'' demo_request" and ?s = "traced demo_service"
    and ?env = "\<lambda>x y. snd y = snd (x :: int \<times> call list)"
  obtain t w u where a: "alone ?s 16 (?c, (0, [])) = (t, (w, u))" by (metis prod.collapse)
  obtain m where "serves ?s ?env ({#(0, ?c)#}, (0, [])) ({#(m, t)#}, (w, u))"
    using alone_serves [of ?s ?env 0 ?c "{#}" "(0, [])" 16] a by auto
  from serves_trans [OF this serves.more [OF serves.start side_step.arrives]] that demo_alone a
  show thesis by simp
qed

theorem requests_end_witness:
  "\<exists>n ts w. serves (traced demo_service) (\<lambda>x y. snd y = snd x) ({#}, (0, [])) (ts, w) \<and>
     (n, demo_answer) \<in># ts \<and> n \<le> 16"
proof -
  obtain m w u where run: "serves (traced demo_service) (\<lambda>x y. snd y = snd x) ({#}, (0, [])) ({#(m, demo_answer)#}, (w, u))"
    by (rule demo_serves)
  from requests_end [OF run, of m demo_answer] run show ?thesis by fastforce
qed

theorem accounts_pair_up_witness:
  "\<exists>ts w u. serves (traced demo_service) (\<lambda>x y. snd y = snd x) ({#}, (0, [])) (ts, (w, u)) \<and>
     size (accounts_of ts) = 1 \<and> size (mset (terminals_of u)) = 1"
proof -
  obtain m w u where run: "serves (traced demo_service) (\<lambda>x y. snd y = snd x) ({#}, (0, [])) ({#(m, demo_answer)#}, (w, u))"
    by (rule demo_serves)
  from rel_mset_size [OF accounts_pair_up [OF run]] run show ?thesis by fastforce
qed

end
