(* ===== verification/Json.thy ===== *)
theory Json
  imports GatewayDomain
begin

text \<open>
  What the wire formats use of \<open>encoding/json\<close>. A JSON text is a tree; the conversion between
  text and tree (\<open>parse\<close>, \<open>text\<close>) is a record the users take as a parameter, the conversion
  between trees and Go values is modelled here as the package documents it.

  A number is an integer literal or one with a fraction or an exponent, which is what decides
  whether Go decodes it into an \<open>int\<close>; rounding to the nearest double is not modelled. Strings are
  the bytes of their UTF-8. An object may repeat a key, and then decoding goes on where the earlier
  value left off: the last value of a string counts, two objects fill the same struct.
\<close>

datatype json =
  JNull
| JBool bool
| JInt int
| JFrac rat
| JStr string
| JArr "json list"
| JObj "(string \<times> json) list"

record codec =
  parse :: "string \<Rightarrow> json option"
  json_text :: "json \<Rightarrow> string"

text \<open>
  What a streaming \<open>Decoder\<close> finds in a text: a first value (what follows it is not read),
  nothing but white space, the beginning of a value, or no JSON.
\<close>

datatype found = Value json | Nothing | Incomplete | NoJson

section \<open>Decoding\<close>

fun all_some :: "'a option list \<Rightarrow> 'a list option" where
  "all_some [] = Some []"
| "all_some (x # xs) =
     (case x of None \<Rightarrow> None | Some a \<Rightarrow> (case all_some xs of None \<Rightarrow> None | Some as \<Rightarrow> Some (a # as)))"

text \<open>
  A location is decoded from the values found for it, in order: none when its field is absent,
  several when the object repeats the field's key. Each value is stored over what the values
  before it left, starting from the zero value; \<open>None\<close> is an \<open>UnmarshalTypeError\<close>, which is
  returned even when a later value fits.
\<close>

type_synonym 'a dec = "json list \<Rightarrow> 'a option"

fun dec_from :: "('a \<Rightarrow> json \<Rightarrow> 'a option) \<Rightarrow> 'a \<Rightarrow> 'a dec" where
  "dec_from store a [] = Some a"
| "dec_from store a (j # js) = (case store a j of None \<Rightarrow> None | Some b \<Rightarrow> dec_from store b js)"

text \<open>\<open>null\<close> leaves a string, a number and a truth value as they are, and clears a slice.\<close>

fun store_string :: "string \<Rightarrow> json \<Rightarrow> string option" where
  "store_string old JNull = Some old"
| "store_string old (JStr s) = Some s"
| "store_string old _ = None"

fun store_int :: "int \<Rightarrow> json \<Rightarrow> int option" where
  "store_int old JNull = Some old"
| "store_int old (JInt n) = (if in_i64 n then Some n else None)"
| "store_int old _ = None"

fun store_bool :: "bool \<Rightarrow> json \<Rightarrow> bool option" where
  "store_bool old JNull = Some old"
| "store_bool old (JBool b) = Some b"
| "store_bool old _ = None"

fun store_list :: "'a dec \<Rightarrow> 'a list \<Rightarrow> json \<Rightarrow> 'a list option" where
  "store_list d old JNull = Some []"
| "store_list d old (JArr xs) = all_some (map (\<lambda>x. d [x]) xs)"
| "store_list d old _ = None"

definition dec_string :: "string dec" where "dec_string = dec_from store_string ''''"
definition dec_int :: "int dec" where "dec_int = dec_from store_int 0"
definition dec_bool :: "bool dec" where "dec_bool = dec_from store_bool False"
definition dec_list :: "'a dec \<Rightarrow> 'a list dec" where "dec_list d = dec_from (store_list d) []"

text \<open>A \<open>json.RawMessage\<close>: the text of the last value, empty when there is none.\<close>

definition dec_raw :: "codec \<Rightarrow> string dec" where
  "dec_raw C = dec_from (\<lambda>_ j. Some (json_text C j)) ''''"

text \<open>
  A key names a field in any case. \<open>lower\<close> folds ASCII, which is all a header name needs; a JSON
  key is UTF-8 and folds as Unicode does, where two more characters fold to an ASCII letter: the
  long s (bytes C5 BF) and the Kelvin sign (E2 84 AA).
\<close>

definition lower_char :: "char \<Rightarrow> char" where
  "lower_char c = (let k = (of_char c :: nat) in if 65 \<le> k \<and> k \<le> 90 then char_of (k + 32) else c)"

definition lower :: "string \<Rightarrow> string" where
  "lower = map lower_char"

fun fold_key :: "string \<Rightarrow> string" where
  "fold_key (a # b # cs) =
     (if a = CHR 0xC5 \<and> b = CHR 0xBF then CHR ''s'' # fold_key cs
      else if a = CHR 0xE2 \<and> b = CHR 0x84 \<and> take 1 cs = [CHR 0xAA] then CHR ''k'' # fold_key (drop 1 cs)
      else lower_char a # fold_key (b # cs))"
| "fold_key cs = lower cs"

text \<open>The members of the objects a struct is decoded from; \<open>null\<close> has none.\<close>

fun members :: "json list \<Rightarrow> (string \<times> json) list option" where
  "members [] = Some []"
| "members (JNull # js) = members js"
| "members (JObj kvs # js) = map_option (\<lambda>rest. kvs @ rest) (members js)"
| "members (_ # js) = None"

text \<open>A field of a struct: decoded from every value whose key names it.\<close>

definition lookup_field :: "string \<Rightarrow> (string \<times> json) list \<Rightarrow> json list" where
  "lookup_field f kvs = map snd (filter (\<lambda>(k, v). fold_key k = fold_key f) kvs)"

definition fld :: "string \<Rightarrow> 'a dec \<Rightarrow> 'a dec" where
  "fld f d js = (case members js of None \<Rightarrow> None | Some kvs \<Rightarrow> d (lookup_field f kvs))"

definition raw_fld :: "codec \<Rightarrow> string \<Rightarrow> string dec" where
  "raw_fld C f = fld f (dec_raw C)"

section \<open>Encoding\<close>

text \<open>The fields of a struct in order; \<open>omitempty\<close> drops a field whose value is empty. A
  \<open>RawMessage\<close> that is not a JSON text makes \<open>Marshal\<close> fail.\<close>

definition always :: "string \<Rightarrow> json \<Rightarrow> (string \<times> json) list" where
  "always f j = [(f, j)]"

definition omit_string :: "string \<Rightarrow> string \<Rightarrow> (string \<times> json) list" where
  "omit_string f s = (if s = '''' then [] else [(f, JStr s)])"

definition omit_float :: "string \<Rightarrow> rat option \<Rightarrow> (string \<times> json) list" where
  "omit_float f q = (case q of None \<Rightarrow> [] | Some q \<Rightarrow> [(f, JFrac q)])"

definition omit_list :: "string \<Rightarrow> ('a \<Rightarrow> json) \<Rightarrow> 'a list \<Rightarrow> (string \<times> json) list" where
  "omit_list f e xs = (if xs = [] then [] else [(f, JArr (map e xs))])"

definition omit_option :: "string \<Rightarrow> ('a \<Rightarrow> json) \<Rightarrow> 'a option \<Rightarrow> (string \<times> json) list" where
  "omit_option f e x = (case x of None \<Rightarrow> [] | Some a \<Rightarrow> [(f, e a)])"

text \<open>A raw field is a tree the codec found in the text.\<close>

definition raw_value :: "codec \<Rightarrow> string \<Rightarrow> json" where
  "raw_value C s = (case parse C s of None \<Rightarrow> JNull | Some j \<Rightarrow> j)"

definition raw_ok :: "codec \<Rightarrow> string \<Rightarrow> bool" where
  "raw_ok C s \<longleftrightarrow> parse C s \<noteq> None"

definition omit_raw :: "codec \<Rightarrow> string \<Rightarrow> string \<Rightarrow> (string \<times> json) list" where
  "omit_raw C f s = (if s = '''' then [] else [(f, raw_value C s)])"

text \<open>\<open>Marshal\<close>: the text of the tree, or the error of the first raw message that is no JSON.\<close>

definition marshal :: "codec \<Rightarrow> string list \<Rightarrow> json \<Rightarrow> go_error + string" where
  "marshal C raws j =
     (if list_all (raw_ok C) raws then Inr (json_text C j)
      else Inl (ErrText ''json: error calling MarshalJSON for type json.RawMessage''))"

section \<open>Facts\<close>

lemma dec_from_inv:
  "dec_from store a js = Some b \<Longrightarrow> P a \<Longrightarrow> (\<And>x j y. P x \<Longrightarrow> store x j = Some y \<Longrightarrow> P y) \<Longrightarrow> P b"
  by (induction js arbitrary: a) (auto split: option.splits)

lemma store_int_range: "in_i64 x \<Longrightarrow> store_int x j = Some y \<Longrightarrow> in_i64 y"
  by (cases j) (auto split: if_splits)

lemma dec_int_range: "dec_int js = Some n \<Longrightarrow> in_i64 n"
  unfolding dec_int_def by (erule dec_from_inv) (auto simp: in_i64_def [of 0] intro: store_int_range)

lemma fld_int_range: "fld f dec_int js = Some n \<Longrightarrow> in_i64 n"
  by (auto simp: fld_def dest: dec_int_range split: option.splits)

lemma all_some_map_Some [simp]: "all_some (map (\<lambda>x. Some (f x)) xs) = Some (map f xs)"
  by (induction xs) auto

lemma all_some_id: "(\<And>x. x \<in> set xs \<Longrightarrow> g x = Some (f x)) \<Longrightarrow> all_some (map g xs) = Some (map f xs)"
  by (induction xs) auto

text \<open>A repeated key, in any case of its letters: the last string counts, two objects fill one
  struct, and \<open>null\<close> takes nothing back.\<close>

lemma repeated_keys:
  "fld ''sub'' dec_string [JObj [(''sub'', JStr ''a''), (''SUB'', JStr ''b''), (''sub'', JNull)]] = Some ''b''"
  "fld ''auth'' (fld ''token'' dec_string)
     [JObj [(''auth'', JObj [(''token'', JStr ''t'')]), (''Auth'', JObj [(''lease'', JInt 1)])]] = Some ''t''"
  "fld ''kid'' dec_string [JObj [([CHR 0xE2, CHR 0x84, CHR 0xAA, CHR ''i'', CHR ''d''], JStr ''k1'')]] = Some ''k1''"
  by code_simp+

end
