(* ===== verification/ApiWire.thy ===== *)
theory ApiWire
  imports Service Json
begin

text \<open>
  \<open>internal/api/openapi.go\<close> and \<open>utils.go\<close>: the wire schema of the edge. A request body is
  decoded strictly (unknown fields are errors), checked (\<open>reject\<close>) and translated to the
  domain; a result or an error is translated back.

  The decoder follows \<open>encoding/json\<close>: fields are set in the order of the document; a type
  mismatch or an unknown field is remembered (the first one wins) and decoding goes on; the
  error of a custom unmarshaler ends it at once.
\<close>

section \<open>The wire structs\<close>

record toolFunctionCall =
  fc_Name :: string
  fc_Arguments :: string

record toolCallWire =
  tcw_ID :: string
  tcw_Type :: string
  tcw_Function :: toolFunctionCall

record messageWire =
  mw_Role :: string
  mw_Content :: "string option"
  mw_ToolCalls :: "toolCallWire list"
  mw_ToolCallID :: string

record toolWire =
  tw_Type :: string
  tw_Name :: string
  tw_Description :: string
  tw_Parameters :: string

record toolChoiceWire =
  cw_Mode :: string
  cw_Function :: string

record chatRequestWire =
  rw_Model :: string
  rw_Messages :: "messageWire list"
  rw_MaxTokens :: int
  rw_Temperature :: "rat option"
  rw_TopP :: "rat option"
  rw_Stop :: "string list"
  rw_Tools :: "toolWire list"
  rw_ToolChoice :: "toolChoiceWire option"
  rw_N :: "int option"
  rw_Stream :: "bool option"

section \<open>Errors of the edge\<close>

record quotaWire =
  qw_Limit :: int
  qw_WindowSeconds :: int
  qw_Used :: int

record errorDetails =
  ed_Param :: string
  ed_RetryAfterSeconds :: int
  ed_Quota :: "quotaWire option"
  ed_MaxInFlight :: int
  ed_RequestedModel :: string

definition no_details :: errorDetails where
  "no_details = \<lparr>ed_Param = '''', ed_RetryAfterSeconds = 0, ed_Quota = None, ed_MaxInFlight = 0,
     ed_RequestedModel = ''''\<rparr>"

record apiError =
  ae_status :: int
  ae_code :: string
  ae_message :: string
  ae_details :: "errorDetails option"

definition codeUnsupportedParameter :: string where "codeUnsupportedParameter = ''unsupported_parameter''"
definition codePayloadTooLarge :: string where "codePayloadTooLarge = ''payload_too_large''"
definition codeUnsupportedMediaType :: string where "codeUnsupportedMediaType = ''unsupported_media_type''"
definition codeInternalError :: string where "codeInternalError = ''internal_error''"

definition unsupportedParameter :: "string \<Rightarrow> string \<Rightarrow> apiError" where
  "unsupportedParameter param message =
     \<lparr>ae_status = 400, ae_code = codeUnsupportedParameter, ae_message = message,
      ae_details = Some (no_details\<lparr>ed_Param := param\<rparr>)\<rparr>"

definition invalidRequest :: "string \<Rightarrow> apiError" where
  "invalidRequest message =
     \<lparr>ae_status = 400, ae_code = ''invalid_request'', ae_message = message, ae_details = None\<rparr>"

section \<open>The decoder\<close>

text \<open>
  The errors \<open>decodeError\<close> tells apart: a body over the limit, a \<open>wireError\<close>, an
  \<open>UnmarshalTypeError\<close> (field path and Go type), an unknown field, no body, anything else.
\<close>

datatype decode_err =
  DMaxBytes int | DWire string string | DType string string | DUnknown string | DEOF | DSyntax

text \<open>A value being filled in, with the error remembered so far; \<open>Inl\<close> ends the decoding.\<close>

type_synonym 'r filling = "decode_err + ('r \<times> decode_err option)"
type_synonym 'r setter = "string list \<Rightarrow> json \<Rightarrow> 'r \<Rightarrow> decode_err option \<Rightarrow> 'r filling"

definition remember :: "decode_err \<Rightarrow> 'r \<Rightarrow> decode_err option \<Rightarrow> 'r filling" where
  "remember e r saved = Inr (r, case saved of None \<Rightarrow> Some e | Some x \<Rightarrow> Some x)"

definition mismatch :: "string list \<Rightarrow> string \<Rightarrow> 'r \<Rightarrow> decode_err option \<Rightarrow> 'r filling" where
  "mismatch path ty r saved = remember (DType (join ''.'' path) ty) r saved"

definition set_string :: "(string \<Rightarrow> 'r \<Rightarrow> 'r) \<Rightarrow> 'r setter" where
  "set_string upd path j r saved =
     (case j of JNull \<Rightarrow> Inr (r, saved) | JStr s \<Rightarrow> Inr (upd s r, saved)
      | _ \<Rightarrow> mismatch path ''string'' r saved)"

definition set_string_ptr :: "(string option \<Rightarrow> 'r \<Rightarrow> 'r) \<Rightarrow> 'r setter" where
  "set_string_ptr upd path j r saved =
     (case j of JNull \<Rightarrow> Inr (upd None r, saved) | JStr s \<Rightarrow> Inr (upd (Some s) r, saved)
      | _ \<Rightarrow> mismatch path ''string'' (upd (Some '''') r) saved)"

definition set_int :: "(int \<Rightarrow> 'r \<Rightarrow> 'r) \<Rightarrow> 'r setter" where
  "set_int upd path j r saved =
     (case j of
        JNull \<Rightarrow> Inr (r, saved)
      | JInt n \<Rightarrow> if in_i64 n then Inr (upd n r, saved) else mismatch path ''int'' r saved
      | _ \<Rightarrow> mismatch path ''int'' r saved)"

definition set_int_ptr :: "(int option \<Rightarrow> 'r \<Rightarrow> 'r) \<Rightarrow> 'r setter" where
  "set_int_ptr upd path j r saved =
     (case j of
        JNull \<Rightarrow> Inr (upd None r, saved)
      | JInt n \<Rightarrow> if in_i64 n then Inr (upd (Some n) r, saved)
                  else mismatch path ''int'' (upd (Some 0) r) saved
      | _ \<Rightarrow> mismatch path ''int'' (upd (Some 0) r) saved)"

definition set_float_ptr :: "(rat option \<Rightarrow> 'r \<Rightarrow> 'r) \<Rightarrow> 'r setter" where
  "set_float_ptr upd path j r saved =
     (case j of
        JNull \<Rightarrow> Inr (upd None r, saved)
      | JInt n \<Rightarrow> Inr (upd (Some (of_int n)) r, saved)
      | JFrac q \<Rightarrow> Inr (upd (Some q) r, saved)
      | _ \<Rightarrow> mismatch path ''float64'' (upd (Some 0) r) saved)"

definition set_bool_ptr :: "(bool option \<Rightarrow> 'r \<Rightarrow> 'r) \<Rightarrow> 'r setter" where
  "set_bool_ptr upd path j r saved =
     (case j of JNull \<Rightarrow> Inr (upd None r, saved) | JBool b \<Rightarrow> Inr (upd (Some b) r, saved)
      | _ \<Rightarrow> mismatch path ''bool'' (upd (Some False) r) saved)"

text \<open>An object into a struct with the given fields; \<open>DisallowUnknownFields\<close> is on.\<close>

fun set_fields ::
  "(string \<times> 'r setter) list \<Rightarrow> string list \<Rightarrow> (string \<times> json) list \<Rightarrow> 'r \<Rightarrow> decode_err option \<Rightarrow> 'r filling" where
  "set_fields fs path [] r saved = Inr (r, saved)"
| "set_fields fs path ((k, v) # kvs) r saved =
     (case find (\<lambda>f. fold_key (fst f) = fold_key k) fs of
        None \<Rightarrow>
          (case remember (DUnknown k) r saved of
             Inl e \<Rightarrow> Inl e
           | Inr (r, saved) \<Rightarrow> set_fields fs path kvs r saved)
      | Some (name, setter) \<Rightarrow>
          (case setter (path @ [name]) v r saved of
             Inl e \<Rightarrow> Inl e
           | Inr (r, saved) \<Rightarrow> set_fields fs path kvs r saved))"

definition set_struct :: "string \<Rightarrow> (string \<times> 'r setter) list \<Rightarrow> 'r setter" where
  "set_struct ty fs path j r saved =
     (case j of
        JNull \<Rightarrow> Inr (r, saved)
      | JObj kvs \<Rightarrow> set_fields fs path kvs r saved
      | _ \<Rightarrow> mismatch path ty r saved)"

text \<open>The elements of an array, each decoded into a zero element.\<close>

fun set_elements :: "'a setter \<Rightarrow> 'a \<Rightarrow> string list \<Rightarrow> json list \<Rightarrow> decode_err option \<Rightarrow> 'a list filling" where
  "set_elements elem z path [] saved = Inr ([], saved)"
| "set_elements elem z path (j # js) saved =
     (case elem path j z saved of
        Inl e \<Rightarrow> Inl e
      | Inr (a, saved) \<Rightarrow>
          (case set_elements elem z path js saved of
             Inl e \<Rightarrow> Inl e
           | Inr (as, saved) \<Rightarrow> Inr (a # as, saved)))"

definition set_list :: "string \<Rightarrow> 'a setter \<Rightarrow> 'a \<Rightarrow> ('a list \<Rightarrow> 'r \<Rightarrow> 'r) \<Rightarrow> 'r setter" where
  "set_list ty elem z upd path j r saved =
     (case j of
        JNull \<Rightarrow> Inr (upd [] r, saved)
      | JArr js \<Rightarrow>
          (case set_elements elem z path js saved of
             Inl e \<Rightarrow> Inl e
           | Inr (as, saved) \<Rightarrow> Inr (upd as r, saved))
      | _ \<Rightarrow> mismatch path ty r saved)"

text \<open>A nested struct: the setter of the inner record, lifted to the outer one.\<close>

definition nested :: "('r \<Rightarrow> 'a) \<Rightarrow> ('a \<Rightarrow> 'r \<Rightarrow> 'r) \<Rightarrow> 'a setter \<Rightarrow> 'r setter" where
  "nested get put s path j r saved =
     (case s path j (get r) saved of
        Inl e \<Rightarrow> Inl e
      | Inr (a, saved) \<Rightarrow> Inr (put a r, saved))"

text \<open>A raw field keeps the text of its value.\<close>

definition set_raw :: "codec \<Rightarrow> (string \<Rightarrow> 'r \<Rightarrow> 'r) \<Rightarrow> 'r setter" where
  "set_raw C upd path j r saved = Inr (upd (json_text C j) r, saved)"

section \<open>The custom unmarshalers\<close>

text \<open>\<open>stopSequences.UnmarshalJSON\<close>: a string or an array of strings.\<close>

fun stop_elements :: "json list \<Rightarrow> decode_err + string list" where
  "stop_elements [] = Inr []"
| "stop_elements (j # js) =
     (case j of
        JStr s \<Rightarrow> (case stop_elements js of Inl e \<Rightarrow> Inl e | Inr ss \<Rightarrow> Inr (s # ss))
      | JNull \<Rightarrow> (case stop_elements js of Inl e \<Rightarrow> Inl e | Inr ss \<Rightarrow> Inr ('''' # ss))
      | _ \<Rightarrow> Inl (DType ''stop'' ''string''))"

definition set_stop :: "(string list \<Rightarrow> 'r \<Rightarrow> 'r) \<Rightarrow> 'r setter" where
  "set_stop upd path j r saved =
     (case j of
        JStr s \<Rightarrow> Inr (upd [s] r, saved)
      | JNull \<Rightarrow> Inr (upd [] r, saved)
      | JArr js \<Rightarrow> (case stop_elements js of Inl e \<Rightarrow> Inl e | Inr ss \<Rightarrow> Inr (upd ss r, saved))
      | _ \<Rightarrow> Inl (DType ''stop'' ''[]string''))"

text \<open>\<open>toolChoiceWire.UnmarshalJSON\<close>: \<open>"none"\<close>, \<open>"auto"\<close> or a function object. The inner
  \<open>json.Unmarshal\<close> accepts unknown fields.\<close>

definition tool_choice_of :: "json \<Rightarrow> decode_err + toolChoiceWire" where
  "tool_choice_of j =
     (case j of
        JStr mode \<Rightarrow>
          if mode \<noteq> ''none'' \<and> mode \<noteq> ''auto'' then
            Inl (DWire ''tool_choice'' ''tool_choice must be \"none\", \"auto\", or a function object'')
          else Inr \<lparr>cw_Mode = mode, cw_Function = ''''\<rparr>
      | _ \<Rightarrow>
          (case (fld ''type'' dec_string [j], fld ''function'' (fld ''name'' dec_string) [j]) of
             (Some ty, Some name) \<Rightarrow>
               if ty \<noteq> ''function'' \<or> name = '''' then
                 Inl (DWire ''tool_choice''
                   ''tool_choice object must be {\"type\": \"function\", \"function\": {\"name\": ...}}'')
               else Inr \<lparr>cw_Mode = ''function'', cw_Function = name\<rparr>
           | _ \<Rightarrow> Inl (DType ''tool_choice'' ''object'')))"

definition set_tool_choice :: "(toolChoiceWire option \<Rightarrow> 'r \<Rightarrow> 'r) \<Rightarrow> 'r setter" where
  "set_tool_choice upd path j r saved =
     (case j of
        JNull \<Rightarrow> Inr (upd None r, saved)
      | _ \<Rightarrow> (case tool_choice_of j of Inl e \<Rightarrow> Inl e | Inr tc \<Rightarrow> Inr (upd (Some tc) r, saved)))"

section \<open>The schema\<close>

definition set_call :: "toolCallWire setter" where
  "set_call = set_struct ''api.toolCallWire''
     [(''id'', set_string (\<lambda>s. tcw_ID_update (\<lambda>_. s))),
      (''type'', set_string (\<lambda>s. tcw_Type_update (\<lambda>_. s))),
      (''function'', nested tcw_Function (\<lambda>f. tcw_Function_update (\<lambda>_. f))
         (set_struct ''api.toolFunctionCall''
            [(''name'', set_string (\<lambda>s. fc_Name_update (\<lambda>_. s))),
             (''arguments'', set_string (\<lambda>s. fc_Arguments_update (\<lambda>_. s)))]))]"

definition zero_call :: toolCallWire where
  "zero_call = \<lparr>tcw_ID = '''', tcw_Type = '''', tcw_Function = \<lparr>fc_Name = '''', fc_Arguments = ''''\<rparr>\<rparr>"

definition set_message :: "messageWire setter" where
  "set_message = set_struct ''api.messageWire''
     [(''role'', set_string (\<lambda>s. mw_Role_update (\<lambda>_. s))),
      (''content'', set_string_ptr (\<lambda>s. mw_Content_update (\<lambda>_. s))),
      (''tool_calls'', set_list ''[]api.toolCallWire'' set_call zero_call (\<lambda>l. mw_ToolCalls_update (\<lambda>_. l))),
      (''tool_call_id'', set_string (\<lambda>s. mw_ToolCallID_update (\<lambda>_. s)))]"

definition zero_message :: messageWire where
  "zero_message = \<lparr>mw_Role = '''', mw_Content = None, mw_ToolCalls = [], mw_ToolCallID = ''''\<rparr>"

definition set_tool :: "codec \<Rightarrow> toolWire setter" where
  "set_tool C = set_struct ''api.toolWire''
     [(''type'', set_string (\<lambda>s. tw_Type_update (\<lambda>_. s))),
      (''function'', set_struct ''struct''
         [(''name'', set_string (\<lambda>s. tw_Name_update (\<lambda>_. s))),
          (''description'', set_string (\<lambda>s. tw_Description_update (\<lambda>_. s))),
          (''parameters'', set_raw C (\<lambda>s. tw_Parameters_update (\<lambda>_. s)))])]"

definition zero_tool :: toolWire where
  "zero_tool = \<lparr>tw_Type = '''', tw_Name = '''', tw_Description = '''', tw_Parameters = ''''\<rparr>"

definition set_request :: "codec \<Rightarrow> chatRequestWire setter" where
  "set_request C = set_struct ''api.chatRequestWire''
     [(''model'', set_string (\<lambda>s. rw_Model_update (\<lambda>_. s))),
      (''messages'', set_list ''[]api.messageWire'' set_message zero_message (\<lambda>l. rw_Messages_update (\<lambda>_. l))),
      (''max_tokens'', set_int (\<lambda>n. rw_MaxTokens_update (\<lambda>_. n))),
      (''temperature'', set_float_ptr (\<lambda>q. rw_Temperature_update (\<lambda>_. q))),
      (''top_p'', set_float_ptr (\<lambda>q. rw_TopP_update (\<lambda>_. q))),
      (''stop'', set_stop (\<lambda>l. rw_Stop_update (\<lambda>_. l))),
      (''tools'', set_list ''[]api.toolWire'' (set_tool C) zero_tool (\<lambda>l. rw_Tools_update (\<lambda>_. l))),
      (''tool_choice'', set_tool_choice (\<lambda>t. rw_ToolChoice_update (\<lambda>_. t))),
      (''n'', set_int_ptr (\<lambda>n. rw_N_update (\<lambda>_. n))),
      (''stream'', set_bool_ptr (\<lambda>b. rw_Stream_update (\<lambda>_. b)))]"

definition zero_request :: chatRequestWire where
  "zero_request = \<lparr>rw_Model = '''', rw_Messages = [], rw_MaxTokens = 0, rw_Temperature = None,
     rw_TopP = None, rw_Stop = [], rw_Tools = [], rw_ToolChoice = None, rw_N = None, rw_Stream = None\<rparr>"

end
