(* ===== verification/ApiRequest.thy ===== *)
theory ApiRequest
  imports ApiWire
begin

text \<open>
  The rest of \<open>openapi.go\<close>: refusing what the schema excludes (\<open>reject\<close>), translating the
  request to the domain, and the whole of \<open>decodeChatRequest\<close>.
\<close>

section \<open>Refusals\<close>

definition quote_single :: "string \<Rightarrow> string" where
  "quote_single s = [CHR 0x27] @ s @ [CHR 0x27]"

fun reject_messages :: "nat \<Rightarrow> messageWire list \<Rightarrow> apiError option" where
  "reject_messages i [] = None"
| "reject_messages i (m # ms) =
     (let pos = ''messages['' @ itoa (int i) @ '']''
      in if mw_Role m \<notin> {''system'', ''user'', ''assistant'', ''tool''} then
           Some (invalidRequest (pos @ ''.role must be one of system, user, assistant, tool''))
         else if mw_Content m = None \<and> \<not> (mw_Role m = ''assistant'' \<and> mw_ToolCalls m \<noteq> []) then
           Some (invalidRequest (pos @ ''.content is required''))
         else if mw_Role m = ''tool'' \<and> mw_ToolCallID m = '''' then
           Some (invalidRequest (pos @ ''.tool_call_id is required when role is tool''))
         else if mw_Role m \<noteq> ''assistant'' \<and> mw_ToolCalls m \<noteq> [] then
           Some (invalidRequest (pos @ ''.tool_calls is allowed on assistant messages only''))
         else reject_messages (i + 1) ms)"

fun reject_tools :: "nat \<Rightarrow> toolWire list \<Rightarrow> apiError option" where
  "reject_tools i [] = None"
| "reject_tools i (t # ts) =
     (let pos = ''tools['' @ itoa (int i) @ '']''
      in if tw_Type t \<noteq> ''function'' then Some (invalidRequest (pos @ ''.type must be \"function\"''))
         else if tw_Name t = '''' then Some (invalidRequest (pos @ ''.function.name is required''))
         else reject_tools (i + 1) ts)"

definition reject :: "chatRequestWire \<Rightarrow> apiError option" where
  "reject wr =
     (if rw_Stream wr = Some True then
        Some (unsupportedParameter ''stream'' (quote_single ''stream'' @ '' is not supported.''))
      else if rw_N wr \<noteq> None \<and> rw_N wr \<noteq> Some 1 then
        Some (unsupportedParameter ''n'' ''only n = 1 is supported.'')
      else if (case rw_Temperature wr of None \<Rightarrow> False | Some t \<Rightarrow> t < 0 \<or> 2 < t) then
        Some (invalidRequest ''temperature must be between 0 and 2'')
      else if (case rw_TopP wr of None \<Rightarrow> False | Some p \<Rightarrow> p < 0 \<or> 1 < p) then
        Some (invalidRequest ''top_p must be between 0 and 1'')
      else case reject_messages 0 (rw_Messages wr) of
        Some e \<Rightarrow> Some e
      | None \<Rightarrow> reject_tools 0 (rw_Tools wr))"

section \<open>To the domain\<close>

text \<open>\<open>gateway.Role(m.Role)\<close> and \<open>gateway.ToolChoiceMode(wr.ToolChoice.Mode)\<close> are conversions
  of strings.\<close>

definition mode_of_string :: "string \<Rightarrow> ToolChoiceMode" where
  "mode_of_string s =
     (if s = ''none'' then ToolChoiceNone else if s = ''auto'' then ToolChoiceAuto
      else if s = ''function'' then ToolChoiceFunction else ToolChoiceOther s)"

definition message_toDomain :: "messageWire \<Rightarrow> Message" where
  "message_toDomain m =
     \<lparr>Role = role_of_string (mw_Role m),
      Content = (case mw_Content m of None \<Rightarrow> '''' | Some c \<Rightarrow> c),
      ToolCalls = map (\<lambda>tc. \<lparr>ID = tcw_ID tc, Name = fc_Name (tcw_Function tc),
        Arguments = fc_Arguments (tcw_Function tc)\<rparr>) (mw_ToolCalls m),
      ToolCallID = mw_ToolCallID m\<rparr>"

definition toDomain :: "chatRequestWire \<Rightarrow> ChatRequest" where
  "toDomain wr =
     \<lparr>Model = rw_Model wr, Messages = map message_toDomain (rw_Messages wr),
      MaxTokens = rw_MaxTokens wr, Temperature = rw_Temperature wr, TopP = rw_TopP wr,
      Stop = rw_Stop wr,
      Tools = map (\<lambda>t. \<lparr>ToolName = tw_Name t, Description = tw_Description t,
        Parameters = tw_Parameters t\<rparr>) (rw_Tools wr),
      ToolChoice = map_option (\<lambda>tc. \<lparr>Mode = mode_of_string (cw_Mode tc), Function = cw_Function tc\<rparr>)
        (rw_ToolChoice wr)\<rparr>"

section \<open>Decoding a body\<close>

text \<open>The decoder's parameters; \<open>media_type\<close> is \<open>mime.ParseMediaType\<close>.\<close>

record decoder =
  first_value :: "string \<Rightarrow> found"
  dec_codec :: codec
  media_type :: "string \<Rightarrow> string option"

text \<open>\<open>Decode\<close> through \<open>http.MaxBytesReader\<close>: only the first \<open>limit\<close> bytes can be read, and
  asking for more of a longer body is an error.\<close>

definition Decode :: "decoder \<Rightarrow> int \<Rightarrow> string \<Rightarrow> decode_err + chatRequestWire" where
  "Decode D limit body =
     (let over = int (length body) > limit
      in case first_value D (take (nat limit) body) of
           Nothing \<Rightarrow> Inl (if over then DMaxBytes limit else DEOF)
         | Incomplete \<Rightarrow> Inl (if over then DMaxBytes limit else DSyntax)
         | NoJson \<Rightarrow> Inl DSyntax
         | Value j \<Rightarrow>
             (case set_request (dec_codec D) [] j zero_request None of
                Inl e \<Rightarrow> Inl e
              | Inr (r, Some e) \<Rightarrow> Inl e
              | Inr (r, None) \<Rightarrow> Inr r))"

definition decodeError :: "decode_err \<Rightarrow> apiError" where
  "decodeError err =
     (case err of
        DMaxBytes limit \<Rightarrow>
          \<lparr>ae_status = 413, ae_code = codePayloadTooLarge,
           ae_message = ''request body exceeds the '' @ itoa limit @ ''-byte maximum'', ae_details = None\<rparr>
      | DWire param message \<Rightarrow>
          \<lparr>ae_status = 400, ae_code = ''invalid_request'', ae_message = message,
           ae_details = Some (no_details\<lparr>ed_Param := param\<rparr>)\<rparr>
      | DType path ty \<Rightarrow> invalidRequest (path @ '' must be a '' @ ty)
      | DUnknown name \<Rightarrow>
          (let param = trim_func (\<lambda>c. c = CHR ''\"'') (quote name)
           in unsupportedParameter param (quote_single param @ '' is not a supported parameter.''))
      | DEOF \<Rightarrow> invalidRequest ''request body is required''
      | DSyntax \<Rightarrow> invalidRequest ''request body is not valid JSON'')"

definition requireJSON :: "decoder \<Rightarrow> string \<Rightarrow> apiError option" where
  "requireJSON D content_type =
     (if media_type D content_type = Some ''application/json'' then None
      else Some \<lparr>ae_status = 415, ae_code = codeUnsupportedMediaType,
        ae_message = ''Content-Type must be application/json'', ae_details = None\<rparr>)"

definition decodeChatRequest :: "decoder \<Rightarrow> string \<Rightarrow> int \<Rightarrow> string \<Rightarrow> apiError + chatRequestWire" where
  "decodeChatRequest D content_type limit body =
     (case requireJSON D content_type of
        Some e \<Rightarrow> Inl e
      | None \<Rightarrow>
          (case Decode D limit body of
             Inl err \<Rightarrow> Inl (decodeError err)
           | Inr wire \<Rightarrow> (case reject wire of Some e \<Rightarrow> Inl e | None \<Rightarrow> Inr wire)))"

section \<open>Responses\<close>

record choiceWire =
  cho_Index :: int
  cho_Message :: messageWire
  cho_FinishReason :: string

record chatResponseWire =
  resp_ID :: string
  resp_Object :: string
  resp_Created :: int
  resp_Model :: string
  resp_Choices :: "choiceWire list"
  resp_Usage :: Usage

definition messageToWire :: "Message \<Rightarrow> messageWire" where
  "messageToWire m =
     \<lparr>mw_Role = role_string (Role m),
      mw_Content = (if Content m \<noteq> '''' \<or> ToolCalls m = [] then Some (Content m) else None),
      mw_ToolCalls = map (\<lambda>tc. \<lparr>tcw_ID = ID tc, tcw_Type = ''function'',
        tcw_Function = \<lparr>fc_Name = Name tc, fc_Arguments = Arguments tc\<rparr>\<rparr>) (ToolCalls m),
      mw_ToolCallID = ''''\<rparr>"

text \<open>\<open>chatResponse\<close>, given the random id and the Unix time.\<close>

definition chatResponse :: "string \<Rightarrow> int \<Rightarrow> ChatResult \<Rightarrow> chatResponseWire" where
  "chatResponse rid now res =
     \<lparr>resp_ID = ''chatcmpl-'' @ rid, resp_Object = ''chat.completion'', resp_Created = now,
      resp_Model = RModel res,
      resp_Choices = [\<lparr>cho_Index = 0, cho_Message = messageToWire (RMessage res),
        cho_FinishReason = finish_string (RFinishReason res)\<rparr>],
      resp_Usage = RUsage res\<rparr>"

section \<open>Facts\<close>

lemma reject_messages_None:
  "reject_messages i ms = None \<longleftrightarrow>
     (\<forall>m \<in> set ms. mw_Role m \<in> {''system'', ''user'', ''assistant'', ''tool''} \<and>
        (mw_Content m \<noteq> None \<or> mw_Role m = ''assistant'' \<and> mw_ToolCalls m \<noteq> []) \<and>
        (mw_Role m = ''tool'' \<longrightarrow> mw_ToolCallID m \<noteq> '''') \<and>
        (mw_ToolCalls m \<noteq> [] \<longrightarrow> mw_Role m = ''assistant''))"
  by (induction ms arbitrary: i) (auto simp: Let_def)

lemma reject_tools_None:
  "reject_tools i ts = None \<longleftrightarrow> (\<forall>t \<in> set ts. tw_Type t = ''function'' \<and> tw_Name t \<noteq> '''')"
  by (induction ts arbitrary: i) (auto simp: Let_def)

lemma reject_messages_status: "reject_messages i ms = Some e \<Longrightarrow> ae_status e = 400"
  by (induction ms arbitrary: i) (auto simp: Let_def invalidRequest_def split: if_splits)

lemma reject_tools_status: "reject_tools i ts = Some e \<Longrightarrow> ae_status e = 400"
  by (induction ts arbitrary: i) (auto simp: Let_def invalidRequest_def split: if_splits)

lemma reject_status: "reject wr = Some e \<Longrightarrow> ae_status e = 400"
  by (auto simp: reject_def invalidRequest_def unsupportedParameter_def
      dest: reject_messages_status reject_tools_status split: if_splits option.splits)

lemma decodeError_status: "ae_status (decodeError e) \<in> {400, 413}"
  by (cases e) (simp_all add: decodeError_def invalidRequest_def unsupportedParameter_def Let_def)

lemma decode_status: "decodeChatRequest D ct limit body = Inl e \<Longrightarrow> ae_status e \<in> {400, 413, 415}"
  using decodeError_status reject_status
  by (fastforce simp: decodeChatRequest_def requireJSON_def split: option.splits sum.splits if_splits)

end
