(* ===== verification/ApiServer.thy ===== *)
theory ApiServer
  imports ApiRequest
begin

text \<open>
  \<open>internal/api/handler.go\<close>, \<open>middleware.go\<close>, \<open>server.go\<close> and the writers of \<open>utils.go\<close>: the
  handlers, the middleware, and the routing table that composes them. A handler takes a request
  and a response being written, and returns whether it panicked. A response's headers are fixed
  once its status is written; a second \<open>WriteHeader\<close> is ignored, but a wrapper of the writer
  sees every call, so \<open>rs_asked\<close> lists them.
\<close>

section \<open>Requests, responses, handlers\<close>

text \<open>The two values the middleware puts in the request's context are fields; \<open>rq_limit\<close> is the
  cap of \<open>http.MaxBytesReader\<close> when the body is wrapped in one.\<close>

record Request =
  rq_method :: string
  rq_path :: string
  rq_headers :: "(string \<times> string) list"
  rq_body :: string
  rq_limit :: "int option"
  rq_ctx :: ctx
  rq_correlation :: string
  rq_key :: string

record errorDetail =
  er_Code :: string
  er_Message :: string
  er_CorrelationID :: string
  er_Details :: "errorDetails option"

datatype payload = PError errorDetail | PChat chatResponseWire | PStatus string

record Response =
  rs_status :: "int option"
  rs_asked :: "int list"
  rs_headers :: "(string \<times> string) list"
  rs_body :: "payload list"

type_synonym 'w handler = "Request \<Rightarrow> 'w \<times> Response \<Rightarrow> bool \<times> 'w \<times> Response"
type_synonym 'w middleware = "'w handler \<Rightarrow> 'w handler"

definition header_get :: "string \<Rightarrow> (string \<times> string) list \<Rightarrow> string" where
  "header_get h hs = (case find (\<lambda>e. lower (fst e) = lower h) hs of None \<Rightarrow> '''' | Some (_, v) \<Rightarrow> v)"

definition set_header :: "string \<Rightarrow> string \<Rightarrow> Response \<Rightarrow> Response" where
  "set_header k v rs =
     (if rs_status rs = None then rs\<lparr>rs_headers := AList.update k v (rs_headers rs)\<rparr> else rs)"

definition write_header :: "int \<Rightarrow> Response \<Rightarrow> Response" where
  "write_header status rs =
     (let rs = rs\<lparr>rs_asked := rs_asked rs @ [status]\<rparr>
      in if rs_status rs = None then rs\<lparr>rs_status := Some status\<rparr> else rs)"

definition write_body :: "payload \<Rightarrow> Response \<Rightarrow> Response" where
  "write_body b rs = rs\<lparr>rs_body := rs_body rs @ [b]\<rparr>"

definition empty_response :: Response where
  "empty_response = \<lparr>rs_status = None, rs_asked = [], rs_headers = [], rs_body = []\<rparr>"

section \<open>Writers\<close>

definition writeJSON :: "int \<Rightarrow> payload \<Rightarrow> Response \<Rightarrow> Response" where
  "writeJSON status v rs =
     write_body v (write_header status (set_header ''Content-Type'' ''application/json'' rs))"

definition writeError :: "Request \<Rightarrow> apiError \<Rightarrow> Response \<Rightarrow> Response" where
  "writeError r e rs =
     (let rs = (case ae_details e of
            Some d \<Rightarrow> if ed_RetryAfterSeconds d > 0
              then set_header ''Retry-After'' (itoa (ed_RetryAfterSeconds d)) rs else rs
          | None \<Rightarrow> rs)
      in writeJSON (ae_status e)
           (PError \<lparr>er_Code = ae_code e, er_Message = ae_message e, er_CorrelationID = rq_correlation r,
              er_Details = ae_details e\<rparr>) rs)"

definition internal_error :: apiError where
  "internal_error = \<lparr>ae_status = 500, ae_code = codeInternalError, ae_message = ''internal error'',
     ae_details = None\<rparr>"

definition statusFor :: "ErrorCode \<Rightarrow> int" where
  "statusFor code =
     (case code of
        CodeInvalidRequest \<Rightarrow> 400
      | CodeUnauthorized \<Rightarrow> 401
      | CodeQuotaExceeded \<Rightarrow> 429
      | CodeConcurrencyCeiling \<Rightarrow> 429
      | CodeUpstreamFailed \<Rightarrow> 502
      | CodeModelUnavailable \<Rightarrow> 503
      | CodeGatewayTimeout \<Rightarrow> 504
      | CodeOther _ \<Rightarrow> 500)"

definition ceilSeconds :: "int \<Rightarrow> int" where
  "ceilSeconds d = i64 (i64 (d + Second) - 1) sdiv Second"

definition fromGatewayError :: "Error \<Rightarrow> apiError" where
  "fromGatewayError e =
     (let d = no_details;
          d = (if RetryAfter e > 0 then d\<lparr>ed_RetryAfterSeconds := ceilSeconds (RetryAfter e)\<rparr> else d);
          d = (case Quota e of None \<Rightarrow> d
               | Some q \<Rightarrow> d\<lparr>ed_Quota := Some \<lparr>qw_Limit = Limit q, qw_WindowSeconds = WindowSeconds q,
                   qw_Used = Used q\<rparr>\<rparr>);
          d = (if MaxInFlight e > 0 then d\<lparr>ed_MaxInFlight := MaxInFlight e\<rparr> else d);
          d = (if RequestedModel e \<noteq> '''' then d\<lparr>ed_RequestedModel := RequestedModel e\<rparr> else d)
      in \<lparr>ae_status = statusFor (Code e), ae_code = code_string (Code e), ae_message = ErrMessage e,
          ae_details = (if d \<noteq> no_details then Some d else None)\<rparr>)"

definition statusClientClosedRequest :: int where "statusClientClosedRequest = 499"

definition writeChatError :: "Request \<Rightarrow> go_error \<Rightarrow> Response \<Rightarrow> Response" where
  "writeChatError r err rs =
     (case as_gateway err of
        Some gwErr \<Rightarrow> writeError r (fromGatewayError gwErr) rs
      | None \<Rightarrow>
          if is_ctx Canceled err then write_header statusClientClosedRequest rs
          else writeError r internal_error rs)"

section \<open>The server\<close>

text \<open>
  What the server drives. \<open>sv_chat\<close> answers \<open>None\<close> when the call panics. \<open>sv_random n\<close> is
  \<open>randomID\<close>: \<open>n\<close> random bytes in hexadecimal.
\<close>

record 'w Server =
  sv_chat :: "ctx \<Rightarrow> string \<Rightarrow> ChatRequest \<Rightarrow> 'w \<Rightarrow> (go_error + ChatResult) option \<times> 'w"
  sv_live :: "'w \<Rightarrow> go_error option \<times> 'w"
  sv_ready :: "ctx \<Rightarrow> 'w \<Rightarrow> go_error option \<times> 'w"
  sv_requestMW :: "'w middleware list"
  sv_panicMW :: "'w middleware list"
  sv_maxBodyBytes :: int
  sv_random :: "nat \<Rightarrow> 'w \<Rightarrow> string \<times> 'w"
  sv_unix :: "'w \<Rightarrow> int"
  sv_decoder :: decoder

section \<open>Handlers\<close>

definition handleChat :: "'w Server \<Rightarrow> 'w handler" where
  "handleChat s r st =
     (let (w, rs) = st
      in case decodeChatRequest (sv_decoder s) (header_get ''Content-Type'' (rq_headers r))
                (case rq_limit r of None \<Rightarrow> int (length (rq_body r)) | Some n \<Rightarrow> n) (rq_body r) of
           Inl apiErr \<Rightarrow> (False, w, writeError r apiErr rs)
         | Inr wire \<Rightarrow>
             (case sv_chat s (rq_ctx r) (rq_key r) (toDomain wire) w of
                (None, w) \<Rightarrow> (True, w, rs)
              | (Some (Inl err), w) \<Rightarrow> (False, w, writeChatError r err rs)
              | (Some (Inr result), w) \<Rightarrow>
                  (let rs = (if Substituted result then set_header ''X-Model-Substituted'' ''true'' rs else rs);
                       (rid, w) = sv_random s 8 w
                   in (False, w, writeJSON 200 (PChat (chatResponse rid (sv_unix s w) result)) rs))))"

definition handleHealthz :: "'w Server \<Rightarrow> 'w handler" where
  "handleHealthz s r st =
     (let (w, rs) = st
      in case sv_live s w of
           (Some _, w) \<Rightarrow> (False, w, write_header 503 rs)
         | (None, w) \<Rightarrow> (False, w, writeJSON 200 (PStatus ''ok'') rs))"

definition handleReadyz :: "'w Server \<Rightarrow> 'w handler" where
  "handleReadyz s r st =
     (let (w, rs) = st
      in case sv_ready s (rq_ctx r) w of
           (Some _, w) \<Rightarrow> (False, w, write_header 503 rs)
         | (None, w) \<Rightarrow> (False, w, write_header 200 rs))"

section \<open>Middleware\<close>

definition recoverPanic :: "'w middleware" where
  "recoverPanic next r st =
     (case next r st of
        (True, w, rs) \<Rightarrow> (False, w, writeError r internal_error rs)
      | (False, w, rs) \<Rightarrow> (False, w, rs))"

definition maxCorrelationIDLength :: nat where "maxCorrelationIDLength = 128"

definition correlationID :: "'w Server \<Rightarrow> 'w middleware" where
  "correlationID s next r st =
     (let (w, rs) = st;
          client = header_get ''X-Correlation-ID'' (rq_headers r);
          (cid, w) = (if client = '''' \<or> length client > maxCorrelationIDLength
                      then sv_random s 16 w else (client, w))
      in next (r\<lparr>rq_correlation := cid\<rparr>) (w, set_header ''X-Correlation-ID'' cid rs))"

definition maxBody :: "'w Server \<Rightarrow> 'w middleware" where
  "maxBody s next r st = next (r\<lparr>rq_limit := Some (sv_maxBodyBytes s)\<rparr>) st"

definition bearerPrefix :: string where "bearerPrefix = ''Bearer ''"

definition bearerToken :: "Request \<Rightarrow> string option" where
  "bearerToken r =
     (let auth = header_get ''Authorization'' (rq_headers r); n = length bearerPrefix
      in if length auth > n \<and> lower (take n auth) = lower bearerPrefix then Some (drop n auth) else None)"

definition missing_key :: apiError where
  "missing_key = \<lparr>ae_status = 401, ae_code = ''unauthorized'', ae_message = ''missing or invalid API key'',
     ae_details = None\<rparr>"

definition authenticate :: "'w middleware" where
  "authenticate next r st =
     (case bearerToken r of
        None \<Rightarrow> (False, fst st, writeError r missing_key (snd st))
      | Some k \<Rightarrow> next (r\<lparr>rq_key := k\<rparr>) st)"

text \<open>\<open>spliced\<close>: the loop from the last link to the first.\<close>

fun spliced :: "'w middleware list \<Rightarrow> 'w middleware" where
  "spliced [] h = h"
| "spliced (m # ms) h = m (spliced ms h)"

section \<open>Routes\<close>

definition chain :: "'w Server \<Rightarrow> 'w handler \<Rightarrow> 'w handler" where
  "chain s h =
     correlationID s (spliced (sv_requestMW s) (recoverPanic (spliced (sv_panicMW s)
       (maxBody s (authenticate h)))))"

definition ops :: "'w Server \<Rightarrow> 'w handler \<Rightarrow> 'w handler" where
  "ops s h = correlationID s (recoverPanic (spliced (sv_panicMW s) h))"

text \<open>The mux: a \<open>GET\<close> pattern also serves \<open>HEAD\<close>; a known path with another method is 405.\<close>

definition ServeHTTP :: "'w Server \<Rightarrow> 'w handler" where
  "ServeHTTP s r st =
     (let m = rq_method r; get = (m = ''GET'' \<or> m = ''HEAD'')
      in if rq_path r = ''/v1/chat'' \<and> m = ''POST'' then chain s (handleChat s) r st
         else if rq_path r = ''/healthz'' \<and> get then ops s (handleHealthz s) r st
         else if rq_path r = ''/readyz'' \<and> get then ops s (handleReadyz s) r st
         else (False, fst st, write_header
           (if rq_path r \<in> {''/v1/chat'', ''/healthz'', ''/readyz''} then 405 else 404) (snd st)))"

section \<open>Construction\<close>

record ServerConfig =
  sc_Addr :: string
  sc_ReadHeaderTimeout :: int
  sc_ReadTimeout :: int
  sc_WriteTimeout :: int
  sc_IdleTimeout :: int
  sc_MaxBodyBytes :: int

definition or_default :: "int \<Rightarrow> int \<Rightarrow> int" where
  "or_default dflt n = (if n \<le> 0 then dflt else n)"

definition with_defaults :: "ServerConfig \<Rightarrow> ServerConfig" where
  "with_defaults c =
     \<lparr>sc_Addr = (if sc_Addr c = '''' then '':8080'' else sc_Addr c),
      sc_ReadHeaderTimeout = or_default (5 * Second) (sc_ReadHeaderTimeout c),
      sc_ReadTimeout = or_default (30 * Second) (sc_ReadTimeout c),
      sc_WriteTimeout = or_default (90 * Second) (sc_WriteTimeout c),
      sc_IdleTimeout = or_default (2 * Minute) (sc_IdleTimeout c),
      sc_MaxBodyBytes = or_default (2 ^ 20) (sc_MaxBodyBytes c)\<rparr>"

text \<open>\<open>New\<close>: the core and the health checker are required. The result is the server and the
  settings its \<open>http.Server\<close> gets.\<close>

definition NewServer ::
  "ServerConfig \<Rightarrow> (ctx \<Rightarrow> string \<Rightarrow> ChatRequest \<Rightarrow> 'w \<Rightarrow> (go_error + ChatResult) option \<times> 'w) option
     \<Rightarrow> (('w \<Rightarrow> go_error option \<times> 'w) \<times> (ctx \<Rightarrow> 'w \<Rightarrow> go_error option \<times> 'w)) option
     \<Rightarrow> 'w middleware list \<Rightarrow> 'w middleware list \<Rightarrow> (nat \<Rightarrow> 'w \<Rightarrow> string \<times> 'w) \<Rightarrow> ('w \<Rightarrow> int) \<Rightarrow> decoder
     \<Rightarrow> go_error + 'w Server \<times> ServerConfig" where
  "NewServer c chat health rmw pmw rnd unix D =
     (case chat of None \<Rightarrow> Inl (ErrText ''api: ChatService is required'') | Some ch \<Rightarrow>
      case health of None \<Rightarrow> Inl (ErrText ''api: HealthChecker is required'') | Some (live, ready) \<Rightarrow>
      Inr (\<lparr>sv_chat = ch, sv_live = live, sv_ready = ready, sv_requestMW = rmw, sv_panicMW = pmw,
            sv_maxBodyBytes = sc_MaxBodyBytes (with_defaults c), sv_random = rnd, sv_unix = unix,
            sv_decoder = D\<rparr>, with_defaults c))"

section \<open>The listener\<close>

text \<open>
  What \<open>Start\<close> uses of \<open>net\<close> and \<open>net/http\<close>: \<open>listen\<close> binds an address and answers the address
  it bound, \<open>serve\<close> blocks until the server is closed or fails and always returns an error,
  \<open>shutdown\<close> is \<open>http.Server.Shutdown\<close>. The bound address is the server's \<open>addr\<close> field, empty
  before \<open>Start\<close> has listened.
\<close>

record 'w listener =
  net_listen :: "string \<Rightarrow> 'w \<Rightarrow> (go_error + string) \<times> 'w"
  net_serve :: "'w Server \<Rightarrow> 'w \<Rightarrow> go_error \<times> 'w"
  net_shutdown :: "ctx \<Rightarrow> 'w \<Rightarrow> go_error option \<times> 'w"

definition ErrServerClosed :: go_error where
  "ErrServerClosed = ErrText ''http: Server closed''"

fun wraps :: "go_error \<Rightarrow> go_error \<Rightarrow> bool" where
  "wraps target (ErrWrap m e) = (ErrWrap m e = target \<or> wraps target e)"
| "wraps target e = (e = target)"

definition Start :: "'w listener \<Rightarrow> 'w Server \<Rightarrow> ServerConfig \<Rightarrow> string \<times> 'w \<Rightarrow> go_error option \<times> string \<times> 'w" where
  "Start N srv sc st =
     (case st of (bound, w) \<Rightarrow>
      case net_listen N (sc_Addr sc) w of
        (Inl e, w) \<Rightarrow> (Some (ErrWrap (''api: listen '' @ sc_Addr sc) e), bound, w)
      | (Inr bound, w) \<Rightarrow>
          (case net_serve N srv w of (e, w) \<Rightarrow>
             (if wraps ErrServerClosed e then None else Some (ErrWrap ''api: serve'' e), bound, w)))"

definition Addr :: "string \<times> 'w \<Rightarrow> string" where
  "Addr st = fst st"

definition Shutdown :: "'w listener \<Rightarrow> ctx \<Rightarrow> 'w \<Rightarrow> go_error option \<times> 'w" where
  "Shutdown N c w = net_shutdown N c w"

end
