(* ===== verification/Web.thy ===== *)
theory Web
  imports Json
begin

text \<open>
  What the two key caches use of \<open>net/http\<close>, \<open>io\<close>, \<open>os\<close> and \<open>encoding/base64\<close>: one exchange
  with a server, bodies read under a limit, files, and the unpadded URL alphabet. A body that
  breaks off is the bytes that arrived and the error that followed them.
\<close>

record web_request =
  wr_method :: string
  wr_url :: string
  wr_headers :: "(string \<times> string) list"
  wr_body :: string

record web_reply =
  wr_status :: int
  wr_bytes :: string
  wr_fault :: "go_error option"

text \<open>\<open>web_bad\<close> is the error of \<open>NewRequestWithContext\<close>, \<open>web_do\<close> the client's \<open>Do\<close>,
  \<open>web_first\<close> the streaming decoder and \<open>web_codec\<close> the rest of \<open>encoding/json\<close>.\<close>

record 'w Web =
  web_bad :: "string \<Rightarrow> go_error option"
  web_do :: "ctx \<Rightarrow> web_request \<Rightarrow> 'w \<Rightarrow> (go_error + web_reply) \<times> 'w"
  web_first :: "string \<Rightarrow> found"
  web_codec :: codec

record 'w Files =
  read_file :: "string \<Rightarrow> 'w \<Rightarrow> go_error + string"
  not_exist :: "string \<Rightarrow> 'w \<Rightarrow> bool"
  usable_pem :: "string \<Rightarrow> bool"

text \<open>\<open>io.ReadAll(io.LimitReader(body, limit))\<close>.\<close>

definition read_all :: "nat \<Rightarrow> web_reply \<Rightarrow> go_error + string" where
  "read_all limit r =
     (case wr_fault r of
        Some e \<Rightarrow> if length (wr_bytes r) < limit then Inl e else Inr (take limit (wr_bytes r))
      | None \<Rightarrow> Inr (take limit (wr_bytes r)))"

text \<open>\<open>json.NewDecoder(io.LimitReader(body, limit)).Decode\<close>, up to the first value.\<close>

definition decode_first :: "'w Web \<Rightarrow> nat \<Rightarrow> web_reply \<Rightarrow> go_error + json" where
  "decode_first W limit r =
     (case web_first W (take limit (wr_bytes r)) of
        Value j \<Rightarrow> Inr j
      | NoJson \<Rightarrow> Inl (ErrText ''invalid character'')
      | part \<Rightarrow>
          (case wr_fault r of
             Some e \<Rightarrow> if length (wr_bytes r) < limit then Inl e else Inl (ErrText ''unexpected EOF'')
           | None \<Rightarrow> Inl (ErrText (if part = Nothing then ''EOF'' else ''unexpected EOF''))))"

text \<open>\<open>json.Unmarshal\<close> of a whole text.\<close>

definition unmarshal :: "codec \<Rightarrow> 'a dec \<Rightarrow> string \<Rightarrow> go_error + 'a" where
  "unmarshal C d s =
     (case parse C s of
        None \<Rightarrow> Inl (ErrText ''invalid JSON'')
      | Some j \<Rightarrow> (case d [j] of None \<Rightarrow> Inl (ErrText ''json: cannot unmarshal'') | Some x \<Rightarrow> Inr x))"

section \<open>Base64\<close>

text \<open>\<open>base64.RawURLEncoding.DecodeString\<close>: line breaks are skipped, the unused low bits of
  the last character are ignored, and a text of length 1 modulo 4 has no decoding.\<close>

definition b64_value :: "char \<Rightarrow> nat option" where
  "b64_value c =
     (let k = of_char c :: nat
      in if 65 \<le> k \<and> k \<le> 90 then Some (k - 65)
         else if 97 \<le> k \<and> k \<le> 122 then Some (k - 71)
         else if 48 \<le> k \<and> k \<le> 57 then Some (k + 4)
         else if c = CHR ''-'' then Some 62
         else if c = CHR ''_'' then Some 63
         else None)"

fun b64_bytes :: "nat list \<Rightarrow> nat list option" where
  "b64_bytes [] = Some []"
| "b64_bytes [a] = None"
| "b64_bytes [a, b] = Some [a * 4 + b div 16]"
| "b64_bytes [a, b, c] = Some [a * 4 + b div 16, (b mod 16) * 16 + c div 4]"
| "b64_bytes (a # b # c # d # r) =
     map_option (\<lambda>t. [a * 4 + b div 16, (b mod 16) * 16 + c div 4, (c mod 4) * 64 + d] @ t) (b64_bytes r)"

definition b64_decode :: "string \<Rightarrow> nat list option" where
  "b64_decode s =
     (case all_some (map b64_value (filter (\<lambda>c. c \<noteq> CHR 0x0A \<and> c \<noteq> CHR 0x0D) s)) of
        None \<Rightarrow> None
      | Some vs \<Rightarrow> b64_bytes vs)"

definition b64_text :: "string \<Rightarrow> string option" where
  "b64_text s = map_option (map char_of) (b64_decode s)"

text \<open>\<open>new(big.Int).SetBytes\<close>: big-endian.\<close>

definition set_bytes :: "nat list \<Rightarrow> nat" where
  "set_bytes bs = foldl (\<lambda>n b. n * 256 + b) 0 bs"

lemma b64_example: "b64_text ''aGk'' = Some ''hi''" "b64_text ''a'' = None" "b64_decode ''AQAB'' = Some [1, 0, 1]"
  by code_simp+

lemma set_bytes_example: "set_bytes [1, 0, 1] = 65537"
  by (simp add: set_bytes_def)

section \<open>The background loop\<close>

text \<open>
  A refresh loop wakes when its ticker fires and ends when its context does. A wake carries what
  the rest of the process did to the world since the last one.
\<close>

datatype 'w wake = Tick "'w \<Rightarrow> 'w" | Stop "'w \<Rightarrow> 'w"

fun refresh_loop :: "('w \<Rightarrow> go_error option \<times> 'w) \<Rightarrow> 'w wake list \<Rightarrow> 'w \<Rightarrow> 'w" where
  "refresh_loop f [] w = w"
| "refresh_loop f (Stop env # ws) w = env w"
| "refresh_loop f (Tick env # ws) w = refresh_loop f ws (snd (f (env w)))"

fun env_of :: "'w wake \<Rightarrow> 'w \<Rightarrow> 'w" where
  "env_of (Tick env) = env"
| "env_of (Stop env) = env"

text \<open>
  A cache that fails static: a failed refresh leaves what is cached, a successful one leaves
  something usable. The two key caches both promise it, and their loops rest on it.
\<close>

locale fail_static =
  fixes refresh :: "'w \<Rightarrow> go_error option \<times> 'w"
    and cache :: "'w \<Rightarrow> 'c"
    and loaded :: "'c \<Rightarrow> bool"
  assumes failed: "refresh w = (Some e, w1) \<Longrightarrow> cache w1 = cache w"
    and succeeded: "refresh w = (None, w1) \<Longrightarrow> loaded (cache w1)"
begin

lemma refresh_keeps: "loaded (cache w) \<Longrightarrow> loaded (cache (snd (refresh w)))"
  using failed [of w] succeeded [of w] by (cases "refresh w"; cases "fst (refresh w)") auto

lemma loop_keeps:
  "loaded (cache w) \<Longrightarrow> list_all (\<lambda>k. \<forall>w. cache (env_of k w) = cache w) ws \<Longrightarrow>
     loaded (cache (refresh_loop refresh ws w))"
proof (induction ws arbitrary: w)
  case (Cons k ws)
  then show ?case by (cases k) (auto simp: refresh_keeps)
qed simp

text \<open>While every attempt fails, the cache is the one the loop began with.\<close>

lemma loop_stale:
  "(\<And>w. fst (refresh w) \<noteq> None) \<Longrightarrow> list_all (\<lambda>k. \<forall>w. cache (env_of k w) = cache w) ws \<Longrightarrow>
     cache (refresh_loop refresh ws w) = cache w"
proof (induction ws arbitrary: w)
  case (Cons k ws)
  show ?case
  proof (cases k)
    case (Tick env)
    obtain r w1 where r: "refresh (env w) = (r, w1)" by fastforce
    with Cons.prems(1) [of "env w"] obtain e where "r = Some e" by auto
    with r failed have "cache w1 = cache (env w)" by blast
    with Cons Tick r show ?thesis by simp
  qed (use Cons in auto)
qed simp

end

end
