(* ===== verification/ProviderHttp.thy ===== *)
theory ProviderHttp
  imports Ports Json
begin

text \<open>
  \<open>internal/shared/utils.go\<close> and what the three provider adapters share of \<open>net/http\<close>: the
  translation of a failure into a fault, the credential functions, and one exchange with a
  provider. The HTTP client is a record of functions over the world.
\<close>

section \<open>Credentials\<close>

text \<open>A \<open>Key\<close> is a function without arguments; it reads the world, since the credential it
  resolves may rotate.\<close>

type_synonym 'w Key = "'w \<Rightarrow> string"

definition NoKey :: "'w Key" where "NoKey w = ''''"

definition StaticKey :: "string \<Rightarrow> 'w Key" where "StaticKey k w = k"

section \<open>Faults\<close>

definition TransportFault :: "go_error \<Rightarrow> go_error" where
  "TransportFault err =
     (if is_ctx DeadlineExceeded err \<or> net_timeout err
      then ErrFault FaultTimeout None (Some err)
      else ErrFault FaultUnreachable None (Some err))"

definition StatusFault :: "string \<Rightarrow> int \<Rightarrow> string \<Rightarrow> go_error" where
  "StatusFault prov status body =
     (let kind = (if status = 429 then FaultThrottled
                  else if status = 401 \<or> status = 403 then FaultRejected
                  else FaultServerError)
      in ErrFault kind None
           (Some (ErrText (prov @ '': status '' @ itoa status @ '': '' @ trim_space body))))"

definition BadResponseFault :: "string \<Rightarrow> go_error \<Rightarrow> Usage option \<Rightarrow> go_error" where
  "BadResponseFault prov cause observed =
     ErrFault FaultBadResponse observed (Some (ErrWrap prov cause))"

section \<open>One exchange\<close>

record http_request =
  hr_url :: string
  hr_headers :: "(string \<times> string) list"
  hr_body :: string

text \<open>
  \<open>bad_url\<close> is the error of \<open>NewRequestWithContext\<close>; \<open>do_request\<close> the client's \<open>Do\<close>; a
  response is its status and what reading its body gives. The codec is \<open>encoding/json\<close>.
\<close>

record 'w Http =
  bad_url :: "string \<Rightarrow> go_error option"
  do_request :: "ctx \<Rightarrow> http_request \<Rightarrow> 'w \<Rightarrow> (go_error + int \<times> (go_error + string)) \<times> 'w"
  codec_of :: codec

definition maxResponseBytes :: nat where "maxResponseBytes = 10 * 2 ^ 20"

text \<open>Send, read at most \<open>maxResponseBytes\<close>, judge the status, decode: the second half of each
  adapter's \<open>Complete\<close>.\<close>

definition exchange ::
  "'w Http \<Rightarrow> string \<Rightarrow> 'r dec \<Rightarrow> ('r \<Rightarrow> go_error + Completion) \<Rightarrow> ctx \<Rightarrow> http_request \<Rightarrow> 'w
     \<Rightarrow> (go_error + Completion) \<times> 'w" where
  "exchange H name decode to_domain c rq w =
     (case do_request H c rq w of
        (Inl err, w) \<Rightarrow> (Inl (TransportFault err), w)
      | (Inr (status, body), w) \<Rightarrow>
          (case body of
             Inl err \<Rightarrow> Inl (TransportFault err)
           | Inr bytes \<Rightarrow>
               let raw = take maxResponseBytes bytes
               in if status \<noteq> 200 then Inl (StatusFault name status raw)
                  else case parse (codec_of H) raw of
                    None \<Rightarrow> Inl (BadResponseFault name
                      (ErrWrap ''decode response'' (ErrText ''invalid JSON'')) None)
                  | Some j \<Rightarrow>
                      (case decode [j] of
                         None \<Rightarrow> Inl (BadResponseFault name
                           (ErrWrap ''decode response'' (ErrText ''json: cannot unmarshal'')) None)
                       | Some wire \<Rightarrow> to_domain wire), w))"

text \<open>Encode, build the request, exchange.\<close>

definition post_json ::
  "'w Http \<Rightarrow> string \<Rightarrow> string \<Rightarrow> go_error + string \<Rightarrow> (string \<times> string) list \<Rightarrow> 'r dec
     \<Rightarrow> ('r \<Rightarrow> go_error + Completion) \<Rightarrow> ctx \<Rightarrow> 'w \<Rightarrow> (go_error + Completion) \<times> 'w" where
  "post_json H name url body headers decode to_domain c w =
     (case body of
        Inl err \<Rightarrow> (Inl (BadResponseFault name (ErrWrap ''encode request'' err) None), w)
      | Inr bytes \<Rightarrow>
          (case bad_url H url of
             Some err \<Rightarrow> (Inl (BadResponseFault name (ErrWrap ''build request'' err) None), w)
           | None \<Rightarrow>
               exchange H name decode to_domain c
                 \<lparr>hr_url = url, hr_headers = headers, hr_body = bytes\<rparr> w))"

section \<open>Facts\<close>

definition is_fault :: "go_error \<Rightarrow> bool" where
  "is_fault e \<longleftrightarrow> as_fault e \<noteq> None"

definition faults_only :: "go_error + 'a \<Rightarrow> bool" where
  "faults_only res = (case res of Inl e \<Rightarrow> is_fault e | Inr _ \<Rightarrow> True)"

lemma fault_facts [simp]:
  "is_fault (TransportFault e)" "is_fault (StatusFault p n b)" "is_fault (BadResponseFault p e u)"
  "as_fault (BadResponseFault p e u) = Some (FaultBadResponse, u, Some (ErrWrap p e))"
  by (auto simp: is_fault_def TransportFault_def StatusFault_def BadResponseFault_def Let_def)

lemma faults_only_simps [simp]:
  "faults_only (Inl e) = is_fault e" "faults_only (Inr x)"
  by (simp_all add: faults_only_def)

lemma exchange_faults:
  "(\<And>r. faults_only (to_domain r)) \<Longrightarrow> faults_only (fst (exchange H name d to_domain c rq w))"
  by (simp add: exchange_def Let_def split: prod.splits sum.splits option.splits)

lemma post_json_faults:
  "(\<And>r. faults_only (to_domain r)) \<Longrightarrow> faults_only (fst (post_json H name url b hs d to_domain c w))"
  by (simp add: post_json_def exchange_faults split: sum.splits option.splits)

text \<open>The three statuses that name a cause, and everything else.\<close>

lemma StatusFault_kind:
  "as_fault (StatusFault p n b) = Some (k, u, c) \<Longrightarrow>
     u = None \<and> (k = FaultThrottled \<longleftrightarrow> n = 429) \<and> (k = FaultRejected \<longleftrightarrow> n = 401 \<or> n = 403) \<and>
     (k = FaultServerError \<longleftrightarrow> n \<noteq> 429 \<and> n \<noteq> 401 \<and> n \<noteq> 403)"
  by (auto simp: StatusFault_def Let_def split: if_splits)

end
