(* ===== verification/ProviderKeys.thy ===== *)
theory ProviderKeys
  imports Web ProviderHttp
begin

text \<open>
  \<open>internal/providerkeys\<close>: the cache of provider credentials (\<open>cache.go\<close>) and the two places
  they are read from, files (\<open>file.go\<close>) and HashiCorp Vault (\<open>vault.go\<close>).

  The cache is its map of entries, as an association list; whatever runs concurrently with it
  is a step of a machine below. Times are nanoseconds, \<open>None\<close> the zero time.
\<close>

section \<open>The cache\<close>

definition fetchTimeout :: int where "fetchTimeout = 10 * Second"
definition triggerCooldown :: int where "triggerCooldown = 30 * Second"

type_synonym 'w Fetcher = "ctx \<Rightarrow> string \<Rightarrow> 'w \<Rightarrow> (go_error + string) \<times> 'w"

record Source =
  Path :: string
  SourceInterval :: int

record entry =
  source :: Source
  held_key :: string
  loadedAt :: "int option"
  refreshing :: bool
  lastTrigger :: "int option"

type_synonym Cache = "(string \<times> entry) list"

text \<open>Every background refresh goes through the injected refresher, \<open>RefreshVia\<close>'s argument.\<close>

type_synonym 'w Refresher = "ctx \<Rightarrow> string \<Rightarrow> Cache \<times> 'w \<Rightarrow> go_error option \<times> Cache \<times> 'w"

definition fresh_entry :: "Source \<Rightarrow> entry" where
  "fresh_entry src = \<lparr>source = src, held_key = '''', loadedAt = None, refreshing = False, lastTrigger = None\<rparr>"

fun fill_entries :: "(string \<times> Source) list \<Rightarrow> Cache \<Rightarrow> go_error + Cache" where
  "fill_entries [] C = Inr C"
| "fill_entries ((p, src) # srcs) C =
     (if Path src = '''' then Inl (ErrText (''providerkeys: provider '' @ quote p @ '' has no path''))
      else fill_entries srcs (AList.update p (fresh_entry src) C))"

definition NewCache :: "'w Fetcher option \<Rightarrow> (string \<times> Source) list \<Rightarrow> go_error + Cache" where
  "NewCache fetch sources =
     (if fetch = None \<and> sources \<noteq> [] then
        Inl (ErrText ''providerkeys: a Fetcher is required when any provider has a source'')
      else fill_entries sources [])"

definition KeyFor :: "Cache \<Rightarrow> string \<Rightarrow> string" where
  "KeyFor C p = (case map_of C p of None \<Rightarrow> '''' | Some e \<Rightarrow> held_key e)"

text \<open>The accessor an adapter holds reads the cache of the moment.\<close>

definition cache_Key :: "('w \<Rightarrow> Cache) \<Rightarrow> string \<Rightarrow> 'w Key" where
  "cache_Key cache_of p w = KeyFor (cache_of w) p"

definition Providers :: "Cache \<Rightarrow> string list" where
  "Providers C = sort (map fst C)"

definition Interval :: "Cache \<Rightarrow> string \<Rightarrow> int" where
  "Interval C p = (case map_of C p of None \<Rightarrow> 0 | Some e \<Rightarrow> SourceInterval (source e))"

definition cache_Age :: "Cache \<Rightarrow> string \<Rightarrow> int \<Rightarrow> int option" where
  "cache_Age C p now =
     (case map_of C p of None \<Rightarrow> None | Some e \<Rightarrow> map_option (\<lambda>t0. now - t0) (loadedAt e))"

text \<open>The write of a successful refresh, under the entry's lock.\<close>

definition install :: "string \<Rightarrow> string \<Rightarrow> int \<Rightarrow> Cache \<Rightarrow> Cache" where
  "install p k t C = AList.map_entry p (\<lambda>e. e\<lparr>held_key := k, loadedAt := Some t\<rparr>) C"

definition cache_Refresh :: "'w Fetcher \<Rightarrow> ('w \<Rightarrow> int) \<Rightarrow> 'w Refresher" where
  "cache_Refresh fetch now c p Cw =
     (let (C, w) = Cw
      in case map_of C p of
           None \<Rightarrow> (Some (ErrText (''providerkeys: provider '' @ quote p @ '' has no configured source'')), C, w)
         | Some e \<Rightarrow>
             (case fetch (with_timeout c (now w) fetchTimeout) (Path (source e)) w of
                (Inl err, w) \<Rightarrow> (Some (ErrWrap (''providerkeys: refresh '' @ p) err), C, w)
              | (Inr k, w) \<Rightarrow>
                  if k = '''' then
                    (Some (ErrText (''providerkeys: refresh '' @ p @ '': source holds no credential'')), C, w)
                  else (None, install p k (now w) C, w)))"

fun refresh_each :: "'w Refresher \<Rightarrow> ctx \<Rightarrow> string list \<Rightarrow> Cache \<times> 'w \<Rightarrow> go_error list \<times> Cache \<times> 'w" where
  "refresh_each R c [] Cw = ([], Cw)"
| "refresh_each R c (p # ps) Cw =
     (let (err, Cw) = R c p Cw; (errs, Cw) = refresh_each R c ps Cw
      in (case err of None \<Rightarrow> errs | Some e \<Rightarrow> e # errs, Cw))"

text \<open>\<open>errors.Join\<close> of no error is nil.\<close>

definition join_errors :: "go_error list \<Rightarrow> go_error option" where
  "join_errors errs =
     (if errs = [] then None else Some (ErrText (join [CHR 0x0A] (map error_text errs))))"

definition RefreshAll :: "'w Fetcher \<Rightarrow> ('w \<Rightarrow> int) \<Rightarrow> ctx \<Rightarrow> Cache \<times> 'w \<Rightarrow> go_error option \<times> Cache \<times> 'w" where
  "RefreshAll fetch now c Cw =
     (let (errs, Cw) = refresh_each (cache_Refresh fetch now) c (Providers (fst Cw)) Cw
      in (join_errors errs, Cw))"

text \<open>\<open>TriggerRefresh\<close>; the clock is read twice, once for the comparison and once for the mark.
  Whether it returns true is whether it starts the goroutine, whose last act is \<open>finish\<close>.\<close>

definition TriggerRefresh :: "string \<Rightarrow> int \<Rightarrow> int \<Rightarrow> Cache \<Rightarrow> bool \<times> Cache" where
  "TriggerRefresh p t t' C =
     (case map_of C p of
        None \<Rightarrow> (False, C)
      | Some e \<Rightarrow>
          if refreshing e \<or> (case lastTrigger e of None \<Rightarrow> False | Some t0 \<Rightarrow> t - t0 < triggerCooldown)
          then (False, C)
          else (True, AList.map_entry p (\<lambda>e. e\<lparr>refreshing := True, lastTrigger := Some t'\<rparr>) C))"

definition finish :: "string \<Rightarrow> Cache \<Rightarrow> Cache" where
  "finish p C = AList.map_entry p (\<lambda>e. e\<lparr>refreshing := False\<rparr>) C"

definition cache_KeepFresh ::
  "'w Refresher \<Rightarrow> ctx \<Rightarrow> string \<Rightarrow> (Cache \<times> 'w) wake list \<Rightarrow> Cache \<times> 'w \<Rightarrow> Cache \<times> 'w" where
  "cache_KeepFresh R c p wakes Cw =
     (if Interval (fst Cw) p \<le> 0 then Cw else refresh_loop (R c p) wakes Cw)"

definition cache_Ready :: "Cache \<Rightarrow> go_error option" where
  "cache_Ready C =
     (if C = [] \<or> list_ex (\<lambda>(p, e). loadedAt e \<noteq> None) C then None
      else Some (ErrText ''providerkeys: no configured source has loaded yet''))"

section \<open>Files\<close>

definition file_Fetch :: "'w Files \<Rightarrow> 'w Fetcher" where
  "file_Fetch F c path w =
     (case read_file F path w of
        Inl err \<Rightarrow> (Inl (ErrWrap (''read '' @ path) err), w)
      | Inr raw \<Rightarrow> (Inr (trim_space raw), w))"

section \<open>Vault\<close>

definition vaultMaxResponseBytes :: nat where "vaultMaxResponseBytes = 10 * 2 ^ 20"
definition secretField :: string where "secretField = ''key''"
definition defaultTokenPath :: string where
  "defaultTokenPath = ''/var/run/secrets/kubernetes.io/serviceaccount/token''"

record VaultConfig =
  VAddress :: string
  VRole :: string
  VAuthPath :: string
  VTokenPath :: string

record Vault =
  address :: string
  role :: string
  authPath :: string
  tokenPath :: string
  token :: string

definition NewVault :: "VaultConfig \<Rightarrow> go_error + Vault" where
  "NewVault vc =
     (if VAddress vc = '''' then Inl (ErrText ''providerkeys: vault address is required'')
      else if VRole vc = '''' then Inl (ErrText ''providerkeys: vault role is required'')
      else if VAuthPath vc = '''' then Inl (ErrText ''providerkeys: vault auth path is required'')
      else Inr \<lparr>address = trim_suffix (VAddress vc) ''/'', role = VRole vc,
             authPath = trim_func (\<lambda>x. x = CHR ''/'') (VAuthPath vc),
             tokenPath = (if VTokenPath vc = '''' then defaultTokenPath else VTokenPath vc), token = ''''\<rparr>)"

text \<open>A map keeps what it holds and takes the members of an object on top; \<open>null\<close> clears it.\<close>

fun store_map :: "'a dec \<Rightarrow> (string \<times> 'a) list \<Rightarrow> json \<Rightarrow> (string \<times> 'a) list option" where
  "store_map d old JNull = Some []"
| "store_map d old (JObj kvs) =
     map_option (\<lambda>new. old @ new) (all_some (map (\<lambda>(k, v). map_option (Pair k) (d [v])) kvs))"
| "store_map d old _ = None"

definition dec_map :: "'a dec \<Rightarrow> (string \<times> 'a) list dec" where
  "dec_map d = dec_from (store_map d) []"

text \<open>The secret below \<open>data.data\<close>; of a repeated name the last value counts.\<close>

definition dec_secret :: "(string \<times> string) list dec" where
  "dec_secret = fld ''data'' (fld ''data'' (dec_map dec_string))"

text \<open>\<open>read\<close> reports the status beside the key or the error; 0 before there is one.\<close>

definition key_of_reply :: "'w Web \<Rightarrow> string \<Rightarrow> web_reply \<Rightarrow> go_error + string" where
  "key_of_reply W path r =
     (case read_all vaultMaxResponseBytes r of
        Inl err \<Rightarrow> Inl (ErrWrap (''vault read '' @ path) err)
      | Inr raw \<Rightarrow>
          if wr_status r \<noteq> 200 then Inl (ErrText (''vault read '' @ path @ '': status '' @ itoa (wr_status r)))
          else case unmarshal (web_codec W) dec_secret raw of
            Inl err \<Rightarrow> Inl (ErrWrap (''vault read '' @ path @ '': decode'') err)
          | Inr secret \<Rightarrow>
              (case map_of (rev secret) secretField of
                 None \<Rightarrow> Inl (ErrText (''vault read '' @ path @ '': secret has no '' @ quote secretField @ '' field''))
               | Some k \<Rightarrow> Inr k))"

definition vault_read ::
  "'w Web \<Rightarrow> Vault \<Rightarrow> ctx \<Rightarrow> string \<Rightarrow> string \<Rightarrow> 'w \<Rightarrow> ((go_error + string) \<times> int) \<times> 'w" where
  "vault_read W V c path tok w =
     (let url = address V @ ''/v1/'' @ trim_prefix path ''/''
      in case web_bad W url of
           Some err \<Rightarrow> ((Inl (ErrWrap ''build vault read'' err), 0), w)
         | None \<Rightarrow>
             (case web_do W c \<lparr>wr_method = ''GET'', wr_url = url, wr_headers = [(''X-Vault-Token'', tok)],
                    wr_body = ''''\<rparr> w of
                (Inl err, w) \<Rightarrow> ((Inl (ErrWrap (''vault read '' @ path) err), 0), w)
              | (Inr r, w) \<Rightarrow> ((key_of_reply W path r, wr_status r), w)))"

definition token_of_reply :: "'w Web \<Rightarrow> web_reply \<Rightarrow> go_error + string" where
  "token_of_reply W r =
     (case read_all vaultMaxResponseBytes r of
        Inl err \<Rightarrow> Inl (ErrWrap ''vault login'' err)
      | Inr raw \<Rightarrow>
          if wr_status r \<noteq> 200 then Inl (ErrText (''vault login: status '' @ itoa (wr_status r)))
          else case unmarshal (web_codec W) (fld ''auth'' (fld ''client_token'' dec_string)) raw of
            Inl err \<Rightarrow> Inl (ErrWrap ''vault login: decode'' err)
          | Inr tok \<Rightarrow>
              if tok = '''' then Inl (ErrText ''vault login: response carried no client token'') else Inr tok)"

text \<open>The login body; \<open>json.Marshal\<close> writes the keys of a map in order and cannot fail on strings.\<close>

definition login_body :: "'w Web \<Rightarrow> Vault \<Rightarrow> string \<Rightarrow> string" where
  "login_body W V jwt =
     json_text (web_codec W) (JObj [(''jwt'', JStr (trim_space jwt)), (''role'', JStr (role V))])"

definition reauthenticate ::
  "'w Web \<Rightarrow> 'w Files \<Rightarrow> ctx \<Rightarrow> Vault \<times> 'w \<Rightarrow> (go_error + string) \<times> Vault \<times> 'w" where
  "reauthenticate W F c Vw =
     (let (V, w) = Vw
      in case read_file F (tokenPath V) w of
           Inl err \<Rightarrow> (Inl (ErrWrap ''read serviceaccount token'' err), V, w)
         | Inr jwt \<Rightarrow>
             let url = address V @ ''/v1/'' @ authPath V @ ''/login''
             in case web_bad W url of
                  Some err \<Rightarrow> (Inl (ErrWrap ''build vault login'' err), V, w)
                | None \<Rightarrow>
                    (case web_do W c \<lparr>wr_method = ''POST'', wr_url = url,
                           wr_headers = [(''Content-Type'', ''application/json'')], wr_body = login_body W V jwt\<rparr> w of
                       (Inl err, w) \<Rightarrow> (Inl (ErrWrap ''vault login'' err), V, w)
                     | (Inr r, w) \<Rightarrow>
                         (case token_of_reply W r of
                            Inl err \<Rightarrow> (Inl err, V, w)
                          | Inr tok \<Rightarrow> (Inr tok, V\<lparr>token := tok\<rparr>, w))))"

definition currentToken ::
  "'w Web \<Rightarrow> 'w Files \<Rightarrow> ctx \<Rightarrow> Vault \<times> 'w \<Rightarrow> (go_error + string) \<times> Vault \<times> 'w" where
  "currentToken W F c Vw =
     (if token (fst Vw) \<noteq> '''' then (Inr (token (fst Vw)), Vw) else reauthenticate W F c Vw)"

definition vault_Fetch :: "'w Web \<Rightarrow> 'w Files \<Rightarrow> (Vault \<times> 'w) Fetcher" where
  "vault_Fetch W F c path Vw =
     (case currentToken W F c Vw of
        (Inl err, Vw) \<Rightarrow> (Inl err, Vw)
      | (Inr tok, V, w) \<Rightarrow>
          (case vault_read W V c path tok w of
             ((Inr k, status), w) \<Rightarrow> (Inr k, V, w)
           | ((Inl err, status), w) \<Rightarrow>
               if status \<noteq> 403 \<and> status \<noteq> 401 then (Inl err, V, w)
               else case reauthenticate W F c (V, w) of
                 (Inl err, Vw) \<Rightarrow> (Inl err, Vw)
               | (Inr tok, V, w) \<Rightarrow>
                   (case vault_read W V c path tok w of ((res, status), w) \<Rightarrow> (res, V, w))))"

end
