(* ===== verification/Metrics.thy ===== *)
theory Metrics
  imports Ports ApiServer ProviderKeys
begin

text \<open>
  \<open>internal/metrics/gateway\<close>, \<open>internal/metrics/api\<close> and \<open>internal/metrics/providerkeys\<close>: the
  counting decorators. Each holds its counters in the process's memory and forwards every call.

  A decorator is a function from the port it wraps to a port of the same type. Its counters are
  a struct somewhere in the world; \<open>tick\<close> is how the world is updated there, so it is an
  argument of the decorator (for a record of all structs it is the update function of a field).
  Counters are \<open>atomic.Int64\<close>: an addition wraps.
\<close>

section \<open>Keyed counters\<close>

text \<open>\<open>keyedCounter\<close>: the map written once by \<open>newKeyedCounter\<close>, as an association list.\<close>

type_synonym 'k keyedCounter = "('k \<times> int) list"

definition newKeyedCounter :: "'k list \<Rightarrow> 'k keyedCounter" where
  "newKeyedCounter keys = fold (\<lambda>k. AList.update k 0) keys []"

definition kadd :: "'k \<Rightarrow> int \<Rightarrow> 'k keyedCounter \<Rightarrow> 'k keyedCounter" where
  "kadd key n c = AList.map_entry key (\<lambda>v. i64 (v + n)) c"

definition kget :: "'k keyedCounter \<Rightarrow> 'k \<Rightarrow> int" where
  "kget c key = (case map_of c key of None \<Rightarrow> 0 | Some v \<Rightarrow> v)"

definition ktotal :: "'k keyedCounter \<Rightarrow> int" where
  "ktotal c = fold (\<lambda>(_, v) sum. i64 (sum + v)) c 0"

definition ErrorCodes :: "ErrorCode list" where
  "ErrorCodes = [CodeInvalidRequest, CodeUnauthorized, CodeQuotaExceeded, CodeConcurrencyCeiling,
     CodeUpstreamFailed, CodeModelUnavailable, CodeGatewayTimeout]"

definition KindUnclassified :: FaultKind where
  "KindUnclassified = FaultOther ''unclassified''"

definition FaultKinds :: "FaultKind list" where
  "FaultKinds = [FaultUnreachable, FaultTimeout, FaultServerError, FaultThrottled, FaultBadResponse,
     FaultRejected, KindUnclassified]"

definition appCodeKeys :: "string list \<Rightarrow> (string \<times> ErrorCode) list" where
  "appCodeKeys names = concat (map (\<lambda>a. map (\<lambda>c. (a, c)) ErrorCodes) names)"

definition providerKindKeys :: "string list \<Rightarrow> (string \<times> FaultKind) list" where
  "providerKindKeys names = concat (map (\<lambda>p. map (\<lambda>k. (p, k)) FaultKinds) names)"

section \<open>One decorator per port\<close>

type_synonym ('m, 'w) tick = "('m \<Rightarrow> 'm) \<Rightarrow> 'w \<Rightarrow> 'w"

record dir_counts =
  dir_resolved :: int
  dir_refused :: int

definition count_lookup :: "bool \<Rightarrow> dir_counts \<Rightarrow> dir_counts" where
  "count_lookup ok m =
     (if ok then m\<lparr>dir_resolved := i64 (dir_resolved m + 1)\<rparr>
      else m\<lparr>dir_refused := i64 (dir_refused m + 1)\<rparr>)"

definition metered_AppForKey :: "(dir_counts, 'w) tick \<Rightarrow> 'w AppDirectory \<Rightarrow> 'w AppDirectory" where
  "metered_AppForKey tick next c key w =
     (let (app, w) = next c key w in (app, tick (count_lookup (app \<noteq> None)) w))"

record rate_counts =
  rc_allowed :: int
  rc_denied :: int
  rc_failOpen :: int

definition count_decision :: "go_error + RateDecision \<Rightarrow> rate_counts \<Rightarrow> rate_counts" where
  "count_decision r m =
     (case r of
        Inl _ \<Rightarrow> m\<lparr>rc_failOpen := i64 (rc_failOpen m + 1)\<rparr>
      | Inr d \<Rightarrow> if Allowed d then m\<lparr>rc_allowed := i64 (rc_allowed m + 1)\<rparr>
               else m\<lparr>rc_denied := i64 (rc_denied m + 1)\<rparr>)"

definition metered_Allow :: "(rate_counts, 'w) tick \<Rightarrow> 'w RateCheck \<Rightarrow> 'w RateCheck" where
  "metered_Allow tick next c app w = (let (r, w) = next c app w in (r, tick (count_decision r) w))"

record token_counts =
  tc_allowed :: int
  tc_denied :: int
  tc_failOpen :: int
  tc_debited :: int
  tc_debitsFailed :: int

definition count_check :: "go_error + RateDecision \<Rightarrow> token_counts \<Rightarrow> token_counts" where
  "count_check r m =
     (case r of
        Inl _ \<Rightarrow> m\<lparr>tc_failOpen := i64 (tc_failOpen m + 1)\<rparr>
      | Inr d \<Rightarrow> if Allowed d then m\<lparr>tc_allowed := i64 (tc_allowed m + 1)\<rparr>
               else m\<lparr>tc_denied := i64 (tc_denied m + 1)\<rparr>)"

definition metered_Check :: "(token_counts, 'w) tick \<Rightarrow> 'w RateCheck \<Rightarrow> 'w RateCheck" where
  "metered_Check tick next c app w = (let (r, w) = next c app w in (r, tick (count_check r) w))"

definition count_debit :: "go_error option \<Rightarrow> int \<Rightarrow> token_counts \<Rightarrow> token_counts" where
  "count_debit err tokens m =
     (case err of
        Some _ \<Rightarrow> m\<lparr>tc_debitsFailed := i64 (tc_debitsFailed m + 1)\<rparr>
      | None \<Rightarrow> m\<lparr>tc_debited := i64 (tc_debited m + tokens)\<rparr>)"

definition metered_Settle :: "(token_counts, 'w) tick \<Rightarrow> 'w Settler \<Rightarrow> 'w Settler" where
  "metered_Settle tick next c app tokens w =
     (let (err, w) = next c app tokens w in (err, tick (count_debit err tokens) w))"

record slot_counts =
  sl_apps :: "string list"
  sl_acquired :: "string keyedCounter"
  sl_refused :: "string keyedCounter"

definition NewSlotCounts :: "string list \<Rightarrow> slot_counts" where
  "NewSlotCounts names =
     (let own = sort names
      in \<lparr>sl_apps = own, sl_acquired = newKeyedCounter own, sl_refused = newKeyedCounter own\<rparr>)"

definition count_claim :: "string \<Rightarrow> bool \<Rightarrow> slot_counts \<Rightarrow> slot_counts" where
  "count_claim app ok m =
     (if ok then m\<lparr>sl_acquired := kadd app 1 (sl_acquired m)\<rparr>
      else m\<lparr>sl_refused := kadd app 1 (sl_refused m)\<rparr>)"

fun granted :: "'w SlotGrant \<Rightarrow> bool" where
  "granted (Granted _) = True"
| "granted (Refused _) = False"

definition metered_TryAcquire :: "(slot_counts, 'w) tick \<Rightarrow> 'w SlotLimiter \<Rightarrow> 'w SlotLimiter" where
  "metered_TryAcquire tick next app w =
     (let (g, w) = next app w in (g, tick (count_claim app (granted g)) w))"

definition Acquired :: "slot_counts \<Rightarrow> int" where
  "Acquired m = ktotal (sl_acquired m)"

definition AcquiredByApp :: "slot_counts \<Rightarrow> string \<Rightarrow> int" where
  "AcquiredByApp m app = kget (sl_acquired m) app"

definition RefusedClaims :: "slot_counts \<Rightarrow> int" where
  "RefusedClaims m = ktotal (sl_refused m)"

definition RefusedByApp :: "slot_counts \<Rightarrow> string \<Rightarrow> int" where
  "RefusedByApp m app = kget (sl_refused m) app"

record provider_counts =
  pc_providers :: "string list"
  pc_attempts :: "string keyedCounter"
  pc_failures :: "(string \<times> FaultKind) keyedCounter"

definition NewProviderCounts :: "string list \<Rightarrow> provider_counts" where
  "NewProviderCounts names =
     (let own = sort names
      in \<lparr>pc_providers = own, pc_attempts = newKeyedCounter own,
          pc_failures = newKeyedCounter (providerKindKeys own)\<rparr>)"

definition faultKind :: "go_error \<Rightarrow> FaultKind" where
  "faultKind err = (case as_fault err of Some (k, _, _) \<Rightarrow> k | None \<Rightarrow> KindUnclassified)"

definition count_attempt :: "string \<Rightarrow> go_error + Completion \<Rightarrow> provider_counts \<Rightarrow> provider_counts" where
  "count_attempt p r m =
     (let m = m\<lparr>pc_attempts := kadd p 1 (pc_attempts m)\<rparr>
      in case r of Inr _ \<Rightarrow> m
         | Inl err \<Rightarrow> m\<lparr>pc_failures := kadd (p, faultKind err) 1 (pc_failures m)\<rparr>)"

definition metered_Complete :: "(provider_counts, 'w) tick \<Rightarrow> 'w ProviderClient \<Rightarrow> 'w ProviderClient" where
  "metered_Complete tick next c mp req w =
     (let (r, w) = next c mp req w in (r, tick (count_attempt (Provider mp) r) w))"

definition Attempts :: "provider_counts \<Rightarrow> int" where
  "Attempts m = ktotal (pc_attempts m)"

definition AttemptsByProvider :: "provider_counts \<Rightarrow> string \<Rightarrow> int" where
  "AttemptsByProvider m p = kget (pc_attempts m) p"

definition Failures :: "provider_counts \<Rightarrow> int" where
  "Failures m = ktotal (pc_failures m)"

definition FailuresBy :: "provider_counts \<Rightarrow> string \<Rightarrow> FaultKind \<Rightarrow> int" where
  "FailuresBy m p k = kget (pc_failures m) (p, k)"

section \<open>The usage recorder\<close>

record usage_counts =
  us_apps :: "string list"
  us_completions :: "string keyedCounter"
  us_failedOvers :: "string keyedCounter"
  us_promptTokens :: "string keyedCounter"
  us_completionTokens :: "string keyedCounter"
  us_rejections :: "(string \<times> ErrorCode) keyedCounter"
  us_failOpens :: "string keyedCounter"
  us_doubleSpendRisks :: "string keyedCounter"
  us_doubleSpendTokens :: "string keyedCounter"
  us_disconnects :: "string keyedCounter"
  us_disconnectTokens :: "string keyedCounter"

definition NewUsageCounts :: "string list \<Rightarrow> usage_counts" where
  "NewUsageCounts names =
     (let own = sort names
      in \<lparr>us_apps = own,
          us_completions = newKeyedCounter own, us_failedOvers = newKeyedCounter own,
          us_promptTokens = newKeyedCounter own, us_completionTokens = newKeyedCounter own,
          us_rejections = newKeyedCounter (appCodeKeys own),
          us_failOpens = newKeyedCounter own,
          us_doubleSpendRisks = newKeyedCounter own, us_doubleSpendTokens = newKeyedCounter own,
          us_disconnects = newKeyedCounter own, us_disconnectTokens = newKeyedCounter own\<rparr>)"

definition addEstimate :: "string \<Rightarrow> int \<Rightarrow> string keyedCounter \<Rightarrow> string keyedCounter" where
  "addEstimate app tokens c = (if tokens > 0 then kadd app tokens c else c)"

text \<open>What the five methods do before they forward the call.\<close>

fun count_usage :: "UsageEvent \<Rightarrow> usage_counts \<Rightarrow> usage_counts" where
  "count_usage (RecordCompletion app mp u latency failedOver) m =
     (let m = m\<lparr>us_completions := kadd app 1 (us_completions m),
                us_promptTokens := kadd app (PromptTokens u) (us_promptTokens m),
                us_completionTokens := kadd app (CompletionTokens u) (us_completionTokens m)\<rparr>
      in if failedOver then m\<lparr>us_failedOvers := kadd app 1 (us_failedOvers m)\<rparr> else m)"
| "count_usage (RecordRejection app code) m =
     m\<lparr>us_rejections := kadd (app, code) 1 (us_rejections m)\<rparr>"
| "count_usage (RecordRateLimiterFailOpen app) m =
     m\<lparr>us_failOpens := kadd app 1 (us_failOpens m)\<rparr>"
| "count_usage (RecordDoubleSpendRisk app mp estimate) m =
     m\<lparr>us_doubleSpendRisks := kadd app 1 (us_doubleSpendRisks m),
       us_doubleSpendTokens := addEstimate app estimate (us_doubleSpendTokens m)\<rparr>"
| "count_usage (RecordClientDisconnect app mp estimate) m =
     m\<lparr>us_disconnects := kadd app 1 (us_disconnects m),
       us_disconnectTokens := addEstimate app estimate (us_disconnectTokens m)\<rparr>"

definition metered_Record :: "(usage_counts, 'w) tick \<Rightarrow> 'w UsageRecorder \<Rightarrow> 'w UsageRecorder" where
  "metered_Record tick next e w = next e (tick (count_usage e) w)"

text \<open>What the exporter reads back: the count of one key, and the sum over all of them.\<close>

definition Completions :: "usage_counts \<Rightarrow> int" where
  "Completions m = ktotal (us_completions m)"

definition CompletionsByApp :: "usage_counts \<Rightarrow> string \<Rightarrow> int" where
  "CompletionsByApp m app = kget (us_completions m) app"

definition FailedOvers :: "usage_counts \<Rightarrow> int" where
  "FailedOvers m = ktotal (us_failedOvers m)"

definition FailedOversByApp :: "usage_counts \<Rightarrow> string \<Rightarrow> int" where
  "FailedOversByApp m app = kget (us_failedOvers m) app"

definition PromptTokensTotal :: "usage_counts \<Rightarrow> int" where
  "PromptTokensTotal m = ktotal (us_promptTokens m)"

definition PromptTokensByApp :: "usage_counts \<Rightarrow> string \<Rightarrow> int" where
  "PromptTokensByApp m app = kget (us_promptTokens m) app"

definition CompletionTokensTotal :: "usage_counts \<Rightarrow> int" where
  "CompletionTokensTotal m = ktotal (us_completionTokens m)"

definition CompletionTokensByApp :: "usage_counts \<Rightarrow> string \<Rightarrow> int" where
  "CompletionTokensByApp m app = kget (us_completionTokens m) app"

definition Rejections :: "usage_counts \<Rightarrow> int" where
  "Rejections m = ktotal (us_rejections m)"

definition RejectionsBy :: "usage_counts \<Rightarrow> string \<Rightarrow> ErrorCode \<Rightarrow> int" where
  "RejectionsBy m app code = kget (us_rejections m) (app, code)"

definition RateLimiterFailOpens :: "usage_counts \<Rightarrow> int" where
  "RateLimiterFailOpens m = ktotal (us_failOpens m)"

definition RateLimiterFailOpensByApp :: "usage_counts \<Rightarrow> string \<Rightarrow> int" where
  "RateLimiterFailOpensByApp m app = kget (us_failOpens m) app"

definition DoubleSpendRisks :: "usage_counts \<Rightarrow> int" where
  "DoubleSpendRisks m = ktotal (us_doubleSpendRisks m)"

definition DoubleSpendRisksByApp :: "usage_counts \<Rightarrow> string \<Rightarrow> int" where
  "DoubleSpendRisksByApp m app = kget (us_doubleSpendRisks m) app"

definition DoubleSpendTokens :: "usage_counts \<Rightarrow> int" where
  "DoubleSpendTokens m = ktotal (us_doubleSpendTokens m)"

definition DoubleSpendTokensByApp :: "usage_counts \<Rightarrow> string \<Rightarrow> int" where
  "DoubleSpendTokensByApp m app = kget (us_doubleSpendTokens m) app"

definition ClientDisconnects :: "usage_counts \<Rightarrow> int" where
  "ClientDisconnects m = ktotal (us_disconnects m)"

definition ClientDisconnectsByApp :: "usage_counts \<Rightarrow> string \<Rightarrow> int" where
  "ClientDisconnectsByApp m app = kget (us_disconnects m) app"

definition ClientDisconnectTokens :: "usage_counts \<Rightarrow> int" where
  "ClientDisconnectTokens m = ktotal (us_disconnectTokens m)"

definition ClientDisconnectTokensByApp :: "usage_counts \<Rightarrow> string \<Rightarrow> int" where
  "ClientDisconnectTokensByApp m app = kget (us_disconnectTokens m) app"

section \<open>Credential refreshes\<close>

record refresh_counts =
  rf_refreshes :: int
  rf_failures :: int

definition count_refresh :: "go_error option \<Rightarrow> refresh_counts \<Rightarrow> refresh_counts" where
  "count_refresh err m =
     (let m = m\<lparr>rf_refreshes := i64 (rf_refreshes m + 1)\<rparr>
      in if err \<noteq> None then m\<lparr>rf_failures := i64 (rf_failures m + 1)\<rparr> else m)"

definition metered_Refresh :: "(refresh_counts, 'w) tick \<Rightarrow> 'w Refresher \<Rightarrow> 'w Refresher" where
  "metered_Refresh tick next c p Cw =
     (let (err, C, w) = next c p Cw in (err, C, tick (count_refresh err) w))"

text \<open>\<open>TriggerCounter\<close>: a map that grows with the names it is given.\<close>

definition Triggered :: "(string \<times> int) list \<Rightarrow> string \<Rightarrow> int" where
  "Triggered m p = (case map_of m p of None \<Rightarrow> 0 | Some n \<Rightarrow> n)"

definition Trigger :: "string \<Rightarrow> (string \<times> int) list \<Rightarrow> (string \<times> int) list" where
  "Trigger p m = AList.update p (i64 (Triggered m p + 1)) m"

section \<open>The HTTP edge\<close>

record request_counts =
  rq_requests :: int
  rq_serverErrors :: int

text \<open>
  \<open>statusRecorder\<close>: the status of the last \<open>WriteHeader\<close> call made through it, 200 when there
  was none.
\<close>

definition recorded_status :: "Response \<Rightarrow> Response \<Rightarrow> int" where
  "recorded_status before after =
     (let asked = drop (length (rs_asked before)) (rs_asked after)
      in if asked = [] then 200 else last asked)"

definition count_response :: "int \<Rightarrow> request_counts \<Rightarrow> request_counts" where
  "count_response status m =
     (let m = m\<lparr>rq_requests := i64 (rq_requests m + 1)\<rparr>
      in if status \<ge> 500 then m\<lparr>rq_serverErrors := i64 (rq_serverErrors m + 1)\<rparr> else m)"

definition RequestMetrics_Wrap :: "(request_counts, 'w) tick \<Rightarrow> 'w middleware" where
  "RequestMetrics_Wrap tick next r st =
     (case next r st of
        (True, w, rs) \<Rightarrow> (True, w, rs)
      | (False, w, rs) \<Rightarrow> (False, tick (count_response (recorded_status (snd st) rs)) w, rs))"

definition PanicCounter_Wrap :: "(int, 'w) tick \<Rightarrow> 'w middleware" where
  "PanicCounter_Wrap tick next r st =
     (case next r st of
        (True, w, rs) \<Rightarrow> (True, tick (\<lambda>n. i64 (n + 1)) w, rs)
      | (False, w, rs) \<Rightarrow> (False, w, rs))"

end
