(* ===== verification/Logs.thy ===== *)
theory Logs
  imports Ports ApiServer ProviderKeys
begin

text \<open>
  \<open>internal/logs\<close>: the logging decorators, one per port, and the recorder that turns usage
  facts into lines. A logger is what \<open>slog\<close> does with a line; it answers nothing, so a decorator
  can only add lines. The \<open>OrDefault\<close> of a nil logger has been resolved by then. Panic values
  and stacks are not in the model and are logged as \<open>AOpaque\<close>.
\<close>

datatype level = LDebug | LInfo | LWarn | LError

datatype attr = AStr string | ANum int | ABool bool | ADur int | AErr "go_error option" | AOpaque

record line =
  ln_level :: level
  ln_msg :: string
  ln_attrs :: "(string \<times> attr) list"

type_synonym 'w logger = "line \<Rightarrow> 'w \<Rightarrow> 'w"

text \<open>
  Levels are ordered as \<open>slog\<close> numbers them. The handler \<open>run\<close> makes with no options of its own
  shows a line from \<open>LInfo\<close> on.
\<close>

primrec severity :: "level \<Rightarrow> int" where
  "severity LDebug = -4"
| "severity LInfo = 0"
| "severity LWarn = 4"
| "severity LError = 8"

lemma severity_inj: "severity a = severity b \<Longrightarrow> a = b"
  by (cases a; cases b) simp_all

instantiation level :: linorder
begin

definition less_eq_level :: "level \<Rightarrow> level \<Rightarrow> bool" where
  "less_eq_level a b \<longleftrightarrow> severity a \<le> severity b"

definition less_level :: "level \<Rightarrow> level \<Rightarrow> bool" where
  "less_level a b \<longleftrightarrow> severity a < severity b"

instance
  by standard (auto simp: less_eq_level_def less_level_def intro: severity_inj)

end

definition shown :: "line \<Rightarrow> bool" where
  "shown l \<longleftrightarrow> LInfo \<le> ln_level l"

definition log_line :: "level \<Rightarrow> string \<Rightarrow> (string \<times> attr) list \<Rightarrow> line" where
  "log_line l m as = \<lparr>ln_level = l, ln_msg = m, ln_attrs = as\<rparr>"

section \<open>The ports of the core\<close>

definition logged_AppForKey :: "'w logger \<Rightarrow> 'w AppDirectory \<Rightarrow> 'w AppDirectory" where
  "logged_AppForKey lg next c key w =
     (let (app, w) = next c key w
      in (app, if app = None then lg (log_line LWarn ''request refused: api key not recognized'' []) w else w))"

definition logged_Complete :: "('w \<Rightarrow> int) \<Rightarrow> 'w logger \<Rightarrow> 'w ProviderClient \<Rightarrow> 'w ProviderClient" where
  "logged_Complete now lg next c mp req w0 =
     (case next c mp req w0 of
        (Inl err, w) \<Rightarrow>
          (Inl err, lg (log_line LWarn ''provider attempt failed''
             ([(''provider'', AStr (Provider mp)), (''model'', AStr (MPModel mp)),
               (''elapsed'', ADur (now w - now w0))] @
              (case as_fault err of
                 Some (k, _, cause) \<Rightarrow> [(''kind'', AStr (fault_string k)), (''cause'', AErr cause)]
               | None \<Rightarrow> [(''cause'', AErr (Some err))]))) w)
      | (Inr completion, w) \<Rightarrow>
          (Inr completion, lg (log_line LDebug ''provider attempt served''
             [(''provider'', AStr (Provider mp)), (''model'', AStr (MPModel mp)),
              (''elapsed'', ADur (now w - now w0)),
              (''total_tokens'', ANum (TotalTokens (CUsage completion)))]) w))"

definition logged_Allow :: "'w logger \<Rightarrow> 'w RateCheck \<Rightarrow> 'w RateCheck" where
  "logged_Allow lg next c app w =
     (case next c app w of
        (Inl err, w) \<Rightarrow>
          (Inl err, lg (log_line LError ''rate limiter down, quota unenforced''
             [(''app'', AStr app), (''cause'', AErr (Some err))]) w)
      | (Inr d, w) \<Rightarrow> (Inr d, w))"

definition logged_Check :: "'w logger \<Rightarrow> 'w RateCheck \<Rightarrow> 'w RateCheck" where
  "logged_Check lg next c app w =
     (case next c app w of
        (Inl err, w) \<Rightarrow>
          (Inl err, lg (log_line LError ''token limiter down, budget unenforced''
             [(''app'', AStr app), (''cause'', AErr (Some err))]) w)
      | (Inr d, w) \<Rightarrow> (Inr d, w))"

definition logged_Settle :: "'w logger \<Rightarrow> 'w Settler \<Rightarrow> 'w Settler" where
  "logged_Settle lg next c app tokens w =
     (case next c app tokens w of
        (Some err, w) \<Rightarrow>
          (Some err, lg (log_line LError ''token debit lost, budget under-counted''
             [(''app'', AStr app), (''tokens'', ANum tokens), (''cause'', AErr (Some err))]) w)
      | (None, w) \<Rightarrow> (None, w))"

definition logged_TryAcquire :: "'w logger \<Rightarrow> 'w SlotLimiter \<Rightarrow> 'w SlotLimiter" where
  "logged_TryAcquire lg next app w =
     (case next app w of
        (Refused cap, w) \<Rightarrow>
          (Refused cap, lg (log_line LWarn ''in-flight ceiling refused a slot''
             [(''app'', AStr app), (''ceiling'', ANum cap)]) w)
      | (Granted rel, w) \<Rightarrow> (Granted rel, w))"

text \<open>\<open>UsageRecorder\<close>: a sink; each of its five methods is one line.\<close>

fun usage_line :: "UsageEvent \<Rightarrow> line" where
  "usage_line (RecordCompletion app mp u latency failedOver) =
     log_line LInfo ''completion served''
       [(''app'', AStr app), (''provider'', AStr (Provider mp)), (''model'', AStr (MPModel mp)),
        (''prompt_tokens'', ANum (PromptTokens u)), (''completion_tokens'', ANum (CompletionTokens u)),
        (''latency'', ADur latency), (''failed_over'', ABool failedOver)]"
| "usage_line (RecordRejection app code) =
     log_line LInfo ''request rejected'' [(''app'', AStr app), (''code'', AStr (code_string code))]"
| "usage_line (RecordRateLimiterFailOpen app) =
     log_line LWarn ''request admitted unmetered'' [(''app'', AStr app)]"
| "usage_line (RecordDoubleSpendRisk app mp estimate) =
     log_line LWarn ''failover risks double spend''
       [(''app'', AStr app), (''provider'', AStr (Provider mp)), (''model'', AStr (MPModel mp)),
        (''estimated_tokens'', ANum estimate)]"
| "usage_line (RecordClientDisconnect app mp estimate) =
     log_line LWarn ''caller disconnected mid-request''
       [(''app'', AStr app), (''provider'', AStr (Provider mp)), (''model'', AStr (MPModel mp)),
        (''estimated_tokens'', ANum estimate)]"

definition logging_Record :: "'w logger \<Rightarrow> 'w UsageRecorder" where
  "logging_Record lg e w = lg (usage_line e) w"

section \<open>Background refreshes\<close>

definition logged_KeyRefresh :: "'w logger \<Rightarrow> 'w Refresher \<Rightarrow> 'w Refresher" where
  "logged_KeyRefresh lg next c p Cw =
     (case next c p Cw of
        (Some err, C, w) \<Rightarrow>
          (Some err, C, lg (log_line LWarn ''provider key refresh failed; serving the cached credential''
             [(''provider'', AStr p), (''err'', AStr (error_text err))]) w)
      | (None, C, w) \<Rightarrow> (None, C, w))"

definition logged_JWKSRefresh :: "'w logger \<Rightarrow> (ctx \<Rightarrow> 'w \<Rightarrow> go_error option \<times> 'w) \<Rightarrow> ctx \<Rightarrow> 'w \<Rightarrow> go_error option \<times> 'w" where
  "logged_JWKSRefresh lg next c w =
     (case next c w of
        (Some err, w) \<Rightarrow>
          (Some err, lg (log_line LWarn ''jwks refresh failed; verifying against cached signing keys''
             [(''err'', AStr (error_text err))]) w)
      | (None, w) \<Rightarrow> (None, w))"

section \<open>The HTTP edge\<close>

text \<open>The core's answer; \<open>None\<close> is a panic, which no decorator of this kind stops.\<close>

definition logged_Chat ::
  "'w logger \<Rightarrow> (ctx \<Rightarrow> string \<Rightarrow> ChatRequest \<Rightarrow> 'w \<Rightarrow> (go_error + ChatResult) option \<times> 'w)
     \<Rightarrow> ctx \<Rightarrow> string \<Rightarrow> ChatRequest \<Rightarrow> 'w \<Rightarrow> (go_error + ChatResult) option \<times> 'w" where
  "logged_Chat lg next c key req w =
     (case next c key req w of
        (Some (Inl err), w) \<Rightarrow>
          (Some (Inl err),
           if as_gateway err = None \<and> \<not> is_ctx Canceled err then
             lg (log_line LError ''chat: unclassified core error'' [(''err'', AErr (Some err))]) w
           else w)
      | (Some (Inr res), w) \<Rightarrow> (Some (Inr res), w)
      | (None, w) \<Rightarrow> (None, w))"

definition logged_Ready ::
  "'w logger \<Rightarrow> (ctx \<Rightarrow> 'w \<Rightarrow> go_error option \<times> 'w) \<Rightarrow> ctx \<Rightarrow> 'w \<Rightarrow> go_error option \<times> 'w" where
  "logged_Ready lg next c w =
     (case next c w of
        (Some err, w) \<Rightarrow>
          (Some err, lg (log_line LWarn ''readiness refused'' [(''reason'', AStr (error_text err))]) w)
      | (None, w) \<Rightarrow> (None, w))"

definition logged_Live :: "('w \<Rightarrow> go_error option \<times> 'w) \<Rightarrow> 'w \<Rightarrow> go_error option \<times> 'w" where
  "logged_Live next w = next w"

text \<open>
  Both handlers read the correlation id from the response's headers. \<open>statusRecorder\<close> keeps the
  status of the last \<open>WriteHeader\<close> call made through it, 200 when there was none.
\<close>

definition logged_status :: "Response \<Rightarrow> Response \<Rightarrow> int" where
  "logged_status before after =
     (let asked = drop (length (rs_asked before)) (rs_asked after)
      in if asked = [] then 200 else last asked)"

definition RequestLogger :: "('w \<Rightarrow> int) \<Rightarrow> 'w logger \<Rightarrow> 'w middleware" where
  "RequestLogger now lg next r st =
     (case next r st of
        (True, w, rs) \<Rightarrow> (True, w, rs)
      | (False, w, rs) \<Rightarrow>
          (False, lg (log_line LInfo ''request served''
             [(''method'', AStr (rq_method r)), (''path'', AStr (rq_path r)),
              (''status'', ANum (logged_status (snd st) rs)),
              (''duration_ms'', ANum ((now w - now (fst st)) sdiv 1000000)),
              (''correlation_id'', AStr (header_get ''X-Correlation-ID'' (rs_headers rs)))]) w, rs))"

definition PanicLogger :: "'w logger \<Rightarrow> 'w middleware" where
  "PanicLogger lg next r st =
     (case next r st of
        (True, w, rs) \<Rightarrow>
          (True, lg (log_line LError ''handler panicked''
             [(''panic'', AOpaque),
              (''correlation_id'', AStr (header_get ''X-Correlation-ID'' (rs_headers rs))),
              (''stack'', AOpaque)]) w, rs)
      | (False, w, rs) \<Rightarrow> (False, w, rs))"

end
