(* ===== verification/Observe.thy ===== *)
theory Observe
  imports Metrics Logs ChatProps
begin

text \<open>
  What the decorators around the core do and do not change. Two contracts: a service that
  simulates another through a projection of its world (\<open>service_simulation\<close>), and a service of
  whose world a part moves only with the calls of the ports (\<open>call_counter\<close>). \<open>newCore\<close> is the
  composition \<open>run\<close> makes in \<open>cmd/gateway/main.go\<close>.
\<close>

section \<open>Simulation\<close>

locale service_simulation =
  fixes s :: "'a Service" and t :: "'b Service" and proj :: "'b \<Rightarrow> 'a"
  assumes cfg_sim: "cfg t = cfg s"
    and clock_sim: "clock t W = clock s (proj W)"
    and apps_sim: "apps t c k W = (a, W1) \<Longrightarrow> apps s c k (proj W) = (a, proj W1)"
    and limits_sim: "limits t c n W = (d, W1) \<Longrightarrow> limits s c n (proj W) = (d, proj W1)"
    and check_sim: "tokens_Check t c n W = (d, W1) \<Longrightarrow> tokens_Check s c n (proj W) = (d, proj W1)"
    and settle_sim: "tokens_Settle t c n x W = (r, W1) \<Longrightarrow> tokens_Settle s c n x (proj W) = (r, proj W1)"
    and refused_sim: "slots t n W = (Refused cap, W1) \<Longrightarrow> slots s n (proj W) = (Refused cap, proj W1)"
    and granted_sim: "slots t n W = (Granted rel, W1) \<Longrightarrow>
      \<exists>rel'. slots s n (proj W) = (Granted rel', proj W1) \<and> (\<forall>W2. proj (rel W2) = rel' (proj W2))"
    and provider_sim: "provider t c mp req W = (p, W1) \<Longrightarrow> provider s c mp req (proj W) = (p, proj W1)"
    and usage_sim: "proj (usage t e W) = usage s e (proj W)"
begin

text \<open>An answer of \<open>t\<close>, its world projected.\<close>

definition down :: "'r \<times> 'b \<Rightarrow> 'r \<times> 'a" where
  "down x = (fst x, proj (snd x))"

lemma down_pair [simp]: "down (r, W) = (r, proj W)"
  by (simp add: down_def)

lemma try_sim: "tryModelProvider t c mp req W = (p, W1) \<Longrightarrow>
    tryModelProvider s c mp req (proj W) = (p, proj W1)"
  by (simp add: tryModelProvider_def clock_sim cfg_sim provider_sim)

lemma settled_sim: "proj (settle t c a u W) = settle s c a u (proj W)"
proof -
  obtain r W1 where "tokens_Settle t c a (i64 (PromptTokens u + CompletionTokens u)) W = (r, W1)" by fastforce
  then show ?thesis by (simp add: settle_def settle_sim)
qed

lemma exhausted_sim:
  "down (exhausted t app req con n W) = exhausted s app req con n (proj W)"
  by (simp add: exhausted_def usage_sim)

lemma loop_sim:
  "down (attempt_loop t cc c app req con mps n tried W) =
     attempt_loop s cc c app req con mps n tried (proj W)"
proof (induction mps arbitrary: n tried W)
  case (Cons mp mps)
  obtain p W1 where tr: "tryModelProvider t c mp req W = (p, W1)" by fastforce
  then show ?case
    by (auto simp: try_sim [OF tr] Cons exhausted_sim settled_sim usage_sim clock_sim split: sum.splits)
qed (simp add: exhausted_sim)

lemma route_sim: "down (route t cc app req W) = route s cc app req (proj W)"
  by (simp add: route_def cfg_sim clock_sim usage_sim loop_sim Let_def split: prod.splits)

lemma with_slot_sim: "down (with_slot t c app req W) = with_slot s c app req (proj W)"
proof -
  obtain g W1 where sl: "slots t (AppName app) W = (g, W1)" by fastforce
  show ?thesis
  proof (cases g)
    case (Granted rel)
    with sl obtain rel' where g: "slots s (AppName app) (proj W) = (Granted rel', proj W1)"
        "\<forall>W2. proj (rel W2) = rel' (proj W2)"
      using granted_sim by blast
    obtain res W2 where r: "route t c app req W1 = (res, W2)" by fastforce
    with route_sim [of c app req W1] have "route s c app req (proj W1) = (res, proj W2)" by simp
    with sl Granted g r show ?thesis by (simp add: with_slot_def)
  qed (use sl refused_sim in \<open>simp add: with_slot_def usage_sim\<close>)
qed

lemma meterRate_sim: "meterRate t c app W = (e, W1) \<Longrightarrow> meterRate s c app (proj W) = (e, proj W1)"
  using limits_sim [of c "AppName app" W]
  by (auto simp: meterRate_def usage_sim split: prod.splits sum.splits if_splits)

lemma meterTokens_sim: "meterTokens t c app W = (e, W1) \<Longrightarrow> meterTokens s c app (proj W) = (e, proj W1)"
  using check_sim [of c "AppName app" W]
  by (auto simp: meterTokens_def usage_sim split: prod.splits sum.splits if_splits)

lemma chat_sim: "down (Chat t c k req W) = Chat s c k req (proj W)"
proof -
  obtain a W1 where ap: "apps t c k W = (a, W1)" by fastforce
  show ?thesis
  proof (cases a)
    case (Some app)
    obtain r W2 where m: "meterRate t c app W1 = (r, W2)" by fastforce
    obtain r' W3 where n: "meterTokens t c app W2 = (r', W3)" by fastforce
    show ?thesis
      using ap Some m n
      by (simp add: Chat_def apps_sim [OF ap] meterRate_sim [OF m] meterTokens_sim [OF n]
          usage_sim with_slot_sim split: option.splits)
  qed (simp add: Chat_def ap apps_sim [OF ap])
qed

end

text \<open>Tracing is such a simulation.\<close>

interpretation tracing: service_simulation s "traced s" fst for s
  by unfold_locales (auto simp: port_simps traced_def split: prod.splits SlotGrant.splits)

section \<open>What every port keeps\<close>

locale port_invariant =
  fixes s :: "'w Service" and I :: "'w \<Rightarrow> bool"
  assumes apps_keeps: "I w \<Longrightarrow> apps s c k w = (a, w1) \<Longrightarrow> I w1"
    and limits_keeps: "I w \<Longrightarrow> limits s c n w = (d, w1) \<Longrightarrow> I w1"
    and check_keeps: "I w \<Longrightarrow> tokens_Check s c n w = (d, w1) \<Longrightarrow> I w1"
    and settle_keeps: "I w \<Longrightarrow> tokens_Settle s c n x w = (r, w1) \<Longrightarrow> I w1"
    and slots_keeps: "I w \<Longrightarrow> slots s n w = (g, w1) \<Longrightarrow> I w1"
    and release_keeps: "slots s n w = (Granted rel, w1) \<Longrightarrow> I w2 \<Longrightarrow> I (rel w2)"
    and provider_keeps: "I w \<Longrightarrow> provider s c mp req w = (p, w1) \<Longrightarrow> I w1"
    and usage_keeps: "I w \<Longrightarrow> I (usage s e w)"
begin

lemma settled_keeps: "I w \<Longrightarrow> I (settle s c a u w)"
  using settle_keeps [of w c a "i64 (PromptTokens u + CompletionTokens u)"]
  by (simp add: settle_def prod_eq_iff)

lemma loop_keeps: "I w \<Longrightarrow> I (snd (attempt_loop s cc c app req con mps n tried w))"
proof (induction mps arbitrary: n tried w)
  case (Cons mp mps)
  obtain p w1 where tr: "tryModelProvider s c mp req w = (p, w1)" by fastforce
  with Cons.prems have "I w1" by (auto simp: tryModelProvider_def dest: provider_keeps)
  with Cons tr show ?case
    by (auto simp: exhausted_def usage_keeps settled_keeps split: sum.splits)
qed (simp add: exhausted_def usage_keeps)

lemma route_keeps: "I w \<Longrightarrow> I (snd (route s c app req w))"
  by (simp add: route_def usage_keeps loop_keeps Let_def split: prod.splits)

lemma with_slot_keeps:
  assumes "I w"
  shows "I (snd (with_slot s c app req w))"
proof -
  obtain g w1 where sl: "slots s (AppName app) w = (g, w1)" by fastforce
  with assms have I1: "I w1" by (rule slots_keeps)
  obtain res w2 where r: "route s c app req w1 = (res, w2)" by fastforce
  with route_keeps [OF I1, of c app req] have "I w2" by simp
  with sl r I1 show ?thesis
    by (cases g) (auto simp: with_slot_def usage_keeps dest: release_keeps)
qed

lemma meters_keep:
  "I w \<Longrightarrow> meterRate s c app w = (e, w1) \<Longrightarrow> I w1"
  "I w \<Longrightarrow> meterTokens s c app w = (e, w1) \<Longrightarrow> I w1"
  by (auto simp: meterRate_def meterTokens_def usage_keeps split: prod.splits sum.splits if_splits
      dest: limits_keeps check_keeps)

lemma chat_keeps:
  assumes "I w"
  shows "I (snd (Chat s c k req w))"
proof -
  obtain a w1 where ap: "apps s c k w = (a, w1)" by fastforce
  with assms have I1: "I w1" by (rule apps_keeps)
  show ?thesis
  proof (cases a)
    case (Some app)
    obtain r w2 where m: "meterRate s c app w1 = (r, w2)" by fastforce
    obtain r' w3 where n: "meterTokens s c app w2 = (r', w3)" by fastforce
    from meters_keep(1) [OF I1 m] have I2: "I w2" .
    from meters_keep(2) [OF I2 n] have I3: "I w3" .
    show ?thesis
      using ap Some m n I1 I2 I3 with_slot_keeps [OF I3]
      by (simp add: Chat_def usage_keeps split: option.splits)
  qed (use ap I1 in \<open>simp add: Chat_def\<close>)
qed

end

section \<open>Counting calls\<close>

locale call_counter =
  fixes s :: "'w Service" and view :: "'w \<Rightarrow> 'v" and step :: "call \<Rightarrow> 'v \<Rightarrow> 'v"
  assumes apps_step: "apps s c k w = (a, w1) \<Longrightarrow> view w1 = step (CApp k (a \<noteq> None)) (view w)"
    and limits_step: "limits s c n w = (d, w1) \<Longrightarrow> view w1 = step (CAllow n d) (view w)"
    and check_step: "tokens_Check s c n w = (d, w1) \<Longrightarrow> view w1 = step (CCheck n d) (view w)"
    and settle_step: "tokens_Settle s c n x w = (r, w1) \<Longrightarrow> view w1 = step (CSettle n x) (view w)"
    and acquire_step: "slots s n w = (g, w1) \<Longrightarrow> view w1 = step (CAcquire now n (granted g)) (view w)"
    and release_step: "slots s n w = (Granted rel, w1) \<Longrightarrow> view (rel w2) = step (CRelease n) (view w2)"
    and provider_step: "provider s c mp req w = (p, w1) \<Longrightarrow> view w1 = step (CComplete now c mp) (view w)"
    and usage_step: "view (usage s e w) = step (CRecord e) (view w)"
begin

text \<open>The part seen, and the trace that explains it.\<close>

definition explained :: "'v \<Rightarrow> 'w \<times> call list \<Rightarrow> bool" where
  "explained v W \<longleftrightarrow> view (fst W) = fold step (snd W) v"

lemma explained_step: "explained v (w, t) \<Longrightarrow> view w1 = step x (view w) \<Longrightarrow> explained v (w1, t @ [x])"
  by (simp add: explained_def)

lemma explained_invariant: "port_invariant (traced s) (explained v)"
proof
  fix W c k a W1 n d x r mp req p e g rel W2
  show "explained v W \<Longrightarrow> apps (traced s) c k W = (a, W1) \<Longrightarrow> explained v W1"
    by (cases W) (auto simp: port_simps split: prod.splits intro!: explained_step dest: apps_step)
  show "explained v W \<Longrightarrow> limits (traced s) c n W = (d, W1) \<Longrightarrow> explained v W1"
    by (cases W) (auto simp: port_simps split: prod.splits intro!: explained_step dest: limits_step)
  show "explained v W \<Longrightarrow> tokens_Check (traced s) c n W = (d, W1) \<Longrightarrow> explained v W1"
    by (cases W) (auto simp: port_simps split: prod.splits intro!: explained_step dest: check_step)
  show "explained v W \<Longrightarrow> tokens_Settle (traced s) c n x W = (r, W1) \<Longrightarrow> explained v W1"
    by (cases W) (auto simp: port_simps split: prod.splits intro!: explained_step dest: settle_step)
  show "explained v W \<Longrightarrow> provider (traced s) c mp req W = (p, W1) \<Longrightarrow> explained v W1"
    by (cases W) (auto simp: port_simps split: prod.splits intro!: explained_step dest: provider_step)
  show "explained v W \<Longrightarrow> explained v (usage (traced s) e W)"
    by (cases W) (auto simp: port_simps intro!: explained_step usage_step)
  show "explained v W \<Longrightarrow> slots (traced s) n W = (g, W1) \<Longrightarrow> explained v W1"
    by (cases W) (auto simp: port_simps split: prod.splits SlotGrant.splits intro!: explained_step
        dest: acquire_step)
  show "slots (traced s) n W = (Granted rel, W1) \<Longrightarrow> explained v W2 \<Longrightarrow> explained v (rel W2)"
    by (cases W; cases W2) (auto simp: port_simps split: prod.splits SlotGrant.splits intro!: explained_step
        dest: release_step)
qed

end

sublocale call_counter \<subseteq> kept: port_invariant "traced s" "explained v" for v
  by (rule explained_invariant)

context call_counter
begin

text \<open>One request moves the part seen by its calls, in their order.\<close>

lemma chat_counted: "view (snd (Chat s c k req w)) = fold step (calls s c k req w) (view w)"
proof -
  have "explained (view w) (snd (Chat (traced s) c k req (w, [])))"
    by (rule kept.chat_keeps) (simp add: explained_def)
  with traced_erase [of s c k req w] show ?thesis by (simp add: explained_def calls_def)
qed

end

section \<open>The process\<close>

text \<open>
  The counters and the log of one process beside the world its adapters act on. In \<open>main\<close> every
  struct is its own pointer; here each is a field and its update function is the \<open>tick\<close>.
\<close>

record 'w process =
  base :: 'w
  dirM :: dir_counts
  rateM :: rate_counts
  tokenM :: token_counts
  slotM :: slot_counts
  providerM :: provider_counts
  usageM :: usage_counts
  refreshM :: refresh_counts
  triggerM :: "(string \<times> int) list"
  requestM :: request_counts
  panicM :: int
  journal :: "line list"

text \<open>The structs as they are built, for the given apps and providers; the log is empty.\<close>

definition new_process :: "string list \<Rightarrow> string list \<Rightarrow> 'w \<Rightarrow> 'w process" where
  "new_process app_names provider_names w =
     \<lparr>base = w, dirM = \<lparr>dir_resolved = 0, dir_refused = 0\<rparr>,
      rateM = \<lparr>rc_allowed = 0, rc_denied = 0, rc_failOpen = 0\<rparr>,
      tokenM = \<lparr>tc_allowed = 0, tc_denied = 0, tc_failOpen = 0, tc_debited = 0, tc_debitsFailed = 0\<rparr>,
      slotM = NewSlotCounts app_names, providerM = NewProviderCounts provider_names,
      usageM = NewUsageCounts app_names,
      refreshM = \<lparr>rf_refreshes = 0, rf_failures = 0\<rparr>, triggerM = [],
      requestM = \<lparr>rq_requests = 0, rq_serverErrors = 0\<rparr>, panicM = 0, journal = []\<rparr>"

definition to_journal :: "'w process logger" where
  "to_journal l P = P\<lparr>journal := journal P @ [l]\<rparr>"

text \<open>An adapter acts on the world below the counters.\<close>

definition below :: "('w \<Rightarrow> 'r \<times> 'w) \<Rightarrow> 'w process \<Rightarrow> 'r \<times> 'w process" where
  "below f P = (let (r, w) = f (base P) in (r, P\<lparr>base := w\<rparr>))"

definition slots_below :: "'w SlotLimiter \<Rightarrow> 'w process SlotLimiter" where
  "slots_below f app P =
     (case f app (base P) of
        (Refused cap, w) \<Rightarrow> (Refused cap, P\<lparr>base := w\<rparr>)
      | (Granted rel, w) \<Rightarrow> (Granted (\<lambda>Q. Q\<lparr>base := rel (base Q)\<rparr>), P\<lparr>base := w\<rparr>))"

text \<open>
  The decorators of the directory and of the provider client (the last lines of
  \<open>newAppDirectory\<close> and of \<open>newProviderClient\<close>), and the dependencies of the core as \<open>run\<close>
  composes them.
\<close>

definition decorated_directory :: "'w process AppDirectory \<Rightarrow> 'w process AppDirectory" where
  "decorated_directory dir = logged_AppForKey to_journal (metered_AppForKey dirM_update dir)"

definition decorated_provider :: "('w process \<Rightarrow> int) \<Rightarrow> 'w process ProviderClient \<Rightarrow> 'w process ProviderClient" where
  "decorated_provider now prov = logged_Complete now to_journal (metered_Complete providerM_update prov)"

definition newDeps ::
  "'w process AppDirectory \<Rightarrow> 'w process RateCheck \<Rightarrow> 'w process RateCheck \<Rightarrow> 'w process Settler
     \<Rightarrow> 'w process SlotLimiter \<Rightarrow> 'w process ProviderClient \<Rightarrow> 'w process Deps" where
  "newDeps dir quotas budgets debits slotting prov =
     \<lparr>Apps = Some dir,
      RateLimiter = Some (logged_Allow to_journal (metered_Allow rateM_update quotas)),
      Tokens = Some
        (logged_Check to_journal (metered_Check tokenM_update budgets),
         logged_Settle to_journal (metered_Settle tokenM_update debits)),
      Slots = Some (logged_TryAcquire to_journal (metered_TryAcquire slotM_update slotting)),
      ProviderPort = Some prov,
      UsagePort = Some (metered_Record usageM_update (logging_Record to_journal))\<rparr>"

text \<open>The core over adapters that act below the counters, decorated as in \<open>main\<close>.\<close>

definition newCore ::
  "('w \<Rightarrow> int) \<Rightarrow> Config \<Rightarrow> 'w AppDirectory \<Rightarrow> 'w RateCheck \<Rightarrow> 'w RateCheck \<Rightarrow> 'w Settler
     \<Rightarrow> 'w SlotLimiter \<Rightarrow> 'w ProviderClient \<Rightarrow> go_error + 'w process Service" where
  "newCore now conf dir quotas budgets debits slotting prov =
     New (\<lambda>P. now (base P)) conf
       (newDeps (decorated_directory (\<lambda>c k. below (dir c k))) (\<lambda>c a. below (quotas c a))
         (\<lambda>c a. below (budgets c a)) (\<lambda>c a n. below (debits c a n)) (slots_below slotting)
         (decorated_provider (\<lambda>P. now (base P)) (\<lambda>c mp req. below (prov c mp req))))"

text \<open>The same adapters with nothing around them and nobody recording.\<close>

definition bareCore ::
  "('w \<Rightarrow> int) \<Rightarrow> Config \<Rightarrow> 'w AppDirectory \<Rightarrow> 'w RateCheck \<Rightarrow> 'w RateCheck \<Rightarrow> 'w Settler
     \<Rightarrow> 'w SlotLimiter \<Rightarrow> 'w ProviderClient \<Rightarrow> go_error + 'w Service" where
  "bareCore now conf dir quotas budgets debits slotting prov =
     New now conf \<lparr>Apps = Some dir, RateLimiter = Some quotas, Tokens = Some (budgets, debits),
       Slots = Some slotting, ProviderPort = Some prov, UsagePort = None\<rparr>"

text \<open>The observed service of a bare one; \<open>newCore\<close> builds exactly this.\<close>

definition observed :: "'w Service \<Rightarrow> 'w process Service" where
  "observed s =
     (let d = newDeps (decorated_directory (\<lambda>c k. below (apps s c k))) (\<lambda>c a. below (limits s c a))
            (\<lambda>c a. below (tokens_Check s c a)) (\<lambda>c a n. below (tokens_Settle s c a n)) (slots_below (slots s))
            (decorated_provider (\<lambda>P. clock s (base P)) (\<lambda>c mp req. below (provider s c mp req)))
      in \<lparr>cfg = cfg s, apps = the (Apps d), limits = the (RateLimiter d),
          tokens_Check = fst (the (Tokens d)), tokens_Settle = snd (the (Tokens d)),
          slots = the (Slots d), provider = the (ProviderPort d), usage = the (UsagePort d),
          clock = (\<lambda>P. clock s (base P))\<rparr>)"

lemma newCore_observed:
  "newCore now conf dir quotas budgets debits slotting prov =
     map_sum id observed (bareCore now conf dir quotas budgets debits slotting prov)"
  by (simp add: newCore_def bareCore_def New_def newDeps_def observed_def)

lemmas decorator_defs = metered_AppForKey_def logged_AppForKey_def metered_Allow_def logged_Allow_def
  metered_Check_def logged_Check_def metered_Settle_def logged_Settle_def metered_TryAcquire_def
  logged_TryAcquire_def metered_Complete_def logged_Complete_def metered_Record_def logging_Record_def
  below_def slots_below_def to_journal_def

lemma observed_ports [port_simps]:
  "cfg (observed s) = cfg s"
  "apps (observed s) = logged_AppForKey to_journal (metered_AppForKey dirM_update (\<lambda>c k. below (apps s c k)))"
  "limits (observed s) = logged_Allow to_journal (metered_Allow rateM_update (\<lambda>c a. below (limits s c a)))"
  "tokens_Check (observed s) = logged_Check to_journal (metered_Check tokenM_update (\<lambda>c a. below (tokens_Check s c a)))"
  "tokens_Settle (observed s) =
     logged_Settle to_journal (metered_Settle tokenM_update (\<lambda>c a n. below (tokens_Settle s c a n)))"
  "slots (observed s) = logged_TryAcquire to_journal (metered_TryAcquire slotM_update (slots_below (slots s)))"
  "provider (observed s) = logged_Complete (\<lambda>P. clock s (base P)) to_journal
     (metered_Complete providerM_update (\<lambda>c mp req. below (provider s c mp req)))"
  "usage (observed s) = metered_Record usageM_update (logging_Record to_journal)"
  "clock (observed s) P = clock s (base P)"
  by (simp_all add: observed_def newDeps_def decorated_directory_def decorated_provider_def)

end
