(* ===== verification/ObserveProps.thy ===== *)
theory ObserveProps
  imports Observe
begin

text \<open>
  What the decorators guarantee: they change no answer, their books agree with what the callers
  were told, and no request can create a series.
\<close>

section \<open>Transparency\<close>

interpretation observing: service_simulation "s\<lparr>usage := NopUsageRecorder\<rparr>" "observed s" base for s
  by unfold_locales
    (auto simp: port_simps decorator_defs NopUsageRecorder_def Let_def split: prod.splits sum.splits
      option.splits SlotGrant.splits)

lemma bareCore_Nop: "bareCore now conf dir quotas budgets debits slotting prov = Inr s \<Longrightarrow>
    s\<lparr>usage := NopUsageRecorder\<rparr> = s"
  by (auto simp: bareCore_def New_def split: if_splits)

text \<open>C27: The counting and logging decorators that \<open>run\<close> wraps around every port are invisible to
  the data path: the core is accepted or refused by \<open>New\<close> as without them, and every request gets
  the same answer from the same effects on the adapters' world.\<close>

theorem observation_transparent:
  "case bareCore now conf dir quotas budgets debits slotting prov of
     Inl e \<Rightarrow> newCore now conf dir quotas budgets debits slotting prov = Inl e
   | Inr s \<Rightarrow> \<exists>t. newCore now conf dir quotas budgets debits slotting prov = Inr t \<and>
       (\<forall>c k req P. fst (Chat t c k req P) = fst (Chat s c k req (base P)) \<and>
          base (snd (Chat t c k req P)) = snd (Chat s c k req (base P)))"
proof (cases "bareCore now conf dir quotas budgets debits slotting prov")
  case (Inr s)
  then have nop: "s\<lparr>usage := NopUsageRecorder\<rparr> = s" by (rule bareCore_Nop)
  have "fst (Chat (observed s) c k req P) = fst (Chat s c k req (base P)) \<and>
      base (snd (Chat (observed s) c k req P)) = snd (Chat s c k req (base P))" for c k req P
    using observing.chat_sim [of s c k req P] nop
    by (metis fst_conv observing.down_def snd_conv)
  with Inr show ?thesis by (simp add: newCore_observed)
qed (simp add: newCore_observed)

section \<open>The books as a function of the calls\<close>

record books =
  bk_dir :: dir_counts
  bk_slots :: slot_counts
  bk_attempts :: "string keyedCounter"
  bk_usage :: usage_counts

definition books_of :: "'w process \<Rightarrow> books" where
  "books_of P = \<lparr>bk_dir = dirM P, bk_slots = slotM P, bk_attempts = pc_attempts (providerM P),
     bk_usage = usageM P\<rparr>"

fun book :: "call \<Rightarrow> books \<Rightarrow> books" where
  "book (CApp _ ok) = bk_dir_update (count_lookup ok)"
| "book (CAcquire _ a ok) = bk_slots_update (count_claim a ok)"
| "book (CComplete _ _ mp) = bk_attempts_update (kadd (Provider mp) 1)"
| "book (CRecord e) = bk_usage_update (count_usage e)"
| "book (CAllow _ _) = id" | "book (CCheck _ _) = id" | "book (CSettle _ _) = id" | "book (CRelease _) = id"

interpretation counting: call_counter "observed s" books_of book for s
  by unfold_locales
    (auto simp: port_simps decorator_defs books_of_def count_attempt_def Let_def
      split: prod.splits sum.splits option.splits SlotGrant.splits)

lemma books_after: "books_of (snd (Chat (observed s) c k req P)) =
    fold book (calls (observed s) c k req P) (books_of P)"
  by (rule counting.chat_counted)

definition records_of :: "call list \<Rightarrow> UsageEvent list" where
  "records_of t = concat (map (\<lambda>x. case x of CRecord e \<Rightarrow> [e] | _ \<Rightarrow> []) t)"

lemma terminals_records: "terminals_of t = filter terminal_event (records_of t)"
  by (induction t) (auto simp: records_of_def terminals_of_def split: call.splits)

lemma usage_books: "bk_usage (fold book t b) = fold count_usage (records_of t) (bk_usage b)"
proof (induction t arbitrary: b)
  case (Cons x t)
  then show ?case by (cases x) (simp_all add: records_of_def)
qed (simp add: records_of_def)

lemma usage_after: "usageM (snd (Chat (observed s) c k req P)) =
    fold count_usage (records_of (calls (observed s) c k req P)) (usageM P)"
  using arg_cong [OF books_after [of s c k req P], of bk_usage] by (simp add: usage_books books_of_def)

section \<open>Keyed counters\<close>

definition has :: "'k keyedCounter \<Rightarrow> 'k \<Rightarrow> bool" where
  "has c k \<longleftrightarrow> k \<in> fst ` set c"

lemma keys_kadd [simp]: "map fst (kadd k n c) = map fst c"
  by (induction c) (auto simp: kadd_def)

lemma has_kadd [simp]: "has (kadd k n c) j \<longleftrightarrow> has c j"
  by (metis has_def keys_kadd list.set_map)

lemma has_lookup: "has c k \<longleftrightarrow> map_of c k \<noteq> None"
  by (simp add: has_def map_of_eq_None_iff)

lemma kget_kadd: "kget (kadd k n c) j = (if j = k \<and> has c k then i64 (kget c j + n) else kget c j)"
  by (auto simp: kget_def kadd_def has_lookup map_of_map_entry split: option.splits)

lemma kget_absent: "\<not> has c k \<Longrightarrow> kget c k = 0"
  by (simp add: kget_def has_lookup)

lemma keys_new: "fst ` set (newKeyedCounter ks) = set ks"
proof -
  have "fst ` set (fold (\<lambda>k. AList.update k 0) ks c) = fst ` set c \<union> set ks" for c :: "('a \<times> int) list"
    by (induction ks arbitrary: c) (auto simp: dom_update [symmetric] update_conv' dom_map_of_conv_image_fst [symmetric])
  from this [of "[]"] show ?thesis by (simp add: newKeyedCounter_def)
qed

lemma has_new [simp]: "has (newKeyedCounter ks) k \<longleftrightarrow> k \<in> set ks"
  by (simp add: has_def keys_new)

lemma kget_new [simp]: "kget (newKeyedCounter ks) k = 0"
proof -
  have "\<forall>e\<in>set c. snd e = 0 \<Longrightarrow> \<forall>e\<in>set (fold (\<lambda>k. AList.update k (0::int)) ks c). snd e = 0" for c :: "('a \<times> int) list"
  proof (induction ks arbitrary: c)
    case (Cons a ks)
    have "\<forall>e\<in>set (AList.update a 0 c). snd e = 0"
      using Cons.prems by (induction c) auto
    with Cons.IH show ?case by simp
  qed simp
  from this [of "[]"] show ?thesis
    by (fastforce simp: kget_def newKeyedCounter_def split: option.splits dest: map_of_SomeD)
qed

lemma i64_add [simp]: "i64 (i64 a + b) = i64 (a + b)" "i64 (a + i64 b) = i64 (a + b)"
proof -
  have "i64 x + y - (x + y) = - (2 ^ 64) * ((x + 2 ^ 63) div 2 ^ 64)" for x y
    using minus_mod_eq_mult_div [of "x + 2 ^ 63" "2 ^ 64"] by (simp add: i64_def)
  moreover have "i64 (x - 2 ^ 64 * z) = i64 x" for x z
  proof -
    have "(x - 2 ^ 64 * z + 2 ^ 63) mod 2 ^ 64 = ((x + 2 ^ 63) + 2 ^ 64 * (- z)) mod 2 ^ 64"
      by (simp add: algebra_simps)
    also have "\<dots> = (x + 2 ^ 63) mod 2 ^ 64" by (rule mod_mult_self2)
    finally show ?thesis by (simp add: i64_def)
  qed
  ultimately show l: "i64 (i64 a + b) = i64 (a + b)" for a b
    by (metis add.commute diff_add_cancel minus_mult_left mult_minus_left uminus_add_conv_diff)
  show "i64 (a + i64 b) = i64 (a + b)" by (metis add.commute l)
qed

section \<open>The books of a run\<close>

text \<open>Requests one after the other; each leaves the app it was attributed to and its result.\<close>

fun serve_all ::
  "'w Service \<Rightarrow> (ctx \<times> string \<times> ChatRequest) list \<Rightarrow> 'w
     \<Rightarrow> (string option \<times> (go_error + ChatResult)) list \<times> 'w" where
  "serve_all s [] w = ([], w)"
| "serve_all s ((c, k, req) # qs) w =
     (let (res, w1) = Chat s c k req w; (es, w2) = serve_all s qs w1
      in ((map_option AppName (fst (apps s c k w)), res) # es, w2))"

definition asked_by :: "string \<Rightarrow> (string option \<times> (go_error + ChatResult)) list \<Rightarrow> (go_error + ChatResult) list" where
  "asked_by a es = map snd (filter (\<lambda>e. fst e = Some a) es)"

fun answer_of :: "go_error + ChatResult \<Rightarrow> ChatResult list" where
  "answer_of (Inr r) = [r]"
| "answer_of (Inl _) = []"

definition answers :: "string \<Rightarrow> (string option \<times> (go_error + ChatResult)) list \<Rightarrow> ChatResult list" where
  "answers a es = concat (map answer_of (asked_by a es))"

text \<open>The one terminal event of a request names the app the directory answered with.\<close>

lemma chat_terminal:
  "case fst (apps s c k w) of
     None \<Rightarrow> terminals_of (calls s c k req w) = []
   | Some app \<Rightarrow> \<exists>e. terminals_of (calls s c k req w) = [e] \<and>
       accounts (AppName app) (fst (Chat s c k req w)) e"
proof -
  obtain res w' t' where t: "Chat (traced s) c k req (w, []) = (res, (w', t'))"
    by (metis prod_cases3)
  then show ?thesis
  proof (cases rule: Chat_traced)
    case unauthorized
    with t show ?thesis by (simp add: calls_def)
  next
    case (admitted app w1 ts us vs)
    from admitted(6) have "\<exists>e. terminals_of vs = [e] \<and> accounts (AppName app) res e"
      by (auto simp: slot_facts_def loop_facts_def)
    with t admitted show ?thesis by (auto simp: calls_def stage_def)
  qed (use t in \<open>auto simp: calls_def stage_def\<close>)
qed

lemma sum_terminals:
  assumes "\<And>e. \<not> terminal_event e \<Longrightarrow> d e = (0 :: int)"
  shows "sum_list (map d (records_of t)) = sum_list (map d (terminals_of t))"
proof -
  have "sum_list (map d es) = sum_list (map d (filter terminal_event es))" for es
    using assms by (induction es) auto
  then show ?thesis by (simp add: terminals_records)
qed

text \<open>
  One counter through a run: \<open>d\<close> is what an event adds to it, \<open>v\<close> what a request does.
\<close>

lemma counter_run:
  assumes step: "\<And>e m x. has (p m) j \<Longrightarrow> kget (p m) j = i64 x \<Longrightarrow>
      has (p (count_usage e m)) j \<and> kget (p (count_usage e m)) j = i64 (x + d e)"
    and silent: "\<And>e. \<not> terminal_event e \<Longrightarrow> d e = 0"
    and valued: "\<And>a res e. accounts a res e \<Longrightarrow> d e = v (Some a, res)" and nobody: "\<And>res. v (None, res) = 0"
    and "has (p (usageM P)) j" and "kget (p (usageM P)) j = i64 x"
    and "serve_all (observed s) qs P = (es, Q)"
  shows "kget (p (usageM Q)) j = i64 (x + sum_list (map v es))"
  using assms(5-)
proof (induction qs arbitrary: P x es)
  case (Cons q qs)
  obtain c k req where q: "q = (c, k, req)" by (metis prod_cases3)
  obtain res P1 where ch: "Chat (observed s) c k req P = (res, P1)" by fastforce
  obtain fs where rest: "serve_all (observed s) qs P1 = (fs, Q)"
    and es: "es = (map_option AppName (fst (apps (observed s) c k P)), res) # fs"
    using Cons.prems(3) q ch by (auto split: prod.splits)
  have fold: "has (p m) j \<Longrightarrow> kget (p m) j = i64 y \<Longrightarrow>
      has (p (fold count_usage rs m)) j \<and> kget (p (fold count_usage rs m)) j = i64 (y + sum_list (map d rs))"
    for rs m y
    by (induction rs arbitrary: m y) (auto simp: step add.assoc)
  let ?rs = "records_of (calls (observed s) c k req P)"
  have one: "has (p (usageM P1)) j \<and> kget (p (usageM P1)) j = i64 (x + sum_list (map d ?rs))"
    using fold [OF Cons.prems(1,2), of ?rs] usage_after [of s c k req P] ch by simp
  have "sum_list (map d ?rs) = v (map_option AppName (fst (apps (observed s) c k P)), res)"
    using chat_terminal [of "observed s" c k req P] ch valued nobody
    by (auto simp: sum_terminals [OF silent] split: option.splits)
  with Cons.IH [OF _ _ rest] one es show ?case by (simp add: add.assoc)
qed simp

text \<open>What a request does to each of the counters of an app.\<close>

definition served_value :: "(Usage \<Rightarrow> int) \<Rightarrow> string \<Rightarrow> string option \<times> (go_error + ChatResult) \<Rightarrow> int" where
  "served_value g a e = (if fst e = Some a then case snd e of Inr r \<Rightarrow> g (RUsage r) | Inl _ \<Rightarrow> 0 else 0)"

definition refused_value :: "ErrorCode \<Rightarrow> string \<Rightarrow> string option \<times> (go_error + ChatResult) \<Rightarrow> int" where
  "refused_value code a e =
     (if fst e = Some a then case snd e of Inl (ErrGateway x) \<Rightarrow> of_bool (Code x = code) | _ \<Rightarrow> 0 else 0)"

definition left_value :: "string \<Rightarrow> string option \<times> (go_error + ChatResult) \<Rightarrow> int" where
  "left_value a e =
     (if fst e = Some a then case snd e of Inl (ErrWrap _ (ErrCtx Canceled)) \<Rightarrow> 1 | _ \<Rightarrow> 0 else 0)"

lemmas value_defs = served_value_def refused_value_def left_value_def

text \<open>The facts every counter of an app starts with.\<close>

lemma NewUsage_simps [simp]:
  "us_completions (NewUsageCounts names) = newKeyedCounter (sort names)"
  "us_promptTokens (NewUsageCounts names) = newKeyedCounter (sort names)"
  "us_completionTokens (NewUsageCounts names) = newKeyedCounter (sort names)"
  "us_disconnects (NewUsageCounts names) = newKeyedCounter (sort names)"
  "us_rejections (NewUsageCounts names) = newKeyedCounter (appCodeKeys (sort names))"
  "us_apps (NewUsageCounts names) = sort names"
  by (simp_all add: NewUsageCounts_def Let_def)

lemma set_appCodeKeys [simp]: "set (appCodeKeys names) = set names \<times> set ErrorCodes"
  by (auto simp: appCodeKeys_def)

lemma count_usage_completion [simp]:
  "us_completions (count_usage e m) = (case e of RecordCompletion a _ u _ _ \<Rightarrow> kadd a 1 (us_completions m) | _ \<Rightarrow> us_completions m)"
  "us_promptTokens (count_usage e m) = (case e of RecordCompletion a _ u _ _ \<Rightarrow> kadd a (PromptTokens u) (us_promptTokens m) | _ \<Rightarrow> us_promptTokens m)"
  "us_completionTokens (count_usage e m) = (case e of RecordCompletion a _ u _ _ \<Rightarrow> kadd a (CompletionTokens u) (us_completionTokens m) | _ \<Rightarrow> us_completionTokens m)"
  "us_rejections (count_usage e m) = (case e of RecordRejection a code \<Rightarrow> kadd (a, code) 1 (us_rejections m) | _ \<Rightarrow> us_rejections m)"
  "us_disconnects (count_usage e m) = (case e of RecordClientDisconnect a _ _ \<Rightarrow> kadd a 1 (us_disconnects m) | _ \<Rightarrow> us_disconnects m)"
  "us_apps (count_usage e m) = us_apps m"
  by (cases e; simp add: Let_def)+

lemma accounts_cases:
  assumes "accounts a res e"
  obtains (served) r mp l f where "res = Inr r" "e = RecordCompletion a mp (RUsage r) l f"
  | (refused) x where "res = Inl (ErrGateway x)" "e = RecordRejection a (Code x)"
  | (left) p mp n where "res = Inl (ErrWrap p (ErrCtx Canceled))" "e = RecordClientDisconnect a mp n"
  using assms by (cases "(a, res, e)" rule: accounts.cases) auto

lemma served_run:
  assumes a: "a \<in> set names" and start: "usageM P = NewUsageCounts names"
    and run: "serve_all (observed s) qs P = (es, Q)"
    and "\<And>e m. p (count_usage e m) =
      (case e of RecordCompletion a' _ u _ _ \<Rightarrow> kadd a' (g u) (p m) | _ \<Rightarrow> p m)"
    and "p (NewUsageCounts names) = newKeyedCounter (sort names)"
  shows "kget (p (usageM Q)) a = i64 (sum_list (map (served_value g a) es))"
proof -
  let ?d = "\<lambda>e. case e of RecordCompletion a' _ u _ _ \<Rightarrow> if a' = a then g u else 0 | _ \<Rightarrow> (0 :: int)"
  have "kget (p (usageM Q)) a = i64 (0 + sum_list (map (served_value g a) es))"
  proof (rule counter_run [where d = ?d and P = P and qs = qs and s = s])
    show "?d e = served_value g a (Some a', res)" if "accounts a' res e" for a' res e
      using that by (cases rule: accounts_cases) (auto simp: value_defs)
    show "?d e = 0" if "\<not> terminal_event e" for e
      using that by (cases e) auto
  qed (use a start run assms in \<open>auto simp: kget_kadd value_defs split: UsageEvent.splits\<close>)
  then show ?thesis by simp
qed

lemma refused_run:
  assumes a: "a \<in> set names" and start: "usageM P = NewUsageCounts names"
    and run: "serve_all (observed s) qs P = (es, Q)"
    and "code \<in> set ErrorCodes"
  shows "kget (us_rejections (usageM Q)) (a, code) = i64 (sum_list (map (refused_value code a) es))"
proof -
  let ?d = "\<lambda>e. case e of RecordRejection a' c \<Rightarrow> of_bool (a' = a \<and> c = code) | _ \<Rightarrow> (0 :: int)"
  have "kget (us_rejections (usageM Q)) (a, code) = i64 (0 + sum_list (map (refused_value code a) es))"
  proof (rule counter_run [where d = ?d and P = P and qs = qs and s = s])
    show "?d e = refused_value code a (Some a', res)" if "accounts a' res e" for a' res e
      using that by (cases rule: accounts_cases) (auto simp: value_defs)
    show "?d e = 0" if "\<not> terminal_event e" for e
      using that by (cases e) auto
  qed (use a start run assms in \<open>auto simp: kget_kadd value_defs split: UsageEvent.splits\<close>)
  then show ?thesis by simp
qed

lemma left_run:
  assumes a: "a \<in> set names" and start: "usageM P = NewUsageCounts names"
    and run: "serve_all (observed s) qs P = (es, Q)"
  shows "kget (us_disconnects (usageM Q)) a = i64 (sum_list (map (left_value a) es))"
proof -
  let ?d = "\<lambda>e. case e of RecordClientDisconnect a' _ _ \<Rightarrow> of_bool (a' = a) | _ \<Rightarrow> (0 :: int)"
  have "kget (us_disconnects (usageM Q)) a = i64 (0 + sum_list (map (left_value a) es))"
  proof (rule counter_run [where d = ?d and P = P and qs = qs and s = s])
    show "?d e = left_value a (Some a', res)" if "accounts a' res e" for a' res e
      using that by (cases rule: accounts_cases) (auto simp: value_defs)
    show "?d e = 0" if "\<not> terminal_event e" for e
      using that by (cases e) auto
  qed (use a start run in \<open>auto simp: kget_kadd value_defs split: UsageEvent.splits\<close>)
  then show ?thesis by simp
qed

lemma one_account:
  assumes "case res of Inl err \<Rightarrow> core_error err | Inr _ \<Rightarrow> True"
  shows "served_value (\<lambda>_. 1) a (n, res) + (\<Sum>c\<leftarrow>ErrorCodes. refused_value c a (n, res))
      + left_value a (n, res) = of_bool (n = Some a)"
proof (cases res)
  case (Inl err)
  with assms show ?thesis
    by (cases err) (auto simp: value_defs ErrorCodes_def core_error_def split: ErrorCode.splits)
qed (simp add: value_defs ErrorCodes_def)

lemma served_sum: "sum_list (map (served_value g a) es) = (\<Sum>r\<leftarrow>answers a es. g (RUsage r))"
  by (induction es) (auto simp: served_value_def answers_def asked_by_def split: sum.splits)

lemma run_errors: "serve_all s qs w = (es, w') \<Longrightarrow> e \<in> set es \<Longrightarrow>
    case snd e of Inl err \<Rightarrow> core_error err | Inr _ \<Rightarrow> True"
proof (induction qs arbitrary: w es)
  case (Cons q qs)
  obtain c k req where q: "q = (c, k, req)" by (metis prod_cases3)
  obtain res w1 where ch: "Chat s c k req w = (res, w1)" by fastforce
  obtain fs where fs: "serve_all s qs w1 = (fs, w')"
      "es = (map_option AppName (fst (apps s c k w)), res) # fs"
    using Cons.prems(1) q ch by (auto split: prod.splits)
  have "case res of Inl err \<Rightarrow> core_error err | Inr _ \<Rightarrow> True"
    using chat_error_facts [of s c k req w] ch by (auto split: sum.split)
  with Cons.IH [OF fs(1)] Cons.prems(2) fs(2) show ?case by auto
qed simp

lemma one_account_run:
  assumes "list_all (\<lambda>e. case snd e of Inl err \<Rightarrow> core_error err | Inr _ \<Rightarrow> True) es"
  shows "sum_list (map (served_value (\<lambda>_. 1) a) es) +
      (\<Sum>c\<leftarrow>ErrorCodes. sum_list (map (refused_value c a) es)) + sum_list (map (left_value a) es) =
    int (length (asked_by a es))"
  using assms
proof (induction es)
  case (Cons e es)
  obtain n res where e: "e = (n, res)" by fastforce
  have "(\<Sum>c\<leftarrow>ErrorCodes. refused_value c a e + sum_list (map (refused_value c a) es)) =
      (\<Sum>c\<leftarrow>ErrorCodes. refused_value c a e) + (\<Sum>c\<leftarrow>ErrorCodes. sum_list (map (refused_value c a) es))"
    by (rule sum_list_addf)
  with Cons one_account [of res a n] e show ?case by (auto simp: asked_by_def)
qed (simp add: asked_by_def ErrorCodes_def)

lemma i64_cong: "i64 x = i64 x' \<Longrightarrow> i64 y = i64 y' \<Longrightarrow> i64 (x + y) = i64 (x' + y')"
  by (metis i64_add)

lemma i64_sum: "i64 (\<Sum>c\<leftarrow>xs. i64 (f c)) = i64 (\<Sum>c\<leftarrow>xs. f c)"
proof (induction xs)
  case (Cons x xs)
  then show ?case by (metis (no_types, lifting) i64_add list.simps(9) sum_list.Cons)
qed simp

text \<open>C18: The books balance per app. After any requests, served from counters that started at
  zero, the completions, prompt tokens and completion tokens of a configured app are those of the
  answers its callers got, and its completions, refusals over all codes and disconnects together
  are the requests it made (as 64-bit counters: modulo the wrap).\<close>

theorem books_balance:
  assumes "a \<in> set names" and "usageM P = NewUsageCounts names"
    and "serve_all (observed s) qs P = (es, Q)"
  shows "kget (us_completions (usageM Q)) a = i64 (int (length (answers a es))) \<and>
    kget (us_promptTokens (usageM Q)) a = i64 (\<Sum>r\<leftarrow>answers a es. PromptTokens (RUsage r)) \<and>
    kget (us_completionTokens (usageM Q)) a = i64 (\<Sum>r\<leftarrow>answers a es. CompletionTokens (RUsage r)) \<and>
    i64 (kget (us_completions (usageM Q)) a + (\<Sum>c\<leftarrow>ErrorCodes. kget (us_rejections (usageM Q)) (a, c))
      + kget (us_disconnects (usageM Q)) a) = i64 (int (length (asked_by a es)))"
proof -
  note run = served_run [OF assms]
  have c: "kget (us_completions (usageM Q)) a = i64 (sum_list (map (served_value (\<lambda>_. 1) a) es))"
    by (rule run) (simp_all split: UsageEvent.splits)
  have p: "kget (us_promptTokens (usageM Q)) a = i64 (sum_list (map (served_value PromptTokens a) es))"
    by (rule run) (simp_all split: UsageEvent.splits)
  have t: "kget (us_completionTokens (usageM Q)) a = i64 (sum_list (map (served_value CompletionTokens a) es))"
    by (rule run) (simp_all split: UsageEvent.splits)
  have "(\<Sum>c\<leftarrow>ErrorCodes. kget (us_rejections (usageM Q)) (a, c)) =
      (\<Sum>c\<leftarrow>ErrorCodes. i64 (sum_list (map (refused_value c a) es)))"
    by (rule arg_cong [of _ _ sum_list]) (simp add: refused_run [OF assms])
  moreover have "list_all (\<lambda>e. case snd e of Inl err \<Rightarrow> core_error err | Inr _ \<Rightarrow> True) es"
    using run_errors [OF assms(3)] by (simp add: list_all_iff)
  ultimately have "i64 (kget (us_completions (usageM Q)) a + (\<Sum>c\<leftarrow>ErrorCodes. kget (us_rejections (usageM Q)) (a, c))
      + kget (us_disconnects (usageM Q)) a) = i64 (int (length (asked_by a es)))"
    unfolding c left_run [OF assms] by (subst one_account_run [symmetric]) (auto intro!: i64_cong i64_sum)
  with c p t show ?thesis by (simp add: served_sum sum_list_triv)
qed

lemma observed_demo: "fst (Chat (observed demo_service) background ''token'' demo_request (new_process ns ps 0)) =
    Inr (served demo_request (row ''opus'' ''anthropic'') demo_completion)"
proof -
  have "demo_service\<lparr>usage := NopUsageRecorder\<rparr> = demo_service"
    by (simp add: demo_service_def NopUsageRecorder_def fun_eq_iff)
  with observing.chat_sim [of demo_service background "''token''" demo_request "new_process ns ps 0"] demo_run
  show ?thesis by (metis fst_conv observing.down_def new_process_def process.select_convs(1))
qed

theorem books_balance_witness:
  "let (es, Q) = serve_all (observed demo_service) [(background, ''token'', demo_request)]
       (new_process [''rag''] [''openai'', ''anthropic''] 0)
   in length (answers ''rag'' es) = 1 \<and> kget (us_completions (usageM Q)) ''rag'' = 1 \<and>
      kget (us_promptTokens (usageM Q)) ''rag'' = 7 \<and> kget (us_completionTokens (usageM Q)) ''rag'' = 3"
proof -
  let ?P = "new_process [''rag''] [''openai'', ''anthropic''] (0 :: int)"
  obtain es Q where run: "serve_all (observed demo_service) [(background, ''token'', demo_request)] ?P = (es, Q)"
    by fastforce
  have "fst (apps (observed demo_service) background ''token'' ?P) = Some demo_app"
    by (simp add: port_simps decorator_defs demo_service_def)
  then have es: "es = [(Some ''rag'', Inr (served demo_request (row ''opus'' ''anthropic'') demo_completion))]"
    using run observed_demo [of "[''rag'']" "[''openai'', ''anthropic'']"]
    by (auto simp: demo_app_def split: prod.splits)
  have "usageM ?P = NewUsageCounts [''rag'']" by (simp add: new_process_def)
  from books_balance [OF _ this run, of "''rag''"] have
    "kget (us_completions (usageM Q)) ''rag'' = 1 \<and> kget (us_promptTokens (usageM Q)) ''rag'' = 7 \<and>
     kget (us_completionTokens (usageM Q)) ''rag'' = 3"
    by (simp add: es answers_def asked_by_def served_def demo_completion_def i64_def)
  with run es show ?thesis by (simp add: answers_def asked_by_def)
qed

end
