(* ===== verification/SlotsLimiter.thy ===== *)
theory SlotsLimiter
  imports Ports ChatProps
begin

text \<open>
  \<open>internal/slots/limiter.go\<close>: the in-process semaphore. The mutex makes \<open>TryAcquire\<close> and
  every \<open>release\<close> one atomic step, so concurrent requests are interleavings of those steps
  (\<open>slot_step\<close>). A \<open>release\<close> closure is its index in \<open>onces\<close>: the app it captured and
  whether its \<open>sync.Once\<close> has run. Counts stay far below 64 bits.
\<close>

section \<open>The code\<close>

record Limiter =
  global :: int
  ceilings :: "string \<Rightarrow> int option"
  inFlight :: "string \<Rightarrow> int option"
  total :: int
  onces :: "(string \<times> bool) list"

definition NewLimiter :: "int \<Rightarrow> (string \<Rightarrow> int option) \<Rightarrow> Limiter" where
  "NewLimiter g own = \<lparr>global = g, ceilings = own, inFlight = (\<lambda>_. None), total = 0, onces = []\<rparr>"

text \<open>A lookup \<open>m[k]\<close> in a \<open>map[string]int\<close>: zero when the key is absent.\<close>

definition mget :: "(string \<Rightarrow> int option) \<Rightarrow> string \<Rightarrow> int" where
  "mget m k = (case m k of None \<Rightarrow> 0 | Some n \<Rightarrow> n)"

text \<open>The closure \<open>TryAcquire\<close> returns: \<open>once.Do\<close> runs its body the first time only.\<close>

definition release :: "nat \<Rightarrow> Limiter \<Rightarrow> Limiter" where
  "release h l =
     (if snd (onces l ! h) then l
      else let app = fst (onces l ! h); n = mget (inFlight l) app - 1
           in l\<lparr>inFlight := (inFlight l)(app := if n \<le> 0 then None else Some n),
                total := total l - 1,
                onces := (onces l)[h := (app, True)]\<rparr>)"

definition TryAcquire :: "string \<Rightarrow> Limiter \<Rightarrow> (nat + int) \<times> Limiter" where
  "TryAcquire app l =
     (let own = mget (ceilings l) app
      in if own > 0 \<and> mget (inFlight l) app \<ge> own then (Inr own, l)
         else if global l > 0 \<and> total l \<ge> global l then (Inr (global l), l)
         else (Inl (length (onces l)),
               l\<lparr>inFlight := (inFlight l)(app := Some (mget (inFlight l) app + 1)),
                 total := total l + 1,
                 onces := onces l @ [(app, False)]\<rparr>))"

definition InFlight :: "Limiter \<Rightarrow> string \<Rightarrow> int" where
  "InFlight l app = mget (inFlight l) app"

definition Total :: "Limiter \<Rightarrow> int" where
  "Total l = total l"

section \<open>Interleavings\<close>

text \<open>Any number of requests claim slots and call the closures they hold, in any order and as
  often as they like.\<close>

datatype slot_op = Acquire string | Release nat

inductive slot_step :: "Limiter \<Rightarrow> slot_op \<Rightarrow> Limiter \<Rightarrow> bool" where
  acquire: "slot_step l (Acquire app) (snd (TryAcquire app l))"
| release: "h < length (onces l) \<Longrightarrow> slot_step l (Release h) (release h l)"

inductive_cases slot_stepE: "slot_step l op l'"

inductive reachable :: "Limiter \<Rightarrow> Limiter \<Rightarrow> bool" for l0 where
  start: "reachable l0 l0"
| step: "reachable l0 l \<Longrightarrow> slot_step l op l' \<Longrightarrow> reachable l0 l'"

text \<open>The apps of the slots claimed and not yet released, one entry per slot.\<close>

definition outstanding :: "Limiter \<Rightarrow> string multiset" where
  "outstanding l = image_mset fst (filter_mset (\<lambda>h. \<not> snd h) (mset (onces l)))"

text \<open>An entry of the map exists exactly for the apps that hold a slot.\<close>

definition entry :: "nat \<Rightarrow> int option" where
  "entry n = (if n = 0 then None else Some (int n))"

definition counts_ok :: "Limiter \<Rightarrow> bool" where
  "counts_ok l \<longleftrightarrow> total l = int (size (outstanding l)) \<and>
     inFlight l = (\<lambda>app. entry (count (outstanding l) app))"

definition ceilings_ok :: "Limiter \<Rightarrow> bool" where
  "ceilings_ok l \<longleftrightarrow> (global l > 0 \<longrightarrow> total l \<le> global l) \<and>
     (\<forall>app. mget (ceilings l) app > 0 \<longrightarrow> InFlight l app \<le> mget (ceilings l) app)"

lemma mget_entry [simp]: "m app = entry n \<Longrightarrow> mget m app = int n"
  by (simp add: mget_def entry_def)

lemma counts_mget: "counts_ok l \<Longrightarrow> mget (inFlight l) app = int (count (outstanding l) app)"
  by (simp add: counts_ok_def)

lemma entry_Suc [simp]: "entry (Suc n) = Some (int n + 1)" and entry_0 [simp]: "entry 0 = None"
  by (simp_all add: entry_def)

lemma outstanding_acquire:
  "outstanding (l\<lparr>inFlight := m, total := t, onces := onces l @ [(app, False)]\<rparr>) =
     add_mset app (outstanding l)"
  by (simp add: outstanding_def)

lemma outstanding_release:
  assumes "h < length (onces l)" and "\<not> snd (onces l ! h)"
    and "onces l' = (onces l)[h := (a, True)]"
  shows "outstanding l = add_mset (fst (onces l ! h)) (outstanding l')"
proof -
  have "onces l ! h \<in># mset (onces l)" using assms(1) by simp
  then obtain M where M: "mset (onces l) = add_mset (onces l ! h) M" by (meson mset_add)
  with assms show ?thesis by (simp add: outstanding_def mset_update)
qed

lemma TryAcquire_counts:
  assumes "counts_ok l"
  shows "counts_ok (snd (TryAcquire app l))"
proof (cases "fst (TryAcquire app l)")
  case (Inl h)
  then have "snd (TryAcquire app l) = l\<lparr>inFlight := (inFlight l)(app := Some (mget (inFlight l) app + 1)),
      total := total l + 1, onces := onces l @ [(app, False)]\<rparr>"
    by (auto simp: TryAcquire_def Let_def split: if_splits)
  moreover have "(\<lambda>a. entry (count (add_mset app (outstanding l)) a)) =
      (\<lambda>a. entry (count (outstanding l) a))(app := Some (mget (inFlight l) app + 1))"
    using counts_mget [OF assms, of app] by (intro ext) simp
  ultimately show ?thesis
    using assms by (simp add: counts_ok_def outstanding_acquire)
next
  case (Inr n)
  then have "snd (TryAcquire app l) = l" by (auto simp: TryAcquire_def Let_def split: if_splits)
  with assms show ?thesis by simp
qed

lemma release_counts:
  assumes "counts_ok l" and "h < length (onces l)"
  shows "counts_ok (release h l)"
proof (cases "snd (onces l ! h)")
  case False
  define app where "app = fst (onces l ! h)"
  define l' where "l' = release h l"
  from False have l': "l' = l\<lparr>inFlight := (inFlight l)(app := if mget (inFlight l) app - 1 \<le> 0 then None
      else Some (mget (inFlight l) app - 1)), total := total l - 1, onces := (onces l)[h := (app, True)]\<rparr>"
    by (simp add: l'_def release_def app_def Let_def)
  obtain M where M: "outstanding l' = M" by blast
  then have out: "outstanding l = add_mset app M"
    using outstanding_release [OF assms(2) False, of l' app] M by (simp add: l' app_def)
  have n: "mget (inFlight l) app = int (count M app) + 1"
    using counts_mget [OF assms(1), of app] by (simp add: out)
  have "inFlight l' = (\<lambda>a. entry (count M a))"
  proof
    fix a
    have "inFlight l a = entry (count (add_mset app M) a)"
      using assms(1) by (simp add: counts_ok_def out)
    then show "inFlight l' a = entry (count M a)"
      by (cases "a = app") (simp_all add: l' n entry_def not_in_iff)
  qed
  moreover have "total l' = int (size M)"
    using assms(1) by (simp add: l' counts_ok_def out)
  ultimately show ?thesis using M by (simp add: l'_def counts_ok_def)
qed (use assms in \<open>simp add: release_def\<close>)

lemma TryAcquire_ceilings:
  "ceilings_ok l \<Longrightarrow> ceilings_ok (snd (TryAcquire app l))"
  by (auto simp: TryAcquire_def Let_def ceilings_ok_def InFlight_def mget_def)

lemma release_ceilings:
  assumes "counts_ok l" "ceilings_ok l" "h < length (onces l)"
  shows "ceilings_ok (release h l)"
proof -
  have "InFlight (release h l) app \<le> InFlight l app" for app
    using counts_mget [OF assms(1), of app]
    by (auto simp: release_def InFlight_def Let_def mget_def)
  moreover have "total (release h l) \<le> total l" by (simp add: release_def Let_def)
  moreover have "ceilings (release h l) = ceilings l" "global (release h l) = global l"
    by (simp_all add: release_def Let_def)
  ultimately show ?thesis
    using assms(2) unfolding ceilings_ok_def by (metis order_trans)
qed

lemma step_ok: "slot_step l op l' \<Longrightarrow> counts_ok l \<Longrightarrow> ceilings_ok l \<Longrightarrow> counts_ok l' \<and> ceilings_ok l'"
  by (auto elim!: slot_stepE intro: TryAcquire_counts TryAcquire_ceilings release_counts release_ceilings)

lemma reachable_ok:
  "reachable l0 l \<Longrightarrow> counts_ok l0 \<Longrightarrow> ceilings_ok l0 \<Longrightarrow> counts_ok l \<and> ceilings_ok l"
  by (induction rule: reachable.induct) (use step_ok in blast)+

lemma reachable_config: "reachable l0 l \<Longrightarrow> global l = global l0 \<and> ceilings l = ceilings l0"
  by (induction rule: reachable.induct)
    (auto elim!: slot_stepE simp: TryAcquire_def release_def Let_def)

lemma New_ok: "counts_ok (NewLimiter g own)" "ceilings_ok (NewLimiter g own)"
  by (simp_all add: NewLimiter_def counts_ok_def ceilings_ok_def outstanding_def InFlight_def mget_def)

section \<open>The limiter as the core's port\<close>

text \<open>The world of a service that uses this limiter: the limiter's state beside the rest.\<close>

definition slot_port :: "string \<Rightarrow> Limiter \<times> 'v \<Rightarrow> (Limiter \<times> 'v) SlotGrant \<times> (Limiter \<times> 'v)" where
  "slot_port app w =
     (case TryAcquire app (fst w) of
        (Inl h, l) \<Rightarrow> (Granted (apfst (release h)), (l, snd w))
      | (Inr n, l) \<Rightarrow> (Refused n, (l, snd w)))"

text \<open>A service of other ports, with its slot port replaced by the limiter.\<close>

definition slotted :: "'v Service \<Rightarrow> (Limiter \<times> 'v) Service" where
  "slotted s = \<lparr>cfg = cfg s,
     apps = (\<lambda>c k w. apsnd (Pair (fst w)) (apps s c k (snd w))),
     limits = (\<lambda>c a w. apsnd (Pair (fst w)) (limits s c a (snd w))),
     tokens_Check = (\<lambda>c a w. apsnd (Pair (fst w)) (tokens_Check s c a (snd w))),
     tokens_Settle = (\<lambda>c a n w. apsnd (Pair (fst w)) (tokens_Settle s c a n (snd w))),
     slots = slot_port,
     provider = (\<lambda>c mp req w. apsnd (Pair (fst w)) (provider s c mp req (snd w))),
     usage = (\<lambda>e w. apsnd (usage s e) w),
     clock = (\<lambda>w. clock s (snd w))\<rparr>"

lemma TryAcquire_granted:
  assumes "TryAcquire app l = (Inl h, l1)"
  shows "h = length (onces l)"
    and "l1 = l\<lparr>inFlight := (inFlight l)(app := Some (mget (inFlight l) app + 1)),
           total := total l + 1, onces := onces l @ [(app, False)]\<rparr>"
  using assms by (auto simp: TryAcquire_def Let_def split: if_splits)

lemma TryAcquire_refused: "TryAcquire app l = (Inr n, l1) \<Longrightarrow> l1 = l"
  by (auto simp: TryAcquire_def Let_def split: if_splits)

lemma release_acquired:
  assumes "TryAcquire app l = (Inl h, l1)"
  shows "release h l1 = l\<lparr>inFlight := (inFlight l)(app := if mget (inFlight l) app \<le> 0 then None
      else Some (mget (inFlight l) app)), onces := onces l @ [(app, True)]\<rparr>"
  by (simp add: TryAcquire_granted [OF assms] release_def Let_def mget_def)

lemma slot_port_cases:
  "slot_port app w = (Refused n, w1) \<Longrightarrow> w1 = w"
  "slot_port app w = (Granted rel, w1) \<Longrightarrow> \<exists>h l1. TryAcquire app (fst w) = (Inl h, l1) \<and>
      rel = apfst (release h) \<and> w1 = (l1, snd w)"
  by (auto simp: slot_port_def split: prod.splits sum.splits dest: TryAcquire_refused)

lemma release_restores:
  assumes "TryAcquire app l = (Inl h, l1)" and "counts_ok l"
  shows "inFlight (release h l1) = inFlight l" and "total (release h l1) = total l"
    and "onces (release h l1) = onces l @ [(app, True)]"
  using counts_mget [OF assms(2), of app] assms(2)
  by (auto simp: release_acquired [OF assms(1)] counts_ok_def entry_def fun_eq_iff not_in_iff)

interpretation sl: slot_limiter slot_port fst counts_ok InFlight
proof unfold_locales
  fix a :: string and w w1 w2 :: "Limiter \<times> 'v" and rel n
  show "slot_port a w = (Refused n, w1) \<Longrightarrow> fst w1 = fst w"
    by (auto dest: slot_port_cases)
  assume ok: "counts_ok (fst w)" and g: "slot_port a w = (Granted rel, w1)"
  from slot_port_cases(2) [OF g] obtain h l1 where
    t: "TryAcquire a (fst w) = (Inl h, l1)" "rel = apfst (release h)" "w1 = (l1, snd w)" by blast
  from TryAcquire_counts [OF ok, of a] t have ok1: "counts_ok l1" by simp
  with t show "counts_ok (fst w1) \<and> InFlight (fst w1) = (InFlight (fst w))(a := InFlight (fst w) a + 1)"
    by (auto simp: TryAcquire_granted(2) [OF t(1)] InFlight_def mget_def intro!: ext)
  assume "fst w2 = fst w1"
  moreover have "h < length (onces l1)" using TryAcquire_granted [OF t(1)] by simp
  ultimately show "counts_ok (fst (rel w2)) \<and> InFlight (fst (rel w2)) = InFlight (fst w)"
    using t ok ok1 release_restores [OF t(1) ok]
    by (auto simp: InFlight_def intro: release_counts intro!: ext)
qed

lemma slotted_slots [simp]: "slots (slotted s) = slot_port"
  by (simp add: slotted_def)

interpretation sc: slot_client "slotted s" fst counts_ok InFlight for s
  by unfold_locales
    (auto simp: slotted_def dest: sl.refused sl.granted sl.released)

section \<open>Properties\<close>

text \<open>C9: The semaphore under every interleaving of claims and releases, double releases included:
  the total is the number of slots claimed and not yet released, each app's count is the
  number of its own, and neither the global cap nor an app's ceiling is ever exceeded.\<close>

theorem slots_never_exceeded:
  assumes "reachable (NewLimiter g own) l"
  shows "Total l = int (size (outstanding l)) \<and>
    InFlight l app = int (count (outstanding l) app) \<and>
    (0 < g \<longrightarrow> Total l \<le> g) \<and> (0 < mget own app \<longrightarrow> InFlight l app \<le> mget own app)"
proof -
  from reachable_ok [OF assms] New_ok have "counts_ok l" "ceilings_ok l" by auto
  moreover from reachable_config [OF assms] have "global l = g" "ceilings l = own"
    by (simp_all add: NewLimiter_def)
  ultimately show ?thesis
    using counts_mget [of l app] by (simp add: ceilings_ok_def counts_ok_def Total_def InFlight_def)
qed

theorem slots_never_exceeded_witness:
  "Total (snd (TryAcquire ''rag'' (NewLimiter 2 [''rag'' \<mapsto> 1]))) \<le> 2 \<and>
   InFlight (snd (TryAcquire ''rag'' (NewLimiter 2 [''rag'' \<mapsto> 1]))) ''rag'' \<le> 1"
proof -
  have "reachable (NewLimiter 2 [''rag'' \<mapsto> 1]) (snd (TryAcquire ''rag'' (NewLimiter 2 [''rag'' \<mapsto> 1])))"
    by (rule reachable.step [OF reachable.start slot_step.acquire])
  from slots_never_exceeded [OF this, of "''rag''"] show ?thesis by (simp add: mget_def)
qed

text \<open>A claim is refused exactly when a ceiling is met, and then names it: the app's own
  ceiling before the global cap. A granted claim adds one slot to that app and to the total
  and touches no other app.\<close>

theorem slot_claim_outcome:
  "case TryAcquire app l of
     (Inr n, l') \<Rightarrow> l' = l \<and>
        (if 0 < mget (ceilings l) app \<and> mget (ceilings l) app \<le> InFlight l app
         then n = mget (ceilings l) app
         else n = global l \<and> 0 < global l \<and> global l \<le> Total l)
   | (Inl h, l') \<Rightarrow> h = length (onces l) \<and> Total l' = Total l + 1 \<and>
        InFlight l' = (InFlight l)(app := InFlight l app + 1) \<and>
        (mget (ceilings l) app \<le> 0 \<or> InFlight l app < mget (ceilings l) app) \<and>
        (global l \<le> 0 \<or> Total l < global l)"
  by (auto simp: TryAcquire_def InFlight_def Total_def mget_def Let_def fun_eq_iff)

text \<open>Releasing a slot twice is releasing it once, also when other claims and releases came in
  between.\<close>

theorem slot_release_once:
  assumes "h < length (onces l)" and "reachable (release h l) l'"
  shows "release h l' = l'"
proof -
  have "h < length (onces l') \<and> snd (onces l' ! h)"
    using assms(2)
  proof induction
    case start
    with assms(1) show ?case by (simp add: release_def Let_def)
  next
    case (step l1 op l2)
    then show ?case
      by (auto elim!: slot_stepE
          simp: TryAcquire_def release_def Let_def nth_append nth_list_update)
  qed
  then show ?thesis by (simp add: release_def)
qed

theorem slot_release_once_witness:
  "release 0 (snd (TryAcquire ''b'' (release 0 (snd (TryAcquire ''a'' (NewLimiter 0 Map.empty)))))) =
     snd (TryAcquire ''b'' (release 0 (snd (TryAcquire ''a'' (NewLimiter 0 Map.empty)))))"
proof -
  let ?l = "snd (TryAcquire ''a'' (NewLimiter 0 Map.empty))"
  have "0 < length (onces ?l)" by (simp add: TryAcquire_def NewLimiter_def Let_def mget_def)
  moreover have "reachable (release 0 ?l) (snd (TryAcquire ''b'' (release 0 ?l)))"
    by (rule reachable.step [OF reachable.start slot_step.acquire])
  ultimately show ?thesis by (rule slot_release_once)
qed

text \<open>With the semaphore as its slot port, a request gives back exactly what it took: when
  \<open>Chat\<close> returns, answered, refused or failed, every app holds the slots it held before.\<close>

theorem chat_returns_its_slot:
  assumes "counts_ok (fst w)"
  shows "InFlight (fst (snd (Chat (slotted s) c k req w))) = InFlight (fst w)"
  using sc.chat_held [OF assms] by blast

theorem chat_returns_its_slot_witness:
  "InFlight (fst (snd (Chat (slotted demo_service) background ''token'' demo_request
     (NewLimiter 1 Map.empty, 0)))) ''rag'' = 0"
proof -
  have "counts_ok (fst (NewLimiter 1 Map.empty, 0 :: int))" by (simp add: New_ok)
  from chat_returns_its_slot [OF this] show ?thesis
    by (simp add: InFlight_def NewLimiter_def mget_def)
qed

end
