(* ===== verification/Auth.thy ===== *)
theory Auth
  imports Web Service
begin

text \<open>
  \<open>internal/auth\<close>: the cluster's signing keys (\<open>jwks.go\<close>), token verification (\<open>token.go\<close>),
  the directory of apps (\<open>directory.go\<close>), the boot check of the issuer (\<open>discovery.go\<close>), the
  client that reaches the cluster (\<open>client.go\<close>) and the refresh loop (\<open>refresher.go\<close>).

  SHA-256 and RSA PKCS #1 v1.5 are parameters. Messages of the standard library are abbreviated
  where they quote offsets. A time is nanoseconds since the Unix epoch.
\<close>

section \<open>Signing keys\<close>

record rsa_key =
  Modulus :: nat
  Exponent :: int

record crypto =
  sha256 :: "string \<Rightarrow> string"
  pkcs1v15_ok :: "rsa_key \<Rightarrow> string \<Rightarrow> string \<Rightarrow> bool"

definition defaultFetchTimeout :: int where "defaultFetchTimeout = 10 * Second"
definition maxJWKSBytes :: nat where "maxJWKSBytes = 2 ^ 20"

text \<open>\<open>loadedAt\<close> is \<open>None\<close> for the zero time. The map of keys is an association list.\<close>

record JWKSCache =
  jwks_url :: string
  jwks_keys :: "(string \<times> rsa_key) list"
  jwks_loadedAt :: "int option"

definition NewJWKSCache :: "string \<Rightarrow> go_error + JWKSCache" where
  "NewJWKSCache url =
     (if url = '''' then Inl (ErrText ''auth: JWKS URL is required'')
      else Inr \<lparr>jwks_url = url, jwks_keys = [], jwks_loadedAt = None\<rparr>)"

record jwk =
  Kty :: string
  Kid :: string
  N64 :: string
  E64 :: string

fun dec_jwk :: "jwk dec" where
  "dec_jwk j =
     (case (fld ''kty'' dec_string j, fld ''kid'' dec_string j, fld ''n'' dec_string j, fld ''e'' dec_string j) of
        (Some t, Some k, Some n, Some e) \<Rightarrow> Some \<lparr>Kty = t, Kid = k, N64 = n, E64 = e\<rparr>
      | _ \<Rightarrow> None)"

definition dec_jwks :: "jwk list dec" where
  "dec_jwks j = fld ''keys'' (dec_list dec_jwk) j"

definition rsaKey :: "string \<Rightarrow> string \<Rightarrow> go_error + rsa_key" where
  "rsaKey n e =
     (case b64_decode n of
        None \<Rightarrow> Inl (ErrWrap ''modulus'' (ErrText ''illegal base64 data''))
      | Some nb \<Rightarrow>
          (case b64_decode e of
             None \<Rightarrow> Inl (ErrWrap ''exponent'' (ErrText ''illegal base64 data''))
           | Some eb \<Rightarrow>
               if nb = [] \<or> eb = [] then Inl (ErrText ''empty modulus or exponent'')
               else if int (set_bytes eb) \<ge> 2 ^ 63 \<or> int (set_bytes eb) > 2 ^ 32 - 1
                 then Inl (ErrText ''exponent out of range'')
               else Inr \<lparr>Modulus = set_bytes nb, Exponent = int (set_bytes eb)\<rparr>))"

text \<open>The loop over the document's keys.\<close>

fun collect_keys :: "jwk list \<Rightarrow> (string \<times> rsa_key) list \<Rightarrow> go_error + (string \<times> rsa_key) list" where
  "collect_keys [] acc = Inr acc"
| "collect_keys (k # ks) acc =
     (if Kty k \<noteq> ''RSA'' \<or> Kid k = '''' then collect_keys ks acc
      else case rsaKey (N64 k) (E64 k) of
        Inl err \<Rightarrow> Inl (ErrWrap (''auth: JWKS key '' @ quote (Kid k)) err)
      | Inr pub \<Rightarrow> collect_keys ks (AList.update (Kid k) pub acc))"

definition keys_of_reply :: "'w Web \<Rightarrow> web_reply \<Rightarrow> go_error + (string \<times> rsa_key) list" where
  "keys_of_reply W r =
     (if wr_status r \<noteq> 200 then Inl (ErrText (''auth: fetch JWKS: status '' @ itoa (wr_status r)))
      else case decode_first W maxJWKSBytes r of
        Inl err \<Rightarrow> Inl (ErrWrap ''auth: decode JWKS'' err)
      | Inr j \<Rightarrow>
          (case dec_jwks [j] of
             None \<Rightarrow> Inl (ErrWrap ''auth: decode JWKS'' (ErrText ''json: cannot unmarshal''))
           | Some wire \<Rightarrow>
               (case collect_keys wire [] of
                  Inl err \<Rightarrow> Inl err
                | Inr ks \<Rightarrow>
                    if ks = [] then Inl (ErrText ''auth: JWKS document holds no usable RSA key'')
                    else Inr ks)))"

definition get_request :: "string \<Rightarrow> web_request" where
  "get_request url = \<lparr>wr_method = ''GET'', wr_url = url, wr_headers = [], wr_body = ''''\<rparr>"

definition jwks_Refresh ::
  "'w Web \<Rightarrow> ('w \<Rightarrow> int) \<Rightarrow> ctx \<Rightarrow> JWKSCache \<times> 'w \<Rightarrow> go_error option \<times> JWKSCache \<times> 'w" where
  "jwks_Refresh W now c cw =
     (let (C, w) = cw
      in case web_bad W (jwks_url C) of
           Some err \<Rightarrow> (Some (ErrWrap ''auth: build JWKS request'' err), C, w)
         | None \<Rightarrow>
             (case web_do W c (get_request (jwks_url C)) w of
                (Inl err, w) \<Rightarrow> (Some (ErrWrap ''auth: fetch JWKS'' err), C, w)
              | (Inr r, w) \<Rightarrow>
                  (case keys_of_reply W r of
                     Inl err \<Rightarrow> (Some err, C, w)
                   | Inr ks \<Rightarrow> (None, C\<lparr>jwks_keys := ks, jwks_loadedAt := Some (now w)\<rparr>, w))))"

definition jwks_Age :: "JWKSCache \<Rightarrow> int \<Rightarrow> int option" where
  "jwks_Age C t = map_option (\<lambda>t0. t - t0) (jwks_loadedAt C)"

definition jwks_Ready :: "JWKSCache \<Rightarrow> go_error option" where
  "jwks_Ready C = (if jwks_keys C = [] then Some (ErrText ''no service-account keys loaded yet'') else None)"

definition jwks_key :: "JWKSCache \<Rightarrow> string \<Rightarrow> rsa_key option" where
  "jwks_key C = map_of (jwks_keys C)"

text \<open>\<open>KeepFresh\<close>: once at once, then at every tick until the context ends.\<close>

definition jwks_KeepFresh ::
  "('w \<Rightarrow> go_error option \<times> 'w) \<Rightarrow> int \<Rightarrow> 'w wake list \<Rightarrow> 'w \<Rightarrow> 'w" where
  "jwks_KeepFresh refresh interval wakes w =
     (let w1 = snd (refresh w) in if interval \<le> 0 then w1 else refresh_loop refresh wakes w1)"

section \<open>Tokens\<close>

definition leeway :: int where "leeway = 30 * Second"

record jose_header =
  Alg :: string
  HKid :: string

record claims =
  Iss :: string
  Subject :: string
  Audience :: "string list"
  Expiry :: int
  NotBefore :: int

definition dec_header :: "jose_header dec" where
  "dec_header j =
     (case (fld ''alg'' dec_string j, fld ''kid'' dec_string j) of
        (Some a, Some k) \<Rightarrow> Some \<lparr>Alg = a, HKid = k\<rparr> | _ \<Rightarrow> None)"

text \<open>\<open>audience.UnmarshalJSON\<close>: a string or an array of strings.\<close>

fun store_audience :: "string list \<Rightarrow> json \<Rightarrow> string list option" where
  "store_audience old (JStr s) = Some [s]"
| "store_audience old j = store_list dec_string old j"

definition dec_audience :: "string list dec" where
  "dec_audience = dec_from store_audience []"

definition dec_claims :: "claims dec" where
  "dec_claims j =
     (case (fld ''iss'' dec_string j, fld ''sub'' dec_string j, fld ''aud'' dec_audience j,
            fld ''exp'' dec_int j, fld ''nbf'' dec_int j) of
        (Some i, Some s, Some a, Some x, Some n) \<Rightarrow>
          Some \<lparr>Iss = i, Subject = s, Audience = a, Expiry = x, NotBefore = n\<rparr>
      | _ \<Rightarrow> None)"

definition contains :: "string list \<Rightarrow> string \<Rightarrow> bool" where
  "contains a want \<longleftrightarrow> list_ex (\<lambda>aud. aud = want) a"

text \<open>
  A \<open>time.Time\<close> counts seconds since the year 1 in 64 bits: \<open>time.Unix\<close> wraps around,
  \<open>Add\<close> of a positive duration saturates. \<open>internal\<close> puts the clock on the same scale.
\<close>

definition unixToInternal :: int where "unixToInternal = 62135596800"

definition unix_time :: "int \<Rightarrow> int" where
  "unix_time sec = i64 (sec + unixToInternal)"

definition add_seconds :: "int \<Rightarrow> int \<Rightarrow> int" where
  "add_seconds t d = (if t + d < 2 ^ 63 then t + d else 2 ^ 63 - 1)"

definition internal :: "int \<Rightarrow> int" where
  "internal now = now + unixToInternal * Second"

text \<open>The judgment of the claims, in the order of the switch.\<close>

definition judge :: "claims \<Rightarrow> string \<Rightarrow> string \<Rightarrow> int \<Rightarrow> go_error + string" where
  "judge c issuer aud now =
     (if Iss c \<noteq> issuer then Inl (ErrText (''issuer '' @ quote (Iss c) @ '' is not this cluster's''))
      else if \<not> contains (Audience c) aud then
        Inl (ErrText ''token is not bound to this gateway's audience'')
      else if Expiry c = 0 then Inl (ErrText ''token carries no expiry'')
      else if internal now > add_seconds (unix_time (Expiry c)) (leeway div Second) * Second then
        Inl (ErrText ''token is expired'')
      else if NotBefore c \<noteq> 0 \<and> internal now + leeway < unix_time (NotBefore c) * Second then
        Inl (ErrText ''token is not yet valid'')
      else if Subject c = '''' then Inl (ErrText ''token names no subject'')
      else Inr (Subject c))"

definition decode_part :: "codec \<Rightarrow> string \<Rightarrow> 'a dec \<Rightarrow> string \<Rightarrow> go_error + 'a" where
  "decode_part C name d part =
     (case b64_text part of
        None \<Rightarrow> Inl (ErrWrap name (ErrText ''illegal base64 data''))
      | Some js \<Rightarrow> (case unmarshal C d js of Inl e \<Rightarrow> Inl (ErrWrap name e) | Inr x \<Rightarrow> Inr x))"

definition verifyToken ::
  "crypto \<Rightarrow> codec \<Rightarrow> string \<Rightarrow> (string \<Rightarrow> rsa_key option) \<Rightarrow> string \<Rightarrow> string \<Rightarrow> int \<Rightarrow> go_error + string" where
  "verifyToken K C raw keyFor issuer aud now =
     (case split_on CHR ''.'' raw of
        [p0, p1, p2] \<Rightarrow>
          (case decode_part C ''header'' dec_header p0 of
             Inl e \<Rightarrow> Inl e
           | Inr h \<Rightarrow>
               if Alg h \<noteq> ''RS256'' then Inl (ErrText (''algorithm '' @ quote (Alg h) @ '' is not allowed''))
               else if HKid h = '''' then Inl (ErrText ''header names no key'')
               else case keyFor (HKid h) of
                 None \<Rightarrow> Inl (ErrText (''no key for kid '' @ quote (HKid h)))
               | Some pub \<Rightarrow>
                   (case b64_text p2 of
                      None \<Rightarrow> Inl (ErrWrap ''signature'' (ErrText ''illegal base64 data''))
                    | Some sig \<Rightarrow>
                        if \<not> pkcs1v15_ok K pub (sha256 K (p0 @ ''.'' @ p1)) sig then
                          Inl (ErrText ''signature does not verify'')
                        else case decode_part C ''claims'' dec_claims p1 of
                          Inl e \<Rightarrow> Inl e
                        | Inr c \<Rightarrow> judge c issuer aud now))
      | _ \<Rightarrow> Inl (ErrText ''token is not a compact JWT''))"

section \<open>The directory\<close>

record AuthConfig =
  Issuer :: string
  AudienceName :: string
  AppTable :: "(string \<times> App) list"

definition NewDirectory :: "AuthConfig \<Rightarrow> JWKSCache option \<Rightarrow> go_error option" where
  "NewDirectory conf cache =
     (if Issuer conf = '''' then Some (ErrText ''auth: Issuer is required'')
      else if AudienceName conf = '''' then Some (ErrText ''auth: Audience is required'')
      else if AppTable conf = [] then Some (ErrText ''auth: at least one app must be named'')
      else if cache = None then Some (ErrText ''auth: JWKSCache is required'')
      else None)"

definition AppForKey :: "crypto \<Rightarrow> codec \<Rightarrow> AuthConfig \<Rightarrow> JWKSCache \<Rightarrow> int \<Rightarrow> string \<Rightarrow> App option" where
  "AppForKey K C conf cache now token =
     (case verifyToken K C token (jwks_key cache) (Issuer conf) (AudienceName conf) now of
        Inl _ \<Rightarrow> None
      | Inr subject \<Rightarrow> map_of (AppTable conf) subject)"

section \<open>The cluster\<close>

definition wellKnownPath :: string where "wellKnownPath = ''/.well-known/openid-configuration''"
definition maxDiscoveryBytes :: nat where "maxDiscoveryBytes = 2 ^ 20"

text \<open>\<open>url_parts\<close> is \<open>url.Parse\<close>: the scheme and the host, or an error.\<close>

definition DiscoveryURL :: "(string \<Rightarrow> go_error + string \<times> string) \<Rightarrow> string \<Rightarrow> go_error + string" where
  "DiscoveryURL url_parts url =
     (case url_parts url of
        Inl e \<Rightarrow> Inl (ErrWrap (''auth: parse JWKS URL '' @ quote url) e)
      | Inr (scheme, host) \<Rightarrow>
          if scheme = '''' \<or> host = '''' then
            Inl (ErrText (''auth: JWKS URL '' @ quote url @ '' must be absolute''))
          else Inr (scheme @ ''://'' @ host @ wellKnownPath))"

definition issuer_of_reply :: "'w Web \<Rightarrow> web_reply \<Rightarrow> go_error + string" where
  "issuer_of_reply W r =
     (if wr_status r \<noteq> 200 then
        Inl (ErrText (''auth: fetch discovery document: status '' @ itoa (wr_status r)))
      else case decode_first W maxDiscoveryBytes r of
        Inl err \<Rightarrow> Inl (ErrWrap ''auth: decode discovery document'' err)
      | Inr j \<Rightarrow>
          (case fld ''issuer'' dec_string [j] of
             None \<Rightarrow> Inl (ErrWrap ''auth: decode discovery document'' (ErrText ''json: cannot unmarshal''))
           | Some iss \<Rightarrow>
               if iss = '''' then Inl (ErrText ''auth: discovery document advertises no issuer'')
               else Inr iss))"

definition VerifyIssuer ::
  "'w Web \<Rightarrow> (string \<Rightarrow> go_error + string \<times> string) \<Rightarrow> ctx \<Rightarrow> string \<Rightarrow> string \<Rightarrow> 'w \<Rightarrow> go_error option \<times> 'w" where
  "VerifyIssuer W url_parts c url issuer w =
     (case DiscoveryURL url_parts url of
        Inl e \<Rightarrow> (Some e, w)
      | Inr durl \<Rightarrow>
          (case web_bad W durl of
             Some e \<Rightarrow> (Some (ErrWrap ''auth: build discovery request'' e), w)
           | None \<Rightarrow>
               (case web_do W c (get_request durl) w of
                  (Inl e, w) \<Rightarrow> (Some (ErrWrap ''auth: fetch discovery document'' e), w)
                | (Inr r, w) \<Rightarrow>
                    (case issuer_of_reply W r of
                       Inl e \<Rightarrow> (Some e, w)
                     | Inr iss \<Rightarrow>
                         (if iss \<noteq> issuer then Some (ErrIssuerMismatch issuer iss) else None, w)))))"

definition DefaultServiceAccountDir :: string where
  "DefaultServiceAccountDir = ''/var/run/secrets/kubernetes.io/serviceaccount''"

text \<open>The client is a plain one, or one that trusts the given CA bundle and carries the token
  found in a file.\<close>

datatype fetch_client = Plain | InCluster string string

definition NewFetchClient :: "'w Files \<Rightarrow> string \<Rightarrow> 'w \<Rightarrow> go_error + fetch_client" where
  "NewFetchClient F dir w =
     (let dir = (if dir = '''' then DefaultServiceAccountDir else dir);
          ca_path = dir @ ''/ca.crt''
      in if not_exist F ca_path w then Inr Plain
         else case read_file F ca_path w of
           Inl err \<Rightarrow> Inl (ErrWrap ''auth: read cluster CA'' err)
         | Inr ca \<Rightarrow>
             if \<not> usable_pem F ca then
               Inl (ErrText (''auth: cluster CA '' @ quote ca_path @ '' holds no usable certificate''))
             else Inr (InCluster ca (dir @ ''/token'')))"

text \<open>\<open>bearerTransport.RoundTrip\<close> around a transport.\<close>

definition bearer_RoundTrip ::
  "'w Files \<Rightarrow> string \<Rightarrow> (ctx \<Rightarrow> web_request \<Rightarrow> 'w \<Rightarrow> (go_error + web_reply) \<times> 'w)
     \<Rightarrow> ctx \<Rightarrow> web_request \<Rightarrow> 'w \<Rightarrow> (go_error + web_reply) \<times> 'w" where
  "bearer_RoundTrip F token_path base c rq w =
     (case read_file F token_path w of
        Inl err \<Rightarrow> (Inl (ErrWrap ''auth: read ServiceAccount token'' err), w)
      | Inr token \<Rightarrow>
          base c (rq\<lparr>wr_headers := AList.update ''Authorization'' (''Bearer '' @ trim_space token) (wr_headers rq)\<rparr>) w)"

section \<open>The cache fails static\<close>

lemma jwks_Refresh_cases:
  obtains e w1 where "jwks_Refresh W now c (C, w) = (Some e, C, w1)"
  | ks r w1 where "jwks_Refresh W now c (C, w) = (None, C\<lparr>jwks_keys := ks, jwks_loadedAt := Some (now w1)\<rparr>, w1)"
      "web_do W c (get_request (jwks_url C)) w = (Inr r, w1)" "keys_of_reply W r = Inr ks"
  by (cases "jwks_Refresh W now c (C, w)")
    (auto simp: jwks_Refresh_def split: option.splits prod.splits sum.splits)

lemma keys_of_reply_some: "keys_of_reply W r = Inr ks \<Longrightarrow> ks \<noteq> []"
  by (auto simp: keys_of_reply_def split: if_splits sum.splits option.splits)

interpretation jwks: fail_static "jwks_Refresh W now c" fst "\<lambda>C. jwks_Ready C = None" for W now c
proof unfold_locales
  fix cw :: "JWKSCache \<times> 'a" and e cw1
  obtain C w where [simp]: "cw = (C, w)" by fastforce
  { assume "jwks_Refresh W now c cw = (Some e, cw1)"
    then show "fst cw1 = fst cw" by (cases rule: jwks_Refresh_cases [of W now c C w]) auto }
  { assume "jwks_Refresh W now c cw = (None, cw1)"
    then show "jwks_Ready (fst cw1) = None"
      by (cases rule: jwks_Refresh_cases [of W now c C w]) (auto simp: jwks_Ready_def dest: keys_of_reply_some) }
qed

text \<open>What a document's keys become: the RSA members with a name, the last of a name winning.\<close>

definition usable :: "jwk \<Rightarrow> bool" where
  "usable k \<longleftrightarrow> Kty k = ''RSA'' \<and> Kid k \<noteq> ''''"

lemma find_append: "find P (xs @ ys) = (case find P xs of None \<Rightarrow> find P ys | Some x \<Rightarrow> Some x)"
  by (induction xs) auto

lemma collect_keys_lookup:
  "collect_keys ks acc = Inr res \<Longrightarrow>
     map_of res kid =
       (case find (\<lambda>k. usable k \<and> Kid k = kid) (rev ks) of
          Some k \<Rightarrow> (case rsaKey (N64 k) (E64 k) of Inr pub \<Rightarrow> Some pub | Inl _ \<Rightarrow> None)
        | None \<Rightarrow> map_of acc kid)"
proof (induction ks acc rule: collect_keys.induct)
  case (2 k ks acc)
  show ?case
  proof (cases "usable k")
    case False
    with 2 show ?thesis by (auto simp: usable_def find_append split: option.splits)
  next
    case True
    with 2(3) obtain pub where p: "rsaKey (N64 k) (E64 k) = Inr pub"
      and c: "collect_keys ks (AList.update (Kid k) pub acc) = Inr res"
      by (auto simp: usable_def split: sum.splits)
    with True 2(2) have "map_of res kid =
       (case find (\<lambda>k. usable k \<and> Kid k = kid) (rev ks) of
          Some k \<Rightarrow> (case rsaKey (N64 k) (E64 k) of Inr pub \<Rightarrow> Some pub | Inl _ \<Rightarrow> None)
        | None \<Rightarrow> map_of (AList.update (Kid k) pub acc) kid)"
      by (auto simp: usable_def)
    with True p show ?thesis by (auto simp: find_append update_conv' usable_def split: option.splits)
  qed
qed simp

text \<open>The key a reply publishes for a name.\<close>

definition published :: "'w Web \<Rightarrow> web_reply \<Rightarrow> string \<Rightarrow> rsa_key option" where
  "published W r kid =
     (case decode_first W maxJWKSBytes r of
        Inl _ \<Rightarrow> None
      | Inr j \<Rightarrow>
          (case find (\<lambda>k. usable k \<and> Kid k = kid) (rev (the (dec_jwks [j]))) of
             None \<Rightarrow> None
           | Some k \<Rightarrow> (case rsaKey (N64 k) (E64 k) of Inl _ \<Rightarrow> None | Inr pub \<Rightarrow> Some pub)))"

lemma keys_of_reply_published:
  "keys_of_reply W r = Inr ks \<Longrightarrow> map_of ks = published W r"
  by (rule ext)
    (auto simp: keys_of_reply_def published_def
      split: if_splits sum.splits option.splits dest!: collect_keys_lookup)

text \<open>C33: The signing keys fail static: a refresh that reports an error leaves the cache as it was, and
  one that succeeds leaves a cache that is ready, dated now, and holds for every key name what the
  document just fetched publishes under it (the last usable RSA member of that name).\<close>

theorem jwks_refresh_outcome:
  "case jwks_Refresh W now c (C, w) of
     (Some e, C1, w1) \<Rightarrow> C1 = C
   | (None, C1, w1) \<Rightarrow>
       jwks_Ready C1 = None \<and> jwks_loadedAt C1 = Some (now w1) \<and>
       (\<exists>r. fst (web_do W c (get_request (jwks_url C)) w) = Inr r \<and> wr_status r = 200 \<and>
          jwks_key C1 = published W r)"
proof (cases rule: jwks_Refresh_cases [of W now c C w])
  case (2 ks r w1)
  then have "wr_status r = 200" by (auto simp: keys_of_reply_def split: if_splits)
  with 2 keys_of_reply_published [OF 2(3)] keys_of_reply_some [OF 2(3)] show ?thesis
    by (simp add: jwks_Ready_def jwks_key_def)
qed simp

text \<open>Once ready, always ready: whatever the endpoint answers for as long as the refresh loop runs, a
  cache that holds keys still holds keys.\<close>

theorem jwks_stays_ready:
  assumes "jwks_Ready C = None" "list_all (\<lambda>k. \<forall>cw. fst (env_of k cw) = fst cw) wakes"
  shows "jwks_Ready (fst (jwks_KeepFresh (jwks_Refresh W now c) interval wakes (C, w))) = None"
  using assms jwks.refresh_keeps [of "(C, w)" W now c]
  by (simp add: jwks_KeepFresh_def Let_def jwks.loop_keeps)

definition dead_web :: "nat Web" where
  "dead_web = \<lparr>web_bad = \<lambda>_. None, web_do = \<lambda>_ _ w. (Inl (ErrText ''connection refused''), w),
     web_first = \<lambda>_. NoJson, web_codec = \<lparr>parse = \<lambda>_. None, json_text = \<lambda>_. ''''\<rparr>\<rparr>"

definition warm_cache :: JWKSCache where
  "warm_cache = \<lparr>jwks_url = ''u'', jwks_keys = [(''k1'', \<lparr>Modulus = 15, Exponent = 3\<rparr>)], jwks_loadedAt = Some 1\<rparr>"

theorem jwks_stays_ready_witness:
  "jwks_Ready (fst (jwks_KeepFresh (jwks_Refresh dead_web int background) Minute
     [Tick (apsnd Suc), Tick (apsnd Suc)] (warm_cache, 7))) = None"
  by (rule jwks_stays_ready) (simp_all add: warm_cache_def jwks_Ready_def)

section \<open>Who is accepted\<close>

lemma unix_time_simps:
  "in_i64 x \<Longrightarrow> x + unixToInternal < 2 ^ 63 \<Longrightarrow> unix_time x = x + unixToInternal"
  "in_i64 x \<Longrightarrow> \<not> x + unixToInternal < 2 ^ 63 \<Longrightarrow> unix_time x = x + unixToInternal - 2 ^ 64"
proof -
  show "in_i64 x \<Longrightarrow> x + unixToInternal < 2 ^ 63 \<Longrightarrow> unix_time x = x + unixToInternal"
    by (simp add: unix_time_def in_i64_def unixToInternal_def)
  assume x: "in_i64 x" "\<not> x + unixToInternal < 2 ^ 63"
  let ?y = "x + unixToInternal + 2 ^ 63"
  have "?y mod 2 ^ 64 = (?y - 2 ^ 64) mod 2 ^ 64" by (rule minus_mod_self2 [symmetric])
  also have "\<dots> = ?y - 2 ^ 64"
    using x by (intro mod_pos_pos_trivial) (simp_all add: in_i64_def unixToInternal_def)
  finally show "unix_time x = x + unixToInternal - 2 ^ 64"
    by (simp add: unix_time_def i64_def)
qed

lemma not_expired_iff:
  assumes "in_i64 x" "in_i64 now" "0 \<le> now"
  shows "\<not> internal now > add_seconds (unix_time x) (leeway div Second) * Second \<longleftrightarrow>
    x + unixToInternal < 2 ^ 63 \<and> now \<le> x * Second + leeway"
proof (cases "x + unixToInternal < 2 ^ 63")
  case True
  with assms show ?thesis
    by (auto simp: unix_time_simps add_seconds_def internal_def leeway_def Second_def in_i64_def unixToInternal_def)
next
  case False
  with assms show ?thesis
    by (simp add: unix_time_simps) (simp add: add_seconds_def internal_def leeway_def Second_def in_i64_def unixToInternal_def)
qed

lemma not_early_iff:
  assumes "in_i64 x" "in_i64 now" "0 \<le> now"
  shows "\<not> internal now + leeway < unix_time x * Second \<longleftrightarrow>
    x + unixToInternal \<ge> 2 ^ 63 \<or> x * Second \<le> now + leeway"
proof (cases "x + unixToInternal < 2 ^ 63")
  case True
  with assms show ?thesis
    by (auto simp: unix_time_simps internal_def leeway_def Second_def unixToInternal_def)
next
  case False
  with assms show ?thesis
    by (simp add: unix_time_simps) (simp add: internal_def leeway_def Second_def in_i64_def unixToInternal_def)
qed

definition vouched :: "crypto \<Rightarrow> codec \<Rightarrow> JWKSCache \<Rightarrow> string \<Rightarrow> string \<Rightarrow> string \<Rightarrow> bool" where
  "vouched K C cache p0 p1 p2 \<longleftrightarrow>
     (\<exists>h pub sig. decode_part C ''header'' dec_header p0 = Inr h \<and> Alg h = ''RS256'' \<and> HKid h \<noteq> '''' \<and>
        jwks_key cache (HKid h) = Some pub \<and> b64_text p2 = Some sig \<and>
        pkcs1v15_ok K pub (sha256 K (p0 @ ''.'' @ p1)) sig)"

text \<open>Unix seconds as the integers they are; a \<open>NotBefore\<close> beyond what a \<open>time.Time\<close> can count
  wraps into the past.\<close>

definition in_force :: "claims \<Rightarrow> int \<Rightarrow> bool" where
  "in_force c now \<longleftrightarrow>
     Expiry c \<noteq> 0 \<and> Expiry c + unixToInternal < 2 ^ 63 \<and> now \<le> Expiry c * Second + leeway \<and>
     (NotBefore c = 0 \<or> NotBefore c + unixToInternal \<ge> 2 ^ 63 \<or> NotBefore c * Second \<le> now + leeway)"

lemma dec_claims_range: "dec_claims j = Some c \<Longrightarrow> in_i64 (Expiry c) \<and> in_i64 (NotBefore c)"
  by (auto simp: dec_claims_def split: option.splits dest: fld_int_range)

lemma decode_claims_range:
  "decode_part C n dec_claims p = Inr c \<Longrightarrow> in_i64 (Expiry c) \<and> in_i64 (NotBefore c)"
  by (auto simp: decode_part_def unmarshal_def split: option.splits sum.splits dest: dec_claims_range)

lemma judge_iff:
  assumes "in_i64 (Expiry c)" "in_i64 (NotBefore c)" "in_i64 now" "0 \<le> now"
  shows "judge c issuer aud now = Inr s \<longleftrightarrow>
    Iss c = issuer \<and> aud \<in> set (Audience c) \<and> in_force c now \<and> s \<noteq> '''' \<and> s = Subject c"
  using not_expired_iff [OF assms(1,3,4)] not_early_iff [OF assms(2,3,4)]
  by (auto simp: judge_def in_force_def contains_def list_ex_iff)

lemma verify_three:
  "verifyToken K C (raw :: string) (jwks_key cache) issuer aud now = Inr s \<longleftrightarrow>
     (\<exists>p0 p1 p2 c. split_on CHR ''.'' raw = [p0, p1, p2] \<and> vouched K C cache p0 p1 p2 \<and>
        decode_part C ''claims'' dec_claims p1 = Inr c \<and> judge c issuer aud now = Inr s)"
  by (auto simp: verifyToken_def vouched_def split: list.splits sum.splits option.splits)

text \<open>C10: Who is accepted: a token opens an app exactly when it has three parts, its header says RS256 and
  names a cached key, its signature over the first two parts verifies under that key, its claims
  name this issuer and, among others, this audience, it is in force, give or take half a minute
  of clock skew, and the directory knows its subject. An expiry too large for a \<open>time.Time\<close>
  refuses the token.\<close>

theorem token_accepted_iff:
  assumes "in_i64 now" "0 \<le> now"
  shows "AppForKey K C conf cache now token = Some app \<longleftrightarrow>
    (\<exists>p0 p1 p2 c. split_on CHR ''.'' token = [p0, p1, p2] \<and> vouched K C cache p0 p1 p2 \<and>
       decode_part C ''claims'' dec_claims p1 = Inr c \<and> Iss c = Issuer conf \<and>
       AudienceName conf \<in> set (Audience c) \<and> in_force c now \<and> Subject c \<noteq> '''' \<and>
       map_of (AppTable conf) (Subject c) = Some app)"
proof -
  have "AppForKey K C conf cache now token = Some app \<longleftrightarrow>
      (\<exists>s. verifyToken K C token (jwks_key cache) (Issuer conf) (AudienceName conf) now = Inr s \<and>
         map_of (AppTable conf) s = Some app)"
    by (auto simp: AppForKey_def split: sum.splits)
  then show ?thesis
    using decode_claims_range judge_iff [OF _ _ assms] by (auto simp: verify_three)
qed

definition demo_crypto :: crypto where
  "demo_crypto = \<lparr>sha256 = \<lambda>s. s, pkcs1v15_ok = \<lambda>pub digest sig. digest = ''aA.Yw'' \<and> sig = ''s''\<rparr>"

definition demo_codec :: codec where
  "demo_codec = \<lparr>parse = \<lambda>s.
     if s = ''h'' then Some (JObj [(''alg'', JStr ''RS256''), (''kid'', JStr ''k1'')])
     else if s = ''c'' then Some (JObj [(''iss'', JStr ''https://cluster''), (''sub'', JStr ''system:serviceaccount:x:y''),
       (''aud'', JArr [JStr ''other'', JStr ''llm-gateway'']), (''exp'', JInt 1700000000)])
     else None, json_text = \<lambda>_. ''''\<rparr>"

definition demo_auth :: AuthConfig where
  "demo_auth = \<lparr>Issuer = ''https://cluster'', AudienceName = ''llm-gateway'',
     AppTable = [(''system:serviceaccount:x:y'',
       \<lparr>AppName = ''y'', Policy = \<lparr>Kind = PolicySameModel, Allowlist = []\<rparr>, AppTotalDeadline = 0\<rparr>)]\<rparr>"

lemma demo_token_accepted:
  "AppForKey demo_crypto demo_codec demo_auth warm_cache (1700000029 * Second) ''aA.Yw.cw'' =
     Some (snd (hd (AppTable demo_auth)))"
  by code_simp

theorem token_accepted_iff_witness:
  "\<exists>p0 p1 p2 c. split_on CHR ''.'' ''aA.Yw.cw'' = [p0, p1, p2] \<and> vouched demo_crypto demo_codec warm_cache p0 p1 p2 \<and>
     decode_part demo_codec ''claims'' dec_claims p1 = Inr c \<and> Iss c = Issuer demo_auth \<and>
     AudienceName demo_auth \<in> set (Audience c) \<and> in_force c (1700000029 * Second) \<and> Subject c \<noteq> '''' \<and>
     map_of (AppTable demo_auth) (Subject c) = Some (snd (hd (AppTable demo_auth)))"
  using demo_token_accepted
  by (subst (asm) token_accepted_iff) (simp_all add: in_i64_def Second_def)

text \<open>The boot check tells a wrong issuer from an unreachable cluster: it reports a mismatch exactly when
  the discovery document was fetched, with status 200, and advertises another, non-empty issuer;
  it is silent exactly when the document advertises the configured one.\<close>

lemma issuer_check:
  assumes "DiscoveryURL url_parts url = Inr durl" "web_bad W durl = None"
    "fst (web_do W c (get_request durl) w) = Inr r" "issuer \<noteq> ''''"
  shows "(fst (VerifyIssuer W url_parts c url issuer w) = None \<longleftrightarrow> issuer_of_reply W r = Inr issuer) \<and>
    (\<forall>found. fst (VerifyIssuer W url_parts c url issuer w) = Some (ErrIssuerMismatch issuer found) \<longleftrightarrow>
       issuer_of_reply W r = Inr found \<and> found \<noteq> issuer)"
proof -
  have "issuer_of_reply W r \<noteq> Inl (ErrIssuerMismatch a b)" for a b
    by (auto simp: issuer_of_reply_def split: sum.splits option.splits)
  with assms show ?thesis
    by (auto simp: VerifyIssuer_def split: prod.splits sum.splits)
qed


end
