(* ===== verification/Otlp.thy ===== *)
theory Otlp
  imports ObserveProps SlotsLimiter Auth
begin

text \<open>
  \<open>internal/metrics/otlp\<close>: the instruments over the counters. The OpenTelemetry SDK is a third
  party: a meter is the instruments it has accepted and which names it refuses; an instrument is
  its name and the callback that reads the world at a collection. Descriptions are left out.
  An age is exported as exact seconds; the rounding of \<open>Duration.Seconds\<close> is not modelled.
\<close>

section \<open>Instruments\<close>

datatype measure = Count int | Seconds rat

type_synonym sample = "measure \<times> (string \<times> string) list"

datatype kind = ObservableCounter | ObservableGauge

record 'w instrument =
  in_name :: string
  in_kind :: kind
  in_read :: "'w \<Rightarrow> sample list"

type_synonym refusals = "string \<Rightarrow> go_error option"

text \<open>Every \<open>Register\<close> function creates its instruments one after the other and stops at the
  first error.\<close>

fun register :: "refusals \<Rightarrow> 'w instrument list \<Rightarrow> 'w instrument list \<Rightarrow> go_error option \<times> 'w instrument list" where
  "register M [] acc = (None, acc)"
| "register M (i # is) acc =
     (case M (in_name i) of Some e \<Rightarrow> (Some e, acc) | None \<Rightarrow> register M is (acc @ [i]))"

definition counting_instrument :: "string \<Rightarrow> ('w \<Rightarrow> sample list) \<Rightarrow> 'w instrument" where
  "counting_instrument n f = \<lparr>in_name = n, in_kind = ObservableCounter, in_read = f\<rparr>"

definition gauge :: "string \<Rightarrow> ('w \<Rightarrow> sample list) \<Rightarrow> 'w instrument" where
  "gauge n f = \<lparr>in_name = n, in_kind = ObservableGauge, in_read = f\<rparr>"

definition plain :: "int \<Rightarrow> sample list" where
  "plain n = [(Count n, [])]"

text \<open>A key with no activity is skipped.\<close>

definition active :: "int \<Rightarrow> (string \<times> string) list \<Rightarrow> sample list" where
  "active n attrs = (if n > 0 then [(Count n, attrs)] else [])"

definition per_app :: "string list \<Rightarrow> string keyedCounter \<Rightarrow> sample list" where
  "per_app names c = concat (map (\<lambda>a. active (kget c a) [(''app'', a)]) names)"

section \<open>The gateway's counters\<close>

definition directory_instruments :: "('w \<Rightarrow> dir_counts) \<Rightarrow> 'w instrument list" where
  "directory_instruments m =
     [counting_instrument ''gateway_key_resolved_total'' (\<lambda>w. plain (dir_resolved (m w))),
      counting_instrument ''gateway_key_refused_total'' (\<lambda>w. plain (dir_refused (m w)))]"

definition rate_instruments :: "('w \<Rightarrow> rate_counts) \<Rightarrow> 'w instrument list" where
  "rate_instruments m =
     [counting_instrument ''gateway_ratelimit_allowed_total'' (\<lambda>w. plain (rc_allowed (m w))),
      counting_instrument ''gateway_ratelimit_denied_total'' (\<lambda>w. plain (rc_denied (m w))),
      counting_instrument ''gateway_ratelimit_fail_open_total'' (\<lambda>w. plain (rc_failOpen (m w)))]"

definition token_instruments :: "('w \<Rightarrow> token_counts) \<Rightarrow> 'w instrument list" where
  "token_instruments m =
     [counting_instrument ''gateway_token_budget_allowed_total'' (\<lambda>w. plain (tc_allowed (m w))),
      counting_instrument ''gateway_token_budget_denied_total'' (\<lambda>w. plain (tc_denied (m w))),
      counting_instrument ''gateway_token_budget_fail_open_total'' (\<lambda>w. plain (tc_failOpen (m w))),
      counting_instrument ''gateway_tokens_debited_total'' (\<lambda>w. plain (tc_debited (m w))),
      counting_instrument ''gateway_token_debit_failed_total'' (\<lambda>w. plain (tc_debitsFailed (m w)))]"

definition slot_instruments :: "('w \<Rightarrow> slot_counts) \<Rightarrow> 'w instrument list" where
  "slot_instruments m =
     [counting_instrument ''gateway_slots_acquired_total'' (\<lambda>w. per_app (sl_apps (m w)) (sl_acquired (m w))),
      counting_instrument ''concurrency_limit_rejections_total'' (\<lambda>w. per_app (sl_apps (m w)) (sl_refused (m w)))]"

definition provider_instruments :: "('w \<Rightarrow> provider_counts) \<Rightarrow> 'w instrument list" where
  "provider_instruments m =
     [counting_instrument ''provider_attempts_total''
        (\<lambda>w. concat (map (\<lambda>p. active (kget (pc_attempts (m w)) p) [(''provider'', p)]) (pc_providers (m w)))),
      counting_instrument ''provider_failures_total''
        (\<lambda>w. concat (map (\<lambda>p. concat (map (\<lambda>k.
           active (kget (pc_failures (m w)) (p, k)) [(''provider'', p), (''kind'', fault_string k)]) FaultKinds))
           (pc_providers (m w))))]"

definition usage_instruments :: "('w \<Rightarrow> usage_counts) \<Rightarrow> 'w instrument list" where
  "usage_instruments m =
     [counting_instrument ''llm_completions_total'' (\<lambda>w. per_app (us_apps (m w)) (us_completions (m w))),
      counting_instrument ''llm_failed_overs_total'' (\<lambda>w. per_app (us_apps (m w)) (us_failedOvers (m w))),
      counting_instrument ''llm_prompt_tokens_total'' (\<lambda>w. per_app (us_apps (m w)) (us_promptTokens (m w))),
      counting_instrument ''llm_completion_tokens_total'' (\<lambda>w. per_app (us_apps (m w)) (us_completionTokens (m w))),
      counting_instrument ''gateway_rejections_total''
        (\<lambda>w. concat (map (\<lambda>a. concat (map (\<lambda>c.
           active (kget (us_rejections (m w)) (a, c)) [(''app'', a), (''code'', code_string c)]) ErrorCodes))
           (us_apps (m w)))),
      counting_instrument ''gateway_ratelimit_fail_open_admitted_total'' (\<lambda>w. per_app (us_apps (m w)) (us_failOpens (m w))),
      counting_instrument ''double_spend_risk_total'' (\<lambda>w. per_app (us_apps (m w)) (us_doubleSpendRisks (m w))),
      counting_instrument ''client_disconnects_total'' (\<lambda>w. per_app (us_apps (m w)) (us_disconnects (m w))),
      counting_instrument ''unobserved_spend_tokens_estimate''
        (\<lambda>w. concat (map (\<lambda>a.
           active (kget (us_doubleSpendTokens (m w)) a) [(''app'', a), (''reason'', ''double_spend'')] @
           active (kget (us_disconnectTokens (m w)) a) [(''app'', a), (''reason'', ''client_disconnect'')])
           (us_apps (m w))))]"

definition gateway_instruments ::
  "('w \<Rightarrow> dir_counts) \<Rightarrow> ('w \<Rightarrow> rate_counts) \<Rightarrow> ('w \<Rightarrow> token_counts) \<Rightarrow> ('w \<Rightarrow> slot_counts)
     \<Rightarrow> ('w \<Rightarrow> provider_counts) \<Rightarrow> ('w \<Rightarrow> usage_counts) \<Rightarrow> 'w instrument list" where
  "gateway_instruments dir rl tk sl pc us =
     directory_instruments dir @ rate_instruments rl @ token_instruments tk @ slot_instruments sl @
     provider_instruments pc @ usage_instruments us"

definition RegisterGateway where
  "RegisterGateway M dir rl tk sl pc us = register M (gateway_instruments dir rl tk sl pc us)"

section \<open>The other registrations\<close>

definition key_instruments ::
  "('w \<Rightarrow> refresh_counts) \<Rightarrow> ('w \<Rightarrow> (string \<times> int) list) \<Rightarrow> ('w \<Rightarrow> Cache) \<Rightarrow> ('w \<Rightarrow> int)
     \<Rightarrow> string list \<Rightarrow> 'w instrument list" where
  "key_instruments rf tr cache now names =
     [counting_instrument ''provider_key_refresh_total'' (\<lambda>w. plain (rf_refreshes (rf w))),
      counting_instrument ''provider_key_refresh_failures_total'' (\<lambda>w. plain (rf_failures (rf w))),
      counting_instrument ''provider_key_refresh_triggered_total''
        (\<lambda>w. concat (map (\<lambda>p. active (Triggered (tr w) p) [(''provider'', p)]) names)),
      gauge ''provider_key_age_seconds''
        (\<lambda>w. concat (map (\<lambda>p. case cache_Age (cache w) p (now w) of
             None \<Rightarrow> [] | Some age \<Rightarrow> [(Seconds (of_int age / of_int Second), [(''provider'', p)])]) names))]"

definition RegisterProviderKeys where
  "RegisterProviderKeys M rf tr cache now names = register M (key_instruments rf tr cache now names)"

definition auth_instruments :: "('w \<Rightarrow> JWKSCache) \<Rightarrow> ('w \<Rightarrow> int) \<Rightarrow> 'w instrument list" where
  "auth_instruments keys now =
     [gauge ''jwks_cache_age_seconds''
        (\<lambda>w. case jwks_Age (keys w) (now w) of
             None \<Rightarrow> [] | Some age \<Rightarrow> [(Seconds (of_int age / of_int Second), [])])]"

definition RegisterAuth where
  "RegisterAuth M keys now = register M (auth_instruments keys now)"

definition slots_instruments :: "('w \<Rightarrow> Limiter) \<Rightarrow> string list \<Rightarrow> 'w instrument list" where
  "slots_instruments l names =
     [gauge ''in_flight'' (\<lambda>w. map (\<lambda>a. (Count (InFlight (l w) a), [(''app'', a)])) names)]"

definition RegisterSlots where
  "RegisterSlots M l names = register M (slots_instruments l names)"

definition api_instruments :: "('w \<Rightarrow> request_counts) \<Rightarrow> ('w \<Rightarrow> int) \<Rightarrow> 'w instrument list" where
  "api_instruments rq panics =
     [counting_instrument ''http_requests_total'' (\<lambda>w. plain (rq_requests (rq w))),
      counting_instrument ''http_server_errors_total'' (\<lambda>w. plain (rq_serverErrors (rq w))),
      counting_instrument ''http_panics_total'' (\<lambda>w. plain (panics w))]"

definition RegisterAPI where
  "RegisterAPI M rq panics = register M (api_instruments rq panics)"

text \<open>\<open>NewProvider\<close>: the exporter's constructor is the SDK's; it dials lazily.\<close>

definition NewProvider :: "(string \<Rightarrow> go_error option) \<Rightarrow> string \<Rightarrow> go_error + unit" where
  "NewProvider exporter endpoint =
     (case exporter endpoint of Some e \<Rightarrow> Inl (ErrWrap ''metrics/otlp'' e) | None \<Rightarrow> Inr ())"

lemma register_append: "register M (xs @ ys) acc =
    (case register M xs acc of (Some e, a) \<Rightarrow> (Some e, a) | (None, a) \<Rightarrow> register M ys a)"
  by (induction xs arbitrary: acc) (auto split: option.splits)

section \<open>A collection\<close>

text \<open>What one collection of the accepted instruments exports.\<close>

definition collect :: "'w instrument list \<Rightarrow> 'w \<Rightarrow> (string \<times> sample) list" where
  "collect is w = concat (map (\<lambda>i. map (Pair (in_name i)) (in_read i w)) is)"

text \<open>A series is an instrument and a set of labels.\<close>

definition series :: "string \<times> sample \<Rightarrow> string \<times> (string \<times> string) list" where
  "series x = (fst x, snd (snd x))"

definition label_all :: "string list \<Rightarrow> (string \<times> string) list list \<Rightarrow> (string \<times> (string \<times> string) list) list" where
  "label_all metrics attrs = concat (map (\<lambda>n. map (Pair n) attrs) metrics)"

text \<open>The series the names in the configuration allow, and how many they are.\<close>

definition series_space :: "string list \<Rightarrow> string list \<Rightarrow> (string \<times> (string \<times> string) list) list" where
  "series_space app_names provider_names =
     label_all [''gateway_key_resolved_total'', ''gateway_key_refused_total'',
       ''gateway_ratelimit_allowed_total'', ''gateway_ratelimit_denied_total'',
       ''gateway_ratelimit_fail_open_total'', ''gateway_token_budget_allowed_total'',
       ''gateway_token_budget_denied_total'', ''gateway_token_budget_fail_open_total'',
       ''gateway_tokens_debited_total'', ''gateway_token_debit_failed_total''] [[]] @
     label_all [''gateway_slots_acquired_total'', ''concurrency_limit_rejections_total'']
       (map (\<lambda>a. [(''app'', a)]) app_names) @
     label_all [''provider_attempts_total''] (map (\<lambda>p. [(''provider'', p)]) provider_names) @
     label_all [''provider_failures_total'']
       (concat (map (\<lambda>p. map (\<lambda>k. [(''provider'', p), (''kind'', fault_string k)]) FaultKinds) provider_names)) @
     label_all [''llm_completions_total'', ''llm_failed_overs_total'', ''llm_prompt_tokens_total'',
       ''llm_completion_tokens_total''] (map (\<lambda>a. [(''app'', a)]) app_names) @
     label_all [''gateway_rejections_total'']
       (concat (map (\<lambda>a. map (\<lambda>c. [(''app'', a), (''code'', code_string c)]) ErrorCodes) app_names)) @
     label_all [''gateway_ratelimit_fail_open_admitted_total'', ''double_spend_risk_total'',
       ''client_disconnects_total''] (map (\<lambda>a. [(''app'', a)]) app_names) @
     label_all [''unobserved_spend_tokens_estimate'']
       (concat (map (\<lambda>a. [[(''app'', a), (''reason'', ''double_spend'')],
                           [(''app'', a), (''reason'', ''client_disconnect'')]]) app_names))"

section \<open>The bound on the series\<close>

definition labelled :: "string list \<Rightarrow> string list \<Rightarrow> 'w process \<Rightarrow> bool" where
  "labelled app_names provider_names P \<longleftrightarrow>
     sl_apps (slotM P) = sort app_names \<and> pc_providers (providerM P) = sort provider_names \<and>
     us_apps (usageM P) = sort app_names"

lemma counts_keep_names [simp]:
  "sl_apps (count_claim a ok m) = sl_apps m"
  "pc_providers (count_attempt p r m') = pc_providers m'"
  by (auto simp: count_claim_def count_attempt_def Let_def split: sum.splits)

lemma collect_append [simp]: "collect (is @ js) w = collect is w @ collect js w"
  by (simp add: collect_def)

lemma collect_series: "map series (collect is w) =
    concat (map (\<lambda>i. map (Pair (in_name i)) (map snd (in_read i w))) is)"
  by (induction "is") (simp_all add: collect_def series_def)

lemma mset_concat_map: "mset (concat (map f xs)) = \<Sum>\<^sub># (image_mset (\<lambda>x. mset (f x)) (mset xs))"
  by (induction xs) simp_all

lemma concat_mono: "(\<And>x. x \<in> set xs \<Longrightarrow> mset (f x) \<subseteq># mset (g x)) \<Longrightarrow>
    mset (concat (map f xs)) \<subseteq># mset (concat (map g xs))"
  by (induction xs) (auto intro: subset_mset.add_mono)

lemma active_series: "map snd (active n a) = (if n > 0 then [a] else [])"
  by (simp add: active_def)

lemma active_mono: "mset (concat (map (\<lambda>x. map snd (active (n x) (a x))) xs)) \<subseteq># mset (map a xs)"
proof -
  have "mset (concat (map (\<lambda>x. map snd (active (n x) (a x))) xs)) \<subseteq># mset (concat (map (\<lambda>x. [a x]) xs))"
    by (rule concat_mono) (simp add: active_series)
  then show ?thesis by simp
qed

lemma map_sort_mset: "mset (map f (sort xs)) = mset (map f xs)"
  by simp

lemma concat_sort_mset: "mset (concat (map f (sort xs))) = mset (concat (map f xs))"
  by (simp add: mset_concat_map)

lemma per_app_series: "mset (map snd (per_app (sort names) c)) \<subseteq># mset (map (\<lambda>a. [(''app'', a)]) names)"
  using active_mono [of "kget c" "\<lambda>a. [(''app'', a)]" "sort names"]
  by (simp add: per_app_def map_concat o_def)

lemma two_labels: "mset (map snd (concat (map (\<lambda>a. concat (map (\<lambda>c. active (n a c) (l a c)) cs)) (sort names))))
    \<subseteq># mset (concat (map (\<lambda>a. map (l a) cs) names))"
proof -
  have "mset (concat (map (\<lambda>a. concat (map (\<lambda>c. map snd (active (n a c) (l a c))) cs)) (sort names)))
      \<subseteq># mset (concat (map (\<lambda>a. map (l a) cs) (sort names)))"
    by (rule concat_mono, rule active_mono)
  then show ?thesis by (simp only: concat_sort_mset map_concat map_map o_def)
qed

text \<open>An instrument whose labels are among the given ones.\<close>

definition within_labels :: "'w \<Rightarrow> 'w instrument \<Rightarrow> (string \<times> string) list list \<Rightarrow> bool" where
  "within_labels w i attrs \<longleftrightarrow> mset (map snd (in_read i w)) \<subseteq># mset attrs"

lemma collect_within:
  "list_all2 (within_labels w) is lss \<Longrightarrow>
     mset (map series (collect is w)) \<subseteq># mset (concat (map2 (\<lambda>i ls. map (Pair (in_name i)) ls) is lss))"
proof (induction rule: list_all2_induct)
  case (Cons i "is" ls lss)
  have "image_mset (Pair (in_name i)) (mset (map snd (in_read i w))) \<subseteq># image_mset (Pair (in_name i)) (mset ls)"
    using Cons.hyps(1) by (simp add: within_labels_def image_mset_subseteq_mono)
  with Cons show ?case
    by (auto simp: collect_series multiset.map_comp intro: subset_mset.add_mono)
qed (simp add: collect_def)

lemma within_simps [simp]:
  "within_labels w (counting_instrument n f) ls \<longleftrightarrow> mset (map snd (f w)) \<subseteq># mset ls"
  "in_name (counting_instrument n f) = n" "in_read (counting_instrument n f) w = f w"
  by (simp_all add: within_labels_def counting_instrument_def)

lemma plain_series [simp]: "map snd (plain n) = [[]]"
  by (simp add: plain_def)

lemma labelled_instruments:
  assumes "labelled app_names provider_names P"
  shows "list_all2 (within_labels P) (gateway_instruments dirM rateM tokenM slotM providerM usageM)
    (replicate 10 [[]] @ replicate 2 (map (\<lambda>a. [(''app'', a)]) app_names) @
     [map (\<lambda>p. [(''provider'', p)]) provider_names,
      concat (map (\<lambda>p. map (\<lambda>k. [(''provider'', p), (''kind'', fault_string k)]) FaultKinds) provider_names)] @
     replicate 4 (map (\<lambda>a. [(''app'', a)]) app_names) @
     [concat (map (\<lambda>a. map (\<lambda>c. [(''app'', a), (''code'', code_string c)]) ErrorCodes) app_names)] @
     replicate 3 (map (\<lambda>a. [(''app'', a)]) app_names) @
     [concat (map (\<lambda>a. [[(''app'', a), (''reason'', ''double_spend'')],
                        [(''app'', a), (''reason'', ''client_disconnect'')]]) app_names)])"
proof -
  have p: "mset (map snd (concat (map (\<lambda>p. active (kget c p) [(''provider'', p)]) (sort provider_names))))
      \<subseteq># mset (map (\<lambda>p. [(''provider'', p)]) provider_names)" for c
    using active_mono [of "kget c" "\<lambda>p. [(''provider'', p)]" "sort provider_names"]
    by (simp add: map_concat o_def)
  have u: "mset (map snd (concat (map (\<lambda>a. active (f a) [(''app'', a), (''reason'', ''double_spend'')] @
        active (g a) [(''app'', a), (''reason'', ''client_disconnect'')]) (sort app_names))))
      \<subseteq># mset (concat (map (\<lambda>a. [[(''app'', a), (''reason'', ''double_spend'')],
          [(''app'', a), (''reason'', ''client_disconnect'')]]) app_names))" for f g
  proof -
    have "mset (concat (map (\<lambda>a. map snd (active (f a) [(''app'', a), (''reason'', ''double_spend'')]) @
          map snd (active (g a) [(''app'', a), (''reason'', ''client_disconnect'')])) (sort app_names)))
        \<subseteq># mset (concat (map (\<lambda>a. [[(''app'', a), (''reason'', ''double_spend'')],
            [(''app'', a), (''reason'', ''client_disconnect'')]]) (sort app_names)))"
      by (rule concat_mono) (simp add: active_series)
    then show ?thesis by (simp only: concat_sort_mset map_concat map_map o_def map_append)
  qed
  note bounds = per_app_series two_labels p u
  from assms show ?thesis
    unfolding labelled_def gateway_instruments_def directory_instruments_def rate_instruments_def
      token_instruments_def slot_instruments_def provider_instruments_def usage_instruments_def
    by (simp add: bounds numeral_eq_Suc del: mset_map map_concat)
qed

lemma space_length: "length (series_space as ps) = 10 + 18 * length as + 8 * length ps"
proof -
  have "length (concat (map (\<lambda>p. map (\<lambda>k. [(''provider'', p), (''kind'', fault_string k)]) FaultKinds) ps)) = 7 * length ps"
    by (induction ps) (auto simp: FaultKinds_def)
  moreover have "length (concat (map (\<lambda>a. map (\<lambda>c. [(''app'', a), (''code'', code_string c)]) ErrorCodes) as)) = 7 * length as"
    by (induction as) (auto simp: ErrorCodes_def)
  moreover have "length (concat (map (\<lambda>a. [[(''app'', a), (''reason'', ''double_spend'')],
      [(''app'', a), (''reason'', ''client_disconnect'')]]) as)) = 2 * length as"
    by (induction as) auto
  ultimately show ?thesis by (simp add: series_space_def label_all_def del: length_concat)
qed

text \<open>With the configured names in place, a collection of the gateway's instruments exports only series
  built from those names and the two fixed tables, each at most once for each time the name is
  listed.\<close>

lemma gateway_series:
  assumes "labelled app_names provider_names P"
  shows "mset (map series (collect (gateway_instruments dirM rateM tokenM slotM providerM usageM) P))
    \<subseteq># mset (series_space app_names provider_names)"
  using collect_within [OF labelled_instruments [OF assms]]
  by (simp add: gateway_instruments_def directory_instruments_def rate_instruments_def
      token_instruments_def slot_instruments_def provider_instruments_def usage_instruments_def
      series_space_def label_all_def numeral_eq_Suc del: mset_map)

end
