(* ===== verification/Health.thy ===== *)
theory Health
  imports GatewayDomain
begin

text \<open>
  \<open>internal/health/checker.go\<close>: the readiness conditions by name. The map is an association
  list; the order in which \<open>Ready\<close> meets its entries is that of the list.
\<close>

type_synonym 'w ReadinessCheck = "ctx \<Rightarrow> 'w \<Rightarrow> go_error option \<times> 'w"
type_synonym 'w Checker = "(string \<times> 'w ReadinessCheck) list"

definition NewChecker :: "'w Checker" where
  "NewChecker = []"

definition AddReadiness :: "string \<Rightarrow> 'w ReadinessCheck \<Rightarrow> 'w Checker \<Rightarrow> 'w Checker" where
  "AddReadiness name check c = AList.update name check c"

definition Live :: "'w Checker \<Rightarrow> 'w \<Rightarrow> go_error option \<times> 'w" where
  "Live c w = (None, w)"

fun Ready :: "'w Checker \<Rightarrow> 'w ReadinessCheck" where
  "Ready [] ctx w = (None, w)"
| "Ready ((name, check) # rest) ctx w =
     (case check ctx w of
        (Some err, w) \<Rightarrow> (Some (ErrWrap name err), w)
      | (None, w) \<Rightarrow> Ready rest ctx w)"

text \<open>A condition that only reads the world, as both conditions of the process do.\<close>

definition reads :: "('w \<Rightarrow> go_error option) \<Rightarrow> 'w ReadinessCheck" where
  "reads f ctx w = (f w, w)"

lemma Ready_reads:
  "Ready (map (\<lambda>(n, f). (n, reads f)) fs) ctx w =
     (case find (\<lambda>(n, f). f w \<noteq> None) fs of
        None \<Rightarrow> None | Some (n, f) \<Rightarrow> map_option (ErrWrap n) (f w), w)"
  by (induction fs) (auto simp: reads_def split: option.splits)

lemma Ready_None_iff:
  "Ready (map (\<lambda>(n, f). (n, reads f)) fs) ctx w = (None, w) \<longleftrightarrow> list_all (\<lambda>(n, f). f w = None) fs"
  by (induction fs) (auto simp: reads_def split: option.splits)

end
