(* ===== verification/Durations.thy ===== *)
theory Durations
  imports GatewayDomain
begin

text \<open>
  \<open>time.ParseDuration\<close>, the standard library's reader of the configuration's durations. The one
  computation it makes in floating point, the nanoseconds of a decimal fraction, is the argument
  \<open>flt\<close>: \<open>flt f unit scale\<close> stands for \<open>uint64(float64(f) * (float64(unit) / scale))\<close>. The sums
  are of \<open>uint64\<close> and are written with their wrap-around.
\<close>

section \<open>Reading numbers\<close>

fun unit_of :: "string \<Rightarrow> int option" where
  "unit_of u =
     (if u = ''ns'' then Some 1
      else if u = ''us'' \<or> u = [CHR 0xC2, CHR 0xB5, CHR ''s''] \<or> u = [CHR 0xCE, CHR 0xBC, CHR ''s''] then Some 1000
      else if u = ''ms'' then Some 1000000
      else if u = ''s'' then Some Second
      else if u = ''m'' then Some Minute
      else if u = ''h'' then Some (60 * Minute)
      else None)"

declare unit_of.simps [simp del]

definition numeric :: "char \<Rightarrow> bool" where
  "numeric c \<longleftrightarrow> c = CHR ''.'' \<or> digit_val c \<noteq> None"

fun leadingInt :: "int \<Rightarrow> string \<Rightarrow> (int \<times> string) option" where
  "leadingInt x [] = Some (x, [])"
| "leadingInt x (c # cs) =
     (case digit_val c of
        None \<Rightarrow> Some (x, c # cs)
      | Some d \<Rightarrow>
          if x > 2 ^ 63 div 10 then None
          else if x * 10 + int d > 2 ^ 63 then None
          else leadingInt (x * 10 + int d) cs)"

fun leadingFraction :: "int \<Rightarrow> int \<Rightarrow> bool \<Rightarrow> string \<Rightarrow> int \<times> int \<times> string" where
  "leadingFraction x scale over [] = (x, scale, [])"
| "leadingFraction x scale over (c # cs) =
     (case digit_val c of
        None \<Rightarrow> (x, scale, c # cs)
      | Some d \<Rightarrow>
          if over \<or> x > (2 ^ 63 - 1) div 10 \<or> x * 10 + int d > 2 ^ 63 then leadingFraction x scale True cs
          else leadingFraction (x * 10 + int d) (scale * 10) over cs)"

lemma leadingInt_length: "leadingInt x s = Some (v, r) \<Longrightarrow> length r \<le> length s"
  by (induction x s rule: leadingInt.induct) (auto split: option.splits if_splits)

lemma leadingFraction_length: "leadingFraction x sc ov s = (f, sc', r) \<Longrightarrow> length r \<le> length s"
  by (induction x sc ov s rule: leadingFraction.induct) (auto split: option.splits if_splits)

lemma leadingInt_bounds: "leadingInt x s = Some (v, r) \<Longrightarrow> 0 \<le> x \<Longrightarrow> x \<le> 2 ^ 63 \<Longrightarrow> 0 \<le> v \<and> v \<le> 2 ^ 63"
  by (induction x s rule: leadingInt.induct) (auto split: option.splits if_splits)

section \<open>One number with its unit\<close>

definition invalid :: "string \<Rightarrow> go_error" where
  "invalid orig = ErrText (''time: invalid duration '' @ quote orig)"

text \<open>The optional fraction after the digits: its digits, its scale, what is left, and whether it
  had any digit.\<close>

fun fraction_part :: "string \<Rightarrow> int \<times> int \<times> string \<times> bool" where
  "fraction_part [] = (0, 1, [], False)"
| "fraction_part (c # cs) =
     (if c = CHR ''.'' then
        (let (f, scale, r) = leadingFraction 0 1 False cs in (f, scale, r, length r \<noteq> length cs))
      else (0, 1, c # cs, False))"

definition parse_term :: "(int \<Rightarrow> int \<Rightarrow> int \<Rightarrow> int) \<Rightarrow> string \<Rightarrow> string \<Rightarrow> go_error + int \<times> string" where
  "parse_term flt orig s =
     (if s = [] \<or> \<not> numeric (hd s) then Inl (invalid orig)
      else case leadingInt 0 s of
        None \<Rightarrow> Inl (invalid orig)
      | Some (v, s1) \<Rightarrow>
          (case fraction_part s1 of (f, scale, s2, post) \<Rightarrow>
             if length s1 = length s \<and> \<not> post then Inl (invalid orig)
             else
               let u = takeWhile (\<lambda>c. \<not> numeric c) s2; rest = drop (length u) s2
               in if u = [] then Inl (ErrText (''time: missing unit in duration '' @ quote orig))
                  else case unit_of u of
                    None \<Rightarrow> Inl (ErrText (''time: unknown unit '' @ quote u @ '' in duration '' @ quote orig))
                  | Some unit \<Rightarrow>
                      if v > 2 ^ 63 div unit then Inl (invalid orig)
                      else if f > 0 then
                        (if (v * unit + flt f unit scale) mod 2 ^ 64 > 2 ^ 63 then Inl (invalid orig)
                         else Inr ((v * unit + flt f unit scale) mod 2 ^ 64, rest))
                      else Inr (v * unit, rest)))"

lemma fraction_length: "fraction_part s = (f, sc, r, p) \<Longrightarrow> length r \<le> length s"
  by (cases s) (auto split: if_splits prod.splits dest: leadingFraction_length)

lemma parse_term_shorter: "parse_term flt orig s = Inr (v, r) \<Longrightarrow> length r < length s"
proof -
  assume p: "parse_term flt orig s = Inr (v, r)"
  then obtain v1 s1 f sc s2 post where
    i: "leadingInt 0 s = Some (v1, s1)" and f: "fraction_part s1 = (f, sc, s2, post)"
    and u: "takeWhile (\<lambda>c. \<not> numeric c) s2 \<noteq> []"
    and r: "r = drop (length (takeWhile (\<lambda>c. \<not> numeric c) s2)) s2"
    by (auto simp: parse_term_def Let_def split: if_splits option.splits prod.splits)
  have "s2 \<noteq> []" using u by auto
  then have "length r < length s2" using r u by (simp add: diff_less length_greater_0_conv)
  with fraction_length [OF f] leadingInt_length [OF i] show ?thesis by linarith
qed

section \<open>The loop\<close>

function parse_terms :: "(int \<Rightarrow> int \<Rightarrow> int \<Rightarrow> int) \<Rightarrow> string \<Rightarrow> int \<Rightarrow> string \<Rightarrow> go_error + int" where
  "parse_terms flt orig d s =
     (if s = [] then Inr d
      else case parse_term flt orig s of
        Inl e \<Rightarrow> Inl e
      | Inr (v, r) \<Rightarrow>
          if (d + v) mod 2 ^ 64 > 2 ^ 63 then Inl (invalid orig)
          else parse_terms flt orig ((d + v) mod 2 ^ 64) r)"
  by auto
termination
  by (relation "measure (\<lambda>(_, _, _, s). length s)") (auto dest: parse_term_shorter)

declare parse_terms.simps [simp del]

definition ParseDuration :: "(int \<Rightarrow> int \<Rightarrow> int \<Rightarrow> int) \<Rightarrow> string \<Rightarrow> go_error + int" where
  "ParseDuration flt s =
     (let signed = (s \<noteq> [] \<and> (hd s = CHR ''-'' \<or> hd s = CHR ''+''));
          neg = (signed \<and> hd s = CHR ''-'');
          r = (if signed then drop 1 s else s)
      in if r = ''0'' then Inr 0
         else if r = [] then Inl (invalid s)
         else case parse_terms flt s 0 r of
           Inl e \<Rightarrow> Inl e
         | Inr d \<Rightarrow>
             if neg then Inr (i64 (- d))
             else if d > 2 ^ 63 - 1 then Inl (invalid s) else Inr d)"


section \<open>What it reads\<close>

lemma parse_digits_le: "parse_digits a ds = Some m \<Longrightarrow> a \<le> m"
  by (induction ds arbitrary: a) (force split: option.splits)+

lemma leadingInt_digits:
  "list_all (\<lambda>c. digit_val c \<noteq> None) ds \<Longrightarrow> r = [] \<or> digit_val (hd r) = None \<Longrightarrow> x \<le> 2 ^ 63 \<Longrightarrow>
     leadingInt (int x) (ds @ r) =
       (case parse_digits x ds of None \<Rightarrow> None | Some m \<Rightarrow> if m \<le> 2 ^ 63 then Some (int m, r) else None)"
proof (induction ds arbitrary: x)
  case Nil
  then show ?case by (cases r) auto
next
  case (Cons c ds)
  from Cons.prems obtain d where d: "digit_val c = Some d" by auto
  show ?case
  proof (cases "10 * x + d \<le> 2 ^ 63")
    case True
    then have "int x \<le> 2 ^ 63 div 10" "int x * 10 + int d \<le> 2 ^ 63" by simp_all
    moreover have "int x * 10 + int d = int (10 * x + d)" by simp
    ultimately have "leadingInt (int x) ((c # ds) @ r) = leadingInt (int (10 * x + d)) (ds @ r)"
      using d by (simp only: leadingInt.simps append_Cons option.case if_False not_less [symmetric] not_not)
    with Cons.IH [of "10 * x + d"] Cons.prems True d show ?thesis by simp
  next
    case False
    have "leadingInt (int x) ((c # ds) @ r) = None" using False d by simp
    moreover have "\<not> m \<le> 2 ^ 63" if "parse_digits (10 * x + d) ds = Some m" for m
      using parse_digits_le [OF that] False by linarith
    ultimately show ?thesis using d by (simp split: option.split)
  qed
qed

lemma nat_digits_numeric: "list_all (\<lambda>c. digit_val c \<noteq> None) (nat_digits n)"
  by (auto simp: list_all_iff dest!: set_nat_digits)

lemma leadingInt_nat:
  assumes "r = [] \<or> digit_val (hd r) = None"
  shows "leadingInt 0 (nat_digits m @ r) = (if m \<le> 2 ^ 63 then Some (int m, r) else None)"
  using leadingInt_digits [OF nat_digits_numeric assms, of 0 m] by simp

lemma unit_facts:
  assumes "unit_of u = Some k"
  shows "u \<noteq> []" "list_all (\<lambda>c. \<not> numeric c) u" "0 < k"
  using assms by (auto simp: unit_of.simps numeric_def digit_val_def Let_def split: if_splits)

lemma over_iff:
  assumes k: "0 < (k :: int)"
  shows "N div k < v \<longleftrightarrow> N < v * k"
proof
  have N: "N = k * (N div k) + N mod k" by simp
  have m: "0 \<le> N mod k" "N mod k < k" using k by simp_all
  show "N < v * k" if "N div k < v"
  proof -
    have "k * (N div k + 1) \<le> k * v" using that k by (intro mult_left_mono) auto
    then have "k * (N div k) + k \<le> v * k" by (simp only: distrib_left mult_1_right mult.commute [of k v])
    with N m show ?thesis by linarith
  qed
  show "N div k < v" if "N < v * k"
  proof (rule ccontr)
    assume "\<not> N div k < v"
    then have "k * v \<le> k * (N div k)" using k by (intro mult_left_mono) auto
    then have "v * k \<le> k * (N div k)" by (simp only: mult.commute [of v k])
    with N m that show False by linarith
  qed
qed

lemma parse_whole:
  assumes "unit_of u = Some k"
  shows "parse_term flt orig (nat_digits m @ u) =
    (if int m * k \<le> 2 ^ 63 then Inr (int m * k, []) else Inl (invalid orig))"
proof -
  note u = unit_facts [OF assms]
  have hd_u: "\<not> numeric (hd u)" using u by (cases u) auto
  then have nd: "digit_val (hd u) = None" and np: "hd u \<noteq> CHR ''.''" by (auto simp: numeric_def)
  have hd_d: "numeric (hd (nat_digits m @ u))"
    using nat_digits_numeric [of m] by (cases "nat_digits m") (auto simp: numeric_def)
  have tw: "takeWhile (\<lambda>c. \<not> numeric c) u = u" using u(2) by (simp add: takeWhile_eq_all_conv list_all_iff)
  have fr: "fraction_part u = (0, 1, u, False)" using np u(1) by (cases u) auto
  have big: "m \<le> 2 ^ 63" if "int m * k \<le> 2 ^ 63"
  proof -
    have "int m * 1 \<le> int m * k" using u(3) by (intro mult_left_mono) auto
    with that show ?thesis by simp
  qed
  show ?thesis
    unfolding parse_term_def leadingInt_nat [OF disjI2 [OF nd]]
    using u(1) hd_d big by (simp add: fr tw assms over_iff [OF u(3)] not_less)
qed


section \<open>The durations of the configuration\<close>

text \<open>
  A node of the file is what the YAML package's \<open>Decode\<close> makes of it: \<open>Scalar s\<close> what it gives
  for a string, \<open>Tree m\<close> what it gives for a map of lists.
\<close>

datatype yaml_node = Scalar "string option" | Tree "(string \<times> string list) list option"

definition duration_of_node :: "(int \<Rightarrow> int \<Rightarrow> int \<Rightarrow> int) \<Rightarrow> yaml_node \<Rightarrow> go_error + int" where
  "duration_of_node flt node =
     (case node of
        Scalar (Some s) \<Rightarrow> map_sum (ErrWrap (''duration '' @ quote s)) id (ParseDuration flt s)
      | _ \<Rightarrow> Inl (ErrText ''durations are strings like \"90s\" or \"2m\"''))"

lemma parse_one:
  assumes "unit_of u = Some k"
  shows "parse_terms flt orig 0 (nat_digits m @ u) =
    (if int m * k \<le> 2 ^ 63 then Inr (int m * k) else Inl (invalid orig))"
proof -
  have "0 \<le> int m * k" using unit_facts(3) [OF assms] by simp
  then have "(0 + int m * k) mod 2 ^ 64 = int m * k" if "int m * k \<le> 2 ^ 63"
    using that by simp
  then show ?thesis
    by (simp add: parse_terms.simps [of flt orig 0] parse_whole [OF assms]
        parse_terms.simps [of flt orig _ "[]"])
qed

lemma digits_0: "nat_digits 0 = ''0''"
  by code_simp

lemma not_signed: "hd (nat_digits m @ u) \<noteq> CHR ''-'' \<and> hd (nat_digits m @ u) \<noteq> CHR ''+''"
  using nat_digits_hd [of m] by (cases "nat_digits m") auto

lemma with_unit_long: "u \<noteq> [] \<Longrightarrow> nat_digits m @ u \<noteq> ''0''"
  by (cases "nat_digits m") auto

lemma parse_bare: "m \<noteq> 0 \<Longrightarrow> \<exists>e. parse_terms flt orig 0 (nat_digits m) = Inl e"
proof -
  have "numeric (hd (nat_digits m))"
    using nat_digits_numeric [of m] by (cases "nat_digits m") (auto simp: numeric_def)
  with leadingInt_nat [of "[]" m] have "\<exists>e. parse_term flt orig (nat_digits m) = Inl e"
    by (simp add: parse_term_def split: option.splits if_splits)
  then show ?thesis by (auto simp: parse_terms.simps [of flt orig 0])
qed

lemma parse_terms_bounds: "parse_terms flt orig d s = Inr x \<Longrightarrow> 0 \<le> d \<Longrightarrow> d \<le> 2 ^ 63 \<Longrightarrow> 0 \<le> x \<and> x \<le> 2 ^ 63"
proof (induction flt orig d s rule: parse_terms.induct)
  case (1 flt orig d s)
  show ?case
  proof (cases "s = []")
    case False
    with "1.prems"(1) obtain v r where v: "parse_term flt orig s = Inr (v, r)" "\<not> (d + v) mod 2 ^ 64 > 2 ^ 63"
      "parse_terms flt orig ((d + v) mod 2 ^ 64) r = Inr x"
      by (subst (asm) parse_terms.simps) (auto split: sum.splits if_splits)
    with "1.IH" [OF False v(1) refl] show ?thesis by simp
  qed (use 1 in \<open>simp add: parse_terms.simps [of flt orig d "[]"]\<close>)
qed

text \<open>A duration of the file means what it says or is refused. A whole number with a unit is
  that many units, with either sign, up to the 292 years a \<open>time.Duration\<close> holds and not beyond;
  a number without a unit is refused unless it is zero; and whatever text is accepted, its value
  fits in 64 bits.\<close>

theorem duration_units:
  assumes "unit_of u = Some k"
  shows "duration_of_node flt (Scalar (Some (itoa (int m) @ u))) =
      (if int m * k < 2 ^ 63 then Inr (int m * k)
       else Inl (ErrWrap (''duration '' @ quote (itoa (int m) @ u)) (invalid (itoa (int m) @ u)))) \<and>
    duration_of_node flt (Scalar (Some (''-'' @ itoa (int m) @ u))) =
      (if int m * k \<le> 2 ^ 63 then Inr (- (int m * k))
       else Inl (ErrWrap (''duration '' @ quote (''-'' @ itoa (int m) @ u)) (invalid (''-'' @ itoa (int m) @ u)))) \<and>
    (case duration_of_node flt (Scalar (Some (itoa (int m)))) of Inl _ \<Rightarrow> m \<noteq> 0 | Inr d \<Rightarrow> m = 0 \<and> d = 0) \<and>
    (case duration_of_node flt node of Inl _ \<Rightarrow> True | Inr d \<Rightarrow> in_i64 d)"
proof -
  note u = unit_facts(1) [OF assms]
  have i: "itoa (int m) = nat_digits m" by (simp add: itoa_def)
  have pos: "0 \<le> int m * k" using unit_facts(3) [OF assms] by simp
  have a: "ParseDuration flt (nat_digits m @ u) =
      (if int m * k < 2 ^ 63 then Inr (int m * k) else Inl (invalid (nat_digits m @ u)))"
    using not_signed [of m u] with_unit_long [OF u, of m]
    by (simp add: ParseDuration_def Let_def parse_one [OF assms])
  have b: "ParseDuration flt (''-'' @ nat_digits m @ u) =
      (if int m * k \<le> 2 ^ 63 then Inr (- (int m * k)) else Inl (invalid (''-'' @ nat_digits m @ u)))"
    using pos with_unit_long [OF u, of m]
    by (simp add: ParseDuration_def Let_def parse_one [OF assms] in_i64_def)
  have c: "case ParseDuration flt (nat_digits m) of Inl _ \<Rightarrow> m \<noteq> 0 | Inr d \<Rightarrow> m = 0 \<and> d = 0"
  proof (cases "m = 0")
    case True
    then show ?thesis
      by (simp add: ParseDuration_def Let_def digits_0)
  next
    case False
    then have "nat_digits m \<noteq> ''0''" using nat_digits_inj [of m 0] by (auto simp: digits_0)
    moreover obtain e where "parse_terms flt (nat_digits m) 0 (nat_digits m) = Inl e"
      using parse_bare [OF False] by blast
    ultimately show ?thesis
      using False not_signed [of m "[]"] by (simp add: ParseDuration_def Let_def)
  qed
  have d: "in_i64 x" if "ParseDuration flt s = Inr x" for s x
    using that parse_terms_bounds [of flt s 0]
    by (auto simp: ParseDuration_def Let_def in_i64_def i64_range [unfolded in_i64_def] split: if_splits sum.splits)
      (force simp: in_i64_def)+
  have e: "case duration_of_node flt node of Inl _ \<Rightarrow> True | Inr d \<Rightarrow> in_i64 d"
  proof (cases "\<exists>s. node = Scalar (Some s)")
    case True
    then obtain s where "node = Scalar (Some s)" by blast
    with d [of s] show ?thesis by (cases "ParseDuration flt s") (simp_all add: duration_of_node_def)
  qed (auto simp: duration_of_node_def split: yaml_node.split option.split)
  show ?thesis
    using a b c e unfolding i duration_of_node_def
    by (cases "ParseDuration flt (nat_digits m)") simp_all
qed

theorem duration_units_witness:
  "duration_of_node (\<lambda>_ _ _. 0) (Scalar (Some ''90s'')) = Inr 90000000000"
proof -
  have "unit_of ''s'' = Some Second" by (simp add: unit_of.simps)
  moreover have "itoa (int 90) @ ''s'' = ''90s''" by code_simp
  ultimately show ?thesis
    using conjunct1 [OF duration_units, of "''s''" Second "\<lambda>_ _ _. 0" 90] by (simp add: Second_def)
qed

end
