(* ===== verification/Config.thy ===== *)
theory Config
  imports ApiServer Auth Durations
begin

text \<open>
  \<open>internal/config\<close>: the translation of the configuration file into the terms of each layer, and
  the judgments that refuse a file. YAML itself is a third-party package: \<open>Load\<close> takes its strict
  decoder as an argument, and a node is what the package's \<open>Decode\<close> makes of it; the durations of
  \<^typ>\<open>yaml_node\<close>s are read by \<^const>\<open>duration_of_node\<close>. A map of the file
  is an association list with distinct keys; the code iterates over its sorted keys.
\<close>

section \<open>What a file may say\<close>

record policyWire =
  PKind :: string
  PAllowlist :: "string list"

definition policyShapeError :: go_error where
  "policyShapeError = ErrText ''failover_policy is \"any\", \"same-model\", or {allowlist: [models...]}''"

definition policy_of_node :: "yaml_node \<Rightarrow> go_error + policyWire" where
  "policy_of_node node =
     (case node of
        Scalar None \<Rightarrow> Inl policyShapeError
      | Scalar (Some s) \<Rightarrow>
          if s \<noteq> ''any'' \<and> s \<noteq> ''same-model'' then
            Inl (ErrText (''failover_policy '' @ quote s @ '' is not any, same-model, or {allowlist: [models...]}''))
          else Inr \<lparr>PKind = s, PAllowlist = []\<rparr>
      | Tree None \<Rightarrow> Inl policyShapeError
      | Tree (Some m) \<Rightarrow>
          (case map_of m ''allowlist'' of
             None \<Rightarrow> Inl policyShapeError
           | Some models \<Rightarrow>
               if length m \<noteq> 1 then Inl policyShapeError
               else if models = [] then Inl (ErrText ''failover_policy allowlist names no substitutes'')
               else Inr \<lparr>PKind = ''allowlist'', PAllowlist = models\<rparr>))"

definition policy_toDomain :: "policyWire \<Rightarrow> go_error + FailoverPolicy" where
  "policy_toDomain p =
     (if PKind p = '''' then Inr \<lparr>Kind = PolicySameModel, Allowlist = []\<rparr>
      else if PKind p = ''same-model'' then Inr \<lparr>Kind = PolicySameModel, Allowlist = []\<rparr>
      else if PKind p = ''any'' then Inr \<lparr>Kind = PolicyAny, Allowlist = []\<rparr>
      else if PKind p = ''allowlist'' then Inr \<lparr>Kind = PolicyAllowlist, Allowlist = PAllowlist p\<rparr>
      else Inl (ErrText (''policy kind '' @ quote (PKind p) @ '' is not one of same-model, allowlist, any'')))"

record serverWire =
  Listen :: string
  WMaxBodyBytes :: int
  WGlobalMaxInFlight :: int
  WTotalDeadline :: int
  WPerTryDeadline :: int
  WReadHeaderTimeout :: int
  WReadTimeout :: int
  WWriteTimeout :: int
  WIdleTimeout :: int

record authWire =
  WIssuer :: string
  WAudience :: string
  WJWKSURL :: string
  WRefreshInterval :: int

record AppLimits =
  RPS :: int
  TokensPerMinute :: int
  LMaxInFlight :: int

text \<open>The wire structs that differ from their domain counterparts in name only.\<close>

type_synonym routeWire = ModelProvider
type_synonym limitsWire = AppLimits

record appWire =
  WSubject :: string
  WAppDeadline :: int
  WLimits :: limitsWire
  WPolicy :: policyWire

record RedisConf =
  RAddr :: string
  RTLS :: bool
  RCAPath :: string
  RPasswordPath :: string

record VaultConf =
  VCAddress :: string
  VCRole :: string
  VCAuthPath :: string

record ProviderSecret =
  SPath :: string
  SInterval :: int

type_synonym redisWire = RedisConf
type_synonym vaultWire = VaultConf
type_synonym providerSecretWire = ProviderSecret
type_synonym telemetryWire = string

record secretSourceWire =
  SKind :: string
  SBlockInterval :: int
  SVault :: vaultWire
  SProviders :: "(string \<times> providerSecretWire) list"

record wire =
  w_Server :: serverWire
  w_Auth :: authWire
  w_Routes :: "routeWire list"
  w_FailoverOrder :: "string list"
  w_Apps :: "(string \<times> appWire) list"
  w_Redis :: redisWire
  w_SecretSource :: secretSourceWire
  w_OTLPEndpoint :: telemetryWire

section \<open>What the layers get\<close>

record SecretSource =
  SecretKind :: string
  SecretVault :: VaultConf
  SecretProviders :: "(string \<times> ProviderSecret) list"

record GatewayConfig =
  ServerPart :: ServerConfig
  GatewayPart :: Config
  AuthPart :: AuthConfig
  JWKSURL :: string
  JWKSInterval :: int
  Limits :: "(string \<times> AppLimits) list"
  GlobalMaxInFlight :: int
  RedisPart :: RedisConf
  SecretPart :: SecretSource
  OTLPEndpoint :: string

definition defaultRefreshInterval :: int where "defaultRefreshInterval = 5 * Minute"
definition defaultVaultAuthPath :: string where "defaultVaultAuthPath = ''auth/kubernetes''"

definition no_vault :: VaultConf where
  "no_vault = \<lparr>VCAddress = '''', VCRole = '''', VCAuthPath = ''''\<rparr>"

text \<open>The loops over the sorted names.\<close>

fun load_secrets ::
  "(string \<times> ProviderSecret) list \<Rightarrow> int \<Rightarrow> (string \<Rightarrow> bool) \<Rightarrow> string list
     \<Rightarrow> (string \<times> ProviderSecret) list \<Rightarrow> go_error + (string \<times> ProviderSecret) list" where
  "load_secrets ps block routed [] acc = Inr acc"
| "load_secrets ps block routed (name # names) acc =
     (let p = the (map_of ps name); label = ''secret_source.providers['' @ quote name @ '']''
      in if SPath p = '''' then Inl (ErrText (label @ '': path is required''))
         else if \<not> routed name then Inl (ErrText (label @ '': no route names that provider''))
         else if SInterval p < 0 then Inl (ErrText (label @ ''.refresh_interval must be positive''))
         else load_secrets ps block routed names
           (AList.update name (p\<lparr>SInterval := (if SInterval p = 0 then block else SInterval p)\<rparr>) acc))"

definition secrets_toDomain :: "secretSourceWire \<Rightarrow> (string \<Rightarrow> bool) \<Rightarrow> go_error + SecretSource" where
  "secrets_toDomain w routed =
     (if SKind w \<noteq> '''' \<and> SKind w \<noteq> ''file'' \<and> SKind w \<noteq> ''vault'' then
        Inl (ErrText (''secret_source.kind '' @ quote (SKind w) @ '' is not file or vault''))
      else if SKind w = '''' \<and> SProviders w \<noteq> [] then
        Inl (ErrText (''secret_source.kind is required when providers are configured '' @ dash
          @ '' nothing else says how to read them''))
      else if SBlockInterval w < 0 then Inl (ErrText ''secret_source.refresh_interval must be positive'')
      else
        let block = (if SBlockInterval w = 0 then defaultRefreshInterval else SBlockInterval w);
            v = SVault w
        in if SKind w = ''vault'' \<and> (VCAddress v = '''' \<or> VCRole v = '''') then
             Inl (ErrText ''secret_source.vault: address and role are required when kind is vault'')
           else if SKind w \<noteq> ''vault'' \<and> v \<noteq> no_vault then
             Inl (ErrText (''secret_source.vault is set but kind is '' @ quote (SKind w) @ '' '' @ dash
               @ '' a block that would never be read is a mistake, not a spare''))
           else
             let v = (if SKind w = ''vault'' \<and> VCAuthPath v = '''' then v\<lparr>VCAuthPath := defaultVaultAuthPath\<rparr> else v)
             in case load_secrets (SProviders w) block routed (sort (map fst (SProviders w))) [] of
                  Inl e \<Rightarrow> Inl e
                | Inr secrets \<Rightarrow> Inr \<lparr>SecretKind = SKind w, SecretVault = v, SecretProviders = secrets\<rparr>)"

text \<open>The first route with a part missing.\<close>

fun bad_route :: "nat \<Rightarrow> ModelProvider list \<Rightarrow> nat option" where
  "bad_route i [] = None"
| "bad_route i (r # rs) =
     (if MPModel r = '''' \<or> Provider r = '''' \<or> Endpoint r = '''' then Some i else bad_route (Suc i) rs)"

record app_tables =
  at_apps :: "(string \<times> App) list"
  at_limits :: "(string \<times> AppLimits) list"
  at_subjects :: "(string \<times> string) list"

fun load_apps ::
  "(string \<times> appWire) list \<Rightarrow> int \<Rightarrow> (string \<Rightarrow> bool) \<Rightarrow> string list \<Rightarrow> app_tables \<Rightarrow> go_error + app_tables" where
  "load_apps ws cap routed [] T = Inr T"
| "load_apps ws cap routed (name # names) T =
     (let a = the (map_of ws name); who = ''app '' @ quote name @ '': ''
      in if WSubject a = '''' then
           Inl (ErrText (who @ ''subject is required '' @ dash @ '' identity is the ServiceAccount token''))
         else case map_of (at_subjects T) (WSubject a) of
           Some owner \<Rightarrow>
             Inl (ErrText (who @ ''subject '' @ quote (WSubject a) @ '' already belongs to '' @ quote owner))
         | None \<Rightarrow>
             if cap > 0 \<and> LMaxInFlight (WLimits a) > cap then
               Inl (ErrText (who @ ''max_in_flight '' @ itoa (LMaxInFlight (WLimits a))
                 @ '' exceeds global_max_in_flight '' @ itoa cap))
             else case policy_toDomain (WPolicy a) of
               Inl err \<Rightarrow> Inl (ErrWrap (''app '' @ quote name) err)
             | Inr policy \<Rightarrow>
                 (case find (\<lambda>m. \<not> routed m) (Allowlist policy) of
                    Some m \<Rightarrow> Inl (ErrText (who @ ''allowlist names '' @ quote m @ '' but no route serves it''))
                  | None \<Rightarrow>
                      load_apps ws cap routed names
                        \<lparr>at_apps = AList.update (WSubject a)
                           \<lparr>AppName = name, Policy = policy, AppTotalDeadline = WAppDeadline a\<rparr> (at_apps T),
                         at_limits = AList.update name (WLimits a) (at_limits T),
                         at_subjects = AList.update (WSubject a) name (at_subjects T)\<rparr>))"

definition wire_toDomain :: "wire \<Rightarrow> go_error + GatewayConfig" where
  "wire_toDomain w =
     (let s = w_Server w; a = w_Auth w
      in if WRefreshInterval a < 0 then Inl (ErrText ''auth.refresh_interval must be positive'')
         else case bad_route 0 (w_Routes w) of
           Some i \<Rightarrow> Inl (ErrText (''routes['' @ itoa (int i) @ '']: model, provider, and endpoint are all required''))
         | None \<Rightarrow>
             (case secrets_toDomain (w_SecretSource w) (\<lambda>p. p \<in> set (map Provider (w_Routes w))) of
                Inl e \<Rightarrow> Inl e
              | Inr secrets \<Rightarrow>
                  (case load_apps (w_Apps w) (WGlobalMaxInFlight s) (\<lambda>m. m \<in> set (map MPModel (w_Routes w)))
                          (sort (map fst (w_Apps w))) \<lparr>at_apps = [], at_limits = [], at_subjects = []\<rparr> of
                     Inl e \<Rightarrow> Inl e
                   | Inr T \<Rightarrow>
                       Inr \<lparr>ServerPart = \<lparr>sc_Addr = Listen s, sc_ReadHeaderTimeout = WReadHeaderTimeout s,
                              sc_ReadTimeout = WReadTimeout s, sc_WriteTimeout = WWriteTimeout s,
                              sc_IdleTimeout = WIdleTimeout s, sc_MaxBodyBytes = WMaxBodyBytes s\<rparr>,
                            GatewayPart = \<lparr>ModelProviders = w_Routes w, FailoverOrder = w_FailoverOrder w,
                              TotalDeadline = WTotalDeadline s, PerTryDeadline = WPerTryDeadline s\<rparr>,
                            AuthPart = \<lparr>Issuer = WIssuer a, AudienceName = WAudience a, AppTable = at_apps T\<rparr>,
                            JWKSURL = WJWKSURL a,
                            JWKSInterval = (if WRefreshInterval a = 0 then defaultRefreshInterval else WRefreshInterval a),
                            Limits = at_limits T, GlobalMaxInFlight = WGlobalMaxInFlight s,
                            RedisPart = w_Redis w, SecretPart = secrets, OTLPEndpoint = w_OTLPEndpoint w\<rparr>)))"

text \<open>\<open>Load\<close>: \<open>open_file\<close> opens the path, \<open>decode\<close> is the YAML decoder with \<open>KnownFields\<close> set,
  which reads the open file.\<close>

definition Load :: "(string \<Rightarrow> go_error + 's) \<Rightarrow> ('s \<Rightarrow> go_error + wire) \<Rightarrow> string \<Rightarrow> go_error + GatewayConfig" where
  "Load open_file decode path =
     (case open_file path of
        Inl err \<Rightarrow> Inl (ErrWrap ''config'' err)
      | Inr f \<Rightarrow>
          (case decode f of
             Inl err \<Rightarrow> Inl (ErrWrap (''config '' @ path) err)
           | Inr w \<Rightarrow> map_sum (ErrWrap (''config '' @ path)) id (wire_toDomain w)))"

section \<open>Which files are accepted\<close>

definition complete_route :: "ModelProvider \<Rightarrow> bool" where
  "complete_route r \<longleftrightarrow> MPModel r \<noteq> '''' \<and> Provider r \<noteq> '''' \<and> Endpoint r \<noteq> ''''"

definition secret_ok :: "(string \<Rightarrow> bool) \<Rightarrow> string \<Rightarrow> ProviderSecret \<Rightarrow> bool" where
  "secret_ok routed name p \<longleftrightarrow> SPath p \<noteq> '''' \<and> routed name \<and> 0 \<le> SInterval p"

definition vault_ok :: "secretSourceWire \<Rightarrow> bool" where
  "vault_ok w \<longleftrightarrow>
     (if SKind w = ''vault'' then VCAddress (SVault w) \<noteq> '''' \<and> VCRole (SVault w) \<noteq> '''' else SVault w = no_vault)"

definition source_ok :: "(string \<Rightarrow> bool) \<Rightarrow> secretSourceWire \<Rightarrow> bool" where
  "source_ok routed w \<longleftrightarrow>
     SKind w \<in> {'''', ''file'', ''vault''} \<and> (SKind w = '''' \<longrightarrow> SProviders w = []) \<and> 0 \<le> SBlockInterval w \<and>
     vault_ok w \<and> (\<forall>(n, p) \<in> set (SProviders w). secret_ok routed n p)"

definition app_ok :: "int \<Rightarrow> (string \<Rightarrow> bool) \<Rightarrow> appWire \<Rightarrow> bool" where
  "app_ok cap routed a \<longleftrightarrow>
     WSubject a \<noteq> '''' \<and> (0 < cap \<longrightarrow> LMaxInFlight (WLimits a) \<le> cap) \<and>
     PKind (WPolicy a) \<in> {'''', ''same-model'', ''any'', ''allowlist''} \<and>
     (PKind (WPolicy a) = ''allowlist'' \<longrightarrow> list_all routed (PAllowlist (WPolicy a)))"

definition valid_file :: "wire \<Rightarrow> bool" where
  "valid_file w \<longleftrightarrow>
     0 \<le> WRefreshInterval (w_Auth w) \<and> list_all complete_route (w_Routes w) \<and>
     source_ok (\<lambda>p. p \<in> set (map Provider (w_Routes w))) (w_SecretSource w) \<and>
     (\<forall>(n, a) \<in> set (w_Apps w).
        app_ok (WGlobalMaxInFlight (w_Server w)) (\<lambda>m. m \<in> set (map MPModel (w_Routes w))) a) \<and>
     distinct (map (WSubject \<circ> snd) (w_Apps w))"

text \<open>A file's maps have distinct keys.\<close>

definition keyed :: "wire \<Rightarrow> bool" where
  "keyed w \<longleftrightarrow> distinct (map fst (w_Apps w)) \<and> distinct (map fst (SProviders (w_SecretSource w)))"

lemma bad_route_None: "bad_route i rs = None \<longleftrightarrow> list_all complete_route rs"
  by (induction rs arbitrary: i) (auto simp: complete_route_def)

lemma find_None_iff2: "find P xs = None \<longleftrightarrow> list_all (\<lambda>x. \<not> P x) xs"
  by (induction xs) auto

lemma find_SomeD: "find P xs = Some x \<Longrightarrow> P x \<and> x \<in> set xs"
  by (induction xs) (auto split: if_splits)

lemma policy_known:
  "(\<exists>p. policy_toDomain w = Inr p) \<longleftrightarrow> PKind w \<in> {'''', ''same-model'', ''any'', ''allowlist''}"
  by (auto simp: policy_toDomain_def)

definition app_of :: "string \<Rightarrow> appWire \<Rightarrow> App" where
  "app_of name a =
     \<lparr>AppName = name, Policy = projr (policy_toDomain (WPolicy a)), AppTotalDeadline = WAppDeadline a\<rparr>"

text \<open>One app is taken in, or the file is refused.\<close>

lemma load_app:
  assumes "map_of ws name = Some a"
  shows "load_apps ws cap routed (name # names) T =
      load_apps ws cap routed names
        \<lparr>at_apps = AList.update (WSubject a) (app_of name a) (at_apps T),
         at_limits = AList.update name (WLimits a) (at_limits T),
         at_subjects = AList.update (WSubject a) name (at_subjects T)\<rparr>
    \<and> app_ok cap routed a \<and> map_of (at_subjects T) (WSubject a) = None
    \<or> (\<exists>e. load_apps ws cap routed (name # names) T = Inl e)
    \<and> \<not> (app_ok cap routed a \<and> map_of (at_subjects T) (WSubject a) = None)"
  using assms
  by (auto simp: Let_def app_ok_def app_of_def policy_toDomain_def find_None_iff2
      split: option.splits dest!: find_SomeD) (auto simp: list_all_iff)

declare load_apps.simps(2) [simp del]

lemma map_add_update:
  assumes "k \<notin> fst ` set xs" "m' = (\<lambda>x. if x = k then Some v else m x)"
  shows "m' ++ map_of xs = m ++ map_of ((k, v) # xs)"
proof
  fix x
  have "map_of xs k = None" using assms(1) by (simp add: map_of_eq_None_iff)
  with assms(2) show "(m' ++ map_of xs) x = (m ++ map_of ((k, v) # xs)) x"
    by (auto simp: map_add_def split: option.splits)
qed

lemma map_of_update_fun: "map_of (AList.update k v al) = (\<lambda>x. if x = k then Some v else map_of al x)"
  by (auto simp: update_conv')

text \<open>The app of a name, as the file has it.\<close>

definition entry_of :: "(string \<times> 'a) list \<Rightarrow> string \<Rightarrow> 'a" where
  "entry_of ws name = the (map_of ws name)"

lemma load_apps_accepts:
  "set names \<subseteq> fst ` set ws \<Longrightarrow>
   (\<exists>T'. load_apps ws cap routed names T = Inr T') \<longleftrightarrow>
     (\<forall>n \<in> set names. app_ok cap routed (entry_of ws n) \<and> map_of (at_subjects T) (WSubject (entry_of ws n)) = None) \<and>
     distinct (map (\<lambda>n. WSubject (entry_of ws n)) names)"
proof (induction names arbitrary: T)
  case (Cons n names)
  from Cons.prems obtain a where a: "map_of ws n = Some a"
    by (metis domD dom_map_of_conv_image_fst list.set_intros(1) subsetD)
  then have e: "entry_of ws n = a" by (simp add: entry_of_def)
  let ?T = "\<lparr>at_apps = AList.update (WSubject a) (app_of n a) (at_apps T),
    at_limits = AList.update n (WLimits a) (at_limits T),
    at_subjects = AList.update (WSubject a) n (at_subjects T)\<rparr>"
  have IH: "(\<exists>T'. load_apps ws cap routed names ?T = Inr T') \<longleftrightarrow>
     (\<forall>m \<in> set names. app_ok cap routed (entry_of ws m) \<and> map_of (at_subjects ?T) (WSubject (entry_of ws m)) = None) \<and>
     distinct (map (\<lambda>n. WSubject (entry_of ws n)) names)"
    using Cons by simp
  have E: "(\<exists>T'. load_apps ws cap routed (n # names) T = Inr T') \<longleftrightarrow>
      (\<exists>T'. load_apps ws cap routed names ?T = Inr T') \<and> app_ok cap routed a \<and> map_of (at_subjects T) (WSubject a) = None"
    using load_app [OF a, of cap routed names T] by (metis Inl_Inr_False)
  show ?case
    unfolding E IH by (auto simp: e map_of_update_fun split: if_splits) (metis image_eqI)
qed simp

lemma load_apps_result:
  "set names \<subseteq> fst ` set ws \<Longrightarrow> distinct names \<Longrightarrow> load_apps ws cap routed names T = Inr T' \<Longrightarrow>
     map_of (at_apps T') = map_of (at_apps T) ++
       map_of (map (\<lambda>n. (WSubject (entry_of ws n), app_of n (entry_of ws n))) names) \<and>
     map_of (at_limits T') = map_of (at_limits T) ++ map_of (map (\<lambda>n. (n, WLimits (entry_of ws n))) names)"
proof (induction names arbitrary: T)
  case (Cons n names)
  from Cons.prems obtain a where a: "map_of ws n = Some a"
    by (metis domD dom_map_of_conv_image_fst list.set_intros(1) subsetD)
  then have e: "entry_of ws n = a" by (simp add: entry_of_def)
  let ?T = "\<lparr>at_apps = AList.update (WSubject a) (app_of n a) (at_apps T),
    at_limits = AList.update n (WLimits a) (at_limits T),
    at_subjects = AList.update (WSubject a) n (at_subjects T)\<rparr>"
  from load_app [OF a, of cap routed names T] Cons.prems
  have l: "load_apps ws cap routed names ?T = Inr T'" by auto
  let ?xs = "map (\<lambda>n. (WSubject (entry_of ws n), app_of n (entry_of ws n))) names"
  let ?ys = "map (\<lambda>n. (n, WLimits (entry_of ws n))) names"
  from l load_apps_accepts [of names ws cap routed ?T] Cons.prems
  have x: "WSubject a \<notin> fst ` set ?xs"
    by (auto simp: map_of_update_fun split: if_splits)
  have y: "n \<notin> fst ` set ?ys" using Cons.prems by auto
  have "map_of (at_apps T') = map_of (at_apps T) ++ map_of ((WSubject a, app_of n a) # ?xs)"
    using Cons.IH [OF _ _ l] Cons.prems(1,2) map_add_update [OF x map_of_update_fun, of "app_of n a" "at_apps T"]
    by (simp add: fun_upd_def)
  moreover have "map_of (at_limits T') = map_of (at_limits T) ++ map_of ((n, WLimits a) # ?ys)"
    using Cons.IH [OF _ _ l] Cons.prems(1,2) map_add_update [OF y map_of_update_fun, of "WLimits a" "at_limits T"]
    by (simp add: fun_upd_def)
  ultimately show ?case by (simp only: list.map e)
qed simp

lemma load_secrets_accepts:
  "set names \<subseteq> fst ` set ps \<Longrightarrow>
   (\<exists>S. load_secrets ps block routed names acc = Inr S) \<longleftrightarrow> (\<forall>n \<in> set names. secret_ok routed n (entry_of ps n))"
  by (induction names arbitrary: acc) (auto simp: Let_def secret_ok_def entry_of_def)

lemma load_secrets_result:
  "distinct names \<Longrightarrow> load_secrets ps block routed names acc = Inr S \<Longrightarrow>
     map_of S = map_of acc ++ map_of (map (\<lambda>n. (n, (entry_of ps n)\<lparr>SInterval :=
       (if SInterval (entry_of ps n) = 0 then block else SInterval (entry_of ps n))\<rparr>)) names)"
proof (induction names arbitrary: acc)
  case (Cons n names)
  let ?e = "\<lambda>n. (entry_of ps n)\<lparr>SInterval := (if SInterval (entry_of ps n) = 0 then block else SInterval (entry_of ps n))\<rparr>"
  from Cons.prems have l: "load_secrets ps block routed names (AList.update n (?e n) acc) = Inr S"
    by (simp add: Let_def entry_of_def split: if_splits)
  let ?xs = "map (\<lambda>n. (n, ?e n)) names"
  have x: "n \<notin> fst ` set ?xs" using Cons.prems by auto
  have "map_of S = map_of acc ++ map_of ((n, ?e n) # ?xs)"
    using Cons.IH [OF _ l] Cons.prems(1) map_add_update [OF x map_of_update_fun, of "?e n" acc]
    by (simp add: fun_upd_def)
  then show ?case by (simp only: list.map)
qed simp

lemma entries_iff:
  "distinct (map fst ws) \<Longrightarrow> (\<forall>n \<in> fst ` set ws. P n (entry_of ws n)) \<longleftrightarrow> (\<forall>(n, a) \<in> set ws. P n a)"
  by (force simp: entry_of_def)

lemma entries_map: "distinct (map fst ws) \<Longrightarrow> map (\<lambda>n. f (entry_of ws n)) (map fst ws) = map (f \<circ> snd) ws"
  by (auto simp: entry_of_def)

lemma distinct_sorted_names:
  assumes "distinct (map fst ws)"
  shows "distinct (map (\<lambda>n. f (entry_of ws n)) (sort (map fst ws))) \<longleftrightarrow> distinct (map (f \<circ> snd) ws)"
proof -
  have "mset (map (\<lambda>n. f (entry_of ws n)) (sort (map fst ws))) = mset (map (\<lambda>n. f (entry_of ws n)) (map fst ws))"
    by (simp only: mset_map mset_sort)
  from mset_eq_imp_distinct_iff [OF this] show ?thesis by (simp only: entries_map [OF assms])
qed

lemma secrets_accepted:
  assumes "distinct (map fst (SProviders w))"
  shows "(\<exists>S. secrets_toDomain w routed = Inr S) \<longleftrightarrow> source_ok routed w"
proof -
  let ?block = "if SBlockInterval w = 0 then defaultRefreshInterval else SBlockInterval w"
  let ?L = "load_secrets (SProviders w) ?block routed (sort (map fst (SProviders w))) []"
  have L: "(\<exists>S. ?L = Inr S) \<longleftrightarrow> (\<forall>(n, p) \<in> set (SProviders w). secret_ok routed n p)"
    using load_secrets_accepts [of "sort (map fst (SProviders w))" "SProviders w" ?block routed "[]"]
      entries_iff [OF assms, of "secret_ok routed"] by simp
  have "(\<exists>S. secrets_toDomain w routed = Inr S) \<longleftrightarrow>
      SKind w \<in> {'''', ''file'', ''vault''} \<and> (SKind w = '''' \<longrightarrow> SProviders w = []) \<and> 0 \<le> SBlockInterval w \<and>
      vault_ok w \<and> (\<exists>S. ?L = Inr S)"
    by (cases ?L) (auto simp: secrets_toDomain_def vault_ok_def Let_def)
  then show ?thesis unfolding L by (simp add: source_ok_def)
qed

lemma apps_accepted:
  assumes "distinct (map fst ws)"
  shows "(\<exists>T. load_apps ws cap routed (sort (map fst ws)) \<lparr>at_apps = [], at_limits = [], at_subjects = []\<rparr> = Inr T) \<longleftrightarrow>
    (\<forall>(n, a) \<in> set ws. app_ok cap routed a) \<and> distinct (map (WSubject \<circ> snd) ws)"
  using load_apps_accepts [of "sort (map fst ws)" ws cap routed "\<lparr>at_apps = [], at_limits = [], at_subjects = []\<rparr>"]
    entries_iff [OF assms, of "\<lambda>n a. app_ok cap routed a"] distinct_sorted_names [OF assms, of WSubject]
  by simp

lemma file_accepted:
  assumes "keyed w"
  shows "(\<exists>conf. wire_toDomain w = Inr conf) \<longleftrightarrow> valid_file w"
proof -
  let ?S = "secrets_toDomain (w_SecretSource w) (\<lambda>p. p \<in> set (map Provider (w_Routes w)))"
  let ?A = "load_apps (w_Apps w) (WGlobalMaxInFlight (w_Server w)) (\<lambda>m. m \<in> set (map MPModel (w_Routes w)))
    (sort (map fst (w_Apps w))) \<lparr>at_apps = [], at_limits = [], at_subjects = []\<rparr>"
  have "(\<exists>conf. wire_toDomain w = Inr conf) \<longleftrightarrow>
      0 \<le> WRefreshInterval (w_Auth w) \<and> bad_route 0 (w_Routes w) = None \<and> (\<exists>S. ?S = Inr S) \<and> (\<exists>T. ?A = Inr T)"
    by (cases ?S; cases ?A) (auto simp: wire_toDomain_def Let_def split: option.splits)
  with assms show ?thesis
    by (simp only: secrets_accepted apps_accepted keyed_def bad_route_None valid_file_def)
qed

text \<open>C21: A file is refused exactly when it is wrong: it is accepted if and only if its intervals are not
  negative, every route is complete, the secret source is one of the kinds and complete for its
  kind, every credential has a path and a route that spends it, and every app has a subject of
  its own, a ceiling under the global one, a known policy, and substitutes that some route
  serves.\<close>

theorem config_accepts_iff:
  assumes "keyed w"
  shows "(\<exists>conf. wire_toDomain w = Inr conf) \<longleftrightarrow> valid_file w"
  by (rule file_accepted [OF assms])

definition demo_file :: wire where
  "demo_file =
     \<lparr>w_Server = \<lparr>Listen = '':8080'', WMaxBodyBytes = 0, WGlobalMaxInFlight = 64, WTotalDeadline = 60 * Second,
        WPerTryDeadline = 25 * Second, WReadHeaderTimeout = 0, WReadTimeout = 0, WWriteTimeout = 0, WIdleTimeout = 0\<rparr>,
      w_Auth = \<lparr>WIssuer = ''https://cluster'', WAudience = ''llm-gateway'', WJWKSURL = ''https://k8s/jwks'', WRefreshInterval = 0\<rparr>,
      w_Routes = [\<lparr>MPModel = ''gpt'', Provider = ''openai'', Endpoint = ''https://o''\<rparr>,
        \<lparr>MPModel = ''llama'', Provider = ''ollama'', Endpoint = ''http://l''\<rparr>],
      w_FailoverOrder = [''openai'', ''ollama''],
      w_Apps = [(''search'', \<lparr>WSubject = ''sub-s'', WAppDeadline = 0, WLimits = \<lparr>RPS = 5, TokensPerMinute = 0, LMaxInFlight = 8\<rparr>,
          WPolicy = \<lparr>PKind = ''allowlist'', PAllowlist = [''llama'']\<rparr>\<rparr>),
        (''agent'', \<lparr>WSubject = ''sub-a'', WAppDeadline = 150 * Second, WLimits = \<lparr>RPS = 0, TokensPerMinute = 9, LMaxInFlight = 64\<rparr>,
          WPolicy = \<lparr>PKind = '''', PAllowlist = []\<rparr>\<rparr>)],
      w_Redis = \<lparr>RAddr = ''redis:6379'', RTLS = False, RCAPath = '''', RPasswordPath = ''''\<rparr>,
      w_SecretSource = \<lparr>SKind = ''file'', SBlockInterval = 0, SVault = no_vault,
        SProviders = [(''openai'', \<lparr>SPath = ''/keys/openai'', SInterval = 0\<rparr>)]\<rparr>,
      w_OTLPEndpoint = ''otel:4317''\<rparr>"

lemma demo_file_keyed: "keyed demo_file" by code_simp

lemma demo_file_valid: "valid_file demo_file" by code_simp

lemma demo_file_accepted: "\<exists>conf. wire_toDomain demo_file = Inr conf"
  using file_accepted [OF demo_file_keyed] demo_file_valid by blast

theorem config_accepts_iff_witness: "\<exists>conf. wire_toDomain demo_file = Inr conf \<and> keyed demo_file"
  using config_accepts_iff [OF demo_file_keyed] demo_file_valid demo_file_keyed by blast

lemma map_of_tabulate: "map_of (map (\<lambda>n. (n, g n)) ns) k = (if k \<in> set ns then Some (g k) else None)"
  by (induction ns) auto

lemma map_of_entries:
  "map_of (map (\<lambda>n. (n, f (entry_of ws n))) (sort (map fst ws))) k = map_option f (map_of ws k)"
  by (cases "map_of ws k") (auto simp: map_of_tabulate entry_of_def map_of_eq_None_iff dest: map_of_SomeD intro: rev_image_eqI)

lemma positive_update:
  "list_all (\<lambda>(p, s). 0 < SInterval s) al \<Longrightarrow> 0 < SInterval v \<Longrightarrow>
     list_all (\<lambda>(p, s). 0 < SInterval s) (AList.update k v al)"
  by (induction al) auto

lemma load_secrets_positive:
  "load_secrets ps block routed names acc = Inr S \<Longrightarrow> 0 < block \<Longrightarrow> list_all (\<lambda>(p, s). 0 < SInterval s) acc \<Longrightarrow>
     list_all (\<lambda>(p, s). 0 < SInterval s) S"
proof (induction names arbitrary: acc)
  case (Cons n names)
  let ?v = "(entry_of ps n)\<lparr>SInterval := (if SInterval (entry_of ps n) = 0 then block else SInterval (entry_of ps n))\<rparr>"
  from Cons.prems have "load_secrets ps block routed names (AList.update n ?v acc) = Inr S" "0 < SInterval ?v"
    by (auto simp: Let_def entry_of_def split: if_splits)
  then show ?case using Cons.IH [OF _ Cons.prems(2) positive_update [OF Cons.prems(3)]] by blast
qed simp

lemma secrets_translated:
  assumes "secrets_toDomain w routed = Inr S" "distinct (map fst (SProviders w))"
  shows "(\<forall>p. map_option SPath (map_of (SecretProviders S) p) = map_option SPath (map_of (SProviders w) p)) \<and>
    list_all (\<lambda>(p, s). 0 < SInterval s) (SecretProviders S)"
proof -
  let ?block = "if SBlockInterval w = 0 then defaultRefreshInterval else SBlockInterval w"
  from assms have l: "load_secrets (SProviders w) ?block routed (sort (map fst (SProviders w))) [] = Inr (SecretProviders S)"
    and b: "0 \<le> SBlockInterval w"
    by (auto simp: secrets_toDomain_def Let_def split: if_splits sum.splits)
  from b have "0 < ?block" by (simp add: defaultRefreshInterval_def)
  with load_secrets_positive [OF l] have "list_all (\<lambda>(p, s). 0 < SInterval s) (SecretProviders S)" by simp
  moreover have "map_option SPath (map_of (SecretProviders S) p) = map_option SPath (map_of (SProviders w) p)" for p
    using load_secrets_result [OF _ l] assms(2)
      map_of_entries [of "\<lambda>s. s\<lparr>SInterval := (if SInterval s = 0 then ?block else SInterval s)\<rparr>" "SProviders w" p]
    by (simp add: option.map_comp comp_def)
  ultimately show ?thesis by blast
qed

lemma apps_translated:
  assumes "load_apps ws cap routed (sort (map fst ws)) \<lparr>at_apps = [], at_limits = [], at_subjects = []\<rparr> = Inr T"
    "distinct (map fst ws)"
  shows "(map_of (at_apps T) s = Some app \<longleftrightarrow> (\<exists>n a. map_of ws n = Some a \<and> WSubject a = s \<and> app = app_of n a)) \<and>
    map_of (at_limits T) = map_option WLimits \<circ> map_of ws"
proof -
  let ?ns = "sort (map fst ws)" and ?x = "\<lambda>n. (WSubject (entry_of ws n), app_of n (entry_of ws n))"
  have "distinct (map fst (map ?x ?ns))"
    using load_apps_accepts [of ?ns ws cap routed "\<lparr>at_apps = [], at_limits = [], at_subjects = []\<rparr>"] assms
    by (simp add: comp_def)
  moreover have "map_of (at_apps T) = map_of (map ?x ?ns)"
    and "map_of (at_limits T) = map_of (map (\<lambda>n. (n, WLimits (entry_of ws n))) ?ns)"
    using load_apps_result [OF _ _ assms(1)] assms(2) by simp_all
  moreover have "(s, app) \<in> set (map ?x ?ns) \<longleftrightarrow> (\<exists>n a. map_of ws n = Some a \<and> WSubject a = s \<and> app = app_of n a)"
  proof
    assume "(s, app) \<in> set (map ?x ?ns)"
    then obtain n where "n \<in> fst ` set ws" "s = WSubject (entry_of ws n)" "app = app_of n (entry_of ws n)" by auto
    moreover from this(1) obtain a where "map_of ws n = Some a" by (metis map_of_eq_None_iff not_Some_eq)
    ultimately show "\<exists>n a. map_of ws n = Some a \<and> WSubject a = s \<and> app = app_of n a"
      by (auto simp: entry_of_def)
  next
    assume "\<exists>n a. map_of ws n = Some a \<and> WSubject a = s \<and> app = app_of n a"
    then obtain n a where "map_of ws n = Some a" "WSubject a = s" "app = app_of n a" by blast
    moreover from this(1) have "n \<in> set ?ns" by (force dest: map_of_SomeD)
    ultimately show "(s, app) \<in> set (map ?x ?ns)" by (force simp: entry_of_def)
  qed
  ultimately show ?thesis
    using map_of_entries [of WLimits ws] by (simp only: map_of_eq_Some_iff fun_eq_iff comp_apply) simp
qed

text \<open>What the layers get is what the file says: a token subject resolves to the app whose entry has it,
  each app has the limits of its entry, each credential its path and its own interval or the
  block's, every interval is positive, and no app may be served a substitute its entry does not
  allow.\<close>

theorem config_translation:
  assumes "keyed w" "wire_toDomain w = Inr conf"
  shows "(\<forall>s app. map_of (AppTable (AuthPart conf)) s = Some app \<longleftrightarrow>
       (\<exists>n a. map_of (w_Apps w) n = Some a \<and> WSubject a = s \<and> app = app_of n a)) \<and>
    map_of (Limits conf) = map_option WLimits \<circ> map_of (w_Apps w) \<and>
    (\<forall>p. map_option SPath (map_of (SecretProviders (SecretPart conf)) p) =
       map_option SPath (map_of (SProviders (w_SecretSource w)) p)) \<and>
    0 < JWKSInterval conf \<and> list_all (\<lambda>(p, s). 0 < SInterval s) (SecretProviders (SecretPart conf))"
proof -
  let ?S = "secrets_toDomain (w_SecretSource w) (\<lambda>p. p \<in> set (map Provider (w_Routes w)))"
  let ?A = "load_apps (w_Apps w) (WGlobalMaxInFlight (w_Server w)) (\<lambda>m. m \<in> set (map MPModel (w_Routes w)))
    (sort (map fst (w_Apps w))) \<lparr>at_apps = [], at_limits = [], at_subjects = []\<rparr>"
  from assms(2) obtain S T where S: "?S = Inr S" and A: "?A = Inr T" and rest: "AppTable (AuthPart conf) = at_apps T"
    "Limits conf = at_limits T" "SecretPart conf = S" "0 < JWKSInterval conf"
    by (cases ?S; cases ?A) (auto simp: wire_toDomain_def Let_def defaultRefreshInterval_def split: option.splits if_splits)
  from assms(1) have d: "distinct (map fst (w_Apps w))" "distinct (map fst (SProviders (w_SecretSource w)))"
    by (simp_all add: keyed_def)
  show ?thesis
    using rest apps_translated [OF A d(1)] secrets_translated [OF S d(2)] by simp
qed

theorem config_translation_witness:
  "\<exists>conf. wire_toDomain demo_file = Inr conf \<and> map_of (AppTable (AuthPart conf)) ''sub-a'' \<noteq> None \<and> 0 < JWKSInterval conf"
proof -
  obtain conf where c: "wire_toDomain demo_file = Inr conf"
    using demo_file_accepted by blast
  have "map_of (w_Apps demo_file) ''agent'' \<noteq> None" "WSubject (the (map_of (w_Apps demo_file) ''agent'')) = ''sub-a''"
    by code_simp+
  with config_translation [OF demo_file_keyed c] c show ?thesis by force
qed

section \<open>The order of a map does not matter\<close>

lemma load_apps_cong: "map_of ws = map_of ws' \<Longrightarrow> load_apps ws cap routed names T = load_apps ws' cap routed names T"
proof (induction names arbitrary: T)
  case (Cons n names)
  from Cons have "load_apps ws cap routed names = load_apps ws' cap routed names" by blast
  then show ?case by (simp only: load_apps.simps(2) Cons.prems)
qed simp

lemma load_secrets_cong:
  "map_of ps = map_of ps' \<Longrightarrow> load_secrets ps block routed names acc = load_secrets ps' block routed names acc"
  by (induction names arbitrary: acc) (simp_all add: Let_def)

lemma shuffled_names: "mset xs = mset (ys :: (string \<times> 'a) list) \<Longrightarrow> sort (map fst xs) = sort (map fst ys)"
  by (metis mset_map sorted_list_of_multiset_mset)

lemma shuffled_map: "distinct (map fst xs) \<Longrightarrow> mset xs = mset ys \<Longrightarrow> map_of xs = map_of ys"
  by (metis map_of_inject_set mset_eq_setD mset_eq_imp_distinct_iff mset_map)

lemma source_update:
  "SKind (s\<lparr>SProviders := ps\<rparr>) = SKind s" "SBlockInterval (s\<lparr>SProviders := ps\<rparr>) = SBlockInterval s"
  "SVault (s\<lparr>SProviders := ps\<rparr>) = SVault s" "SProviders (s\<lparr>SProviders := ps\<rparr>) = ps"
  by simp_all

lemma wire_update:
  "w_Server (w\<lparr>w_Apps := as, w_SecretSource := ss\<rparr>) = w_Server w"
  "w_Auth (w\<lparr>w_Apps := as, w_SecretSource := ss\<rparr>) = w_Auth w"
  "w_Routes (w\<lparr>w_Apps := as, w_SecretSource := ss\<rparr>) = w_Routes w"
  "w_FailoverOrder (w\<lparr>w_Apps := as, w_SecretSource := ss\<rparr>) = w_FailoverOrder w"
  "w_Redis (w\<lparr>w_Apps := as, w_SecretSource := ss\<rparr>) = w_Redis w"
  "w_OTLPEndpoint (w\<lparr>w_Apps := as, w_SecretSource := ss\<rparr>) = w_OTLPEndpoint w"
  "w_Apps (w\<lparr>w_Apps := as, w_SecretSource := ss\<rparr>) = as"
  "w_SecretSource (w\<lparr>w_Apps := as, w_SecretSource := ss\<rparr>) = ss"
  by simp_all

text \<open>C40: Booting is deterministic: two runs that iterate over the file's maps in different orders get the same
  configuration, or the same error naming the same app or provider.\<close>

theorem config_deterministic:
  assumes "keyed w" "mset as = mset (w_Apps w)" "mset ps = mset (SProviders (w_SecretSource w))"
  shows "wire_toDomain (w\<lparr>w_Apps := as, w_SecretSource := (w_SecretSource w)\<lparr>SProviders := ps\<rparr>\<rparr>) = wire_toDomain w"
proof -
  from assms have m: "map_of (w_Apps w) = map_of as" "map_of (SProviders (w_SecretSource w)) = map_of ps"
    using shuffled_map [of "w_Apps w" as] shuffled_map [of "SProviders (w_SecretSource w)" ps]
    by (auto simp: keyed_def)
  have n: "sort (map fst as) = sort (map fst (w_Apps w))"
      "sort (map fst ps) = sort (map fst (SProviders (w_SecretSource w)))"
    by (rule shuffled_names [OF assms(2)], rule shuffled_names [OF assms(3)])
  have e: "ps = [] \<longleftrightarrow> SProviders (w_SecretSource w) = []" using assms(3) by (metis mset_zero_iff)
  have "secrets_toDomain ((w_SecretSource w)\<lparr>SProviders := ps\<rparr>) routed = secrets_toDomain (w_SecretSource w) routed" for routed
    by (simp only: secrets_toDomain_def source_update n e load_secrets_cong [OF m(2)])
  then show ?thesis
    by (simp only: wire_toDomain_def wire_update n load_apps_cong [OF m(1)])
qed

theorem config_deterministic_witness:
  "wire_toDomain (demo_file\<lparr>w_Apps := rev (w_Apps demo_file),
     w_SecretSource := (w_SecretSource demo_file)\<lparr>SProviders := SProviders (w_SecretSource demo_file)\<rparr>\<rparr>) = wire_toDomain demo_file"
  by (rule config_deterministic [OF demo_file_keyed]) simp_all


end
