(* ===== verification/OpenAI.thy ===== *)
theory OpenAI
  imports ProviderHttp
begin

text \<open>
  \<open>internal/openai\<close>: the chat-completions dialect. The wire structs are records, their JSON
  form is what the struct tags say, and \<open>Complete\<close> is the encoding, the headers and the
  exchange of \<open>ProviderHttp\<close>.
\<close>

section \<open>The request\<close>

record openaiToolCall =
  oc_ID :: string
  oc_Type :: string
  oc_Name :: string
  oc_Arguments :: string

record openaiMessage =
  om_Role :: string
  om_Content :: string
  om_ToolCalls :: "openaiToolCall list"
  om_ToolCallID :: string

record openaiTool =
  ot_Type :: string
  ot_Name :: string
  ot_Description :: string
  ot_Parameters :: string

text \<open>\<open>tool_choice\<close> is a bare string or a function object.\<close>

datatype openaiToolChoice = BareChoice string | FunctionChoice string string

record openaiChatRequest =
  or_Model :: string
  or_Messages :: "openaiMessage list"
  or_MaxCompletionTokens :: int
  or_Temperature :: "rat option"
  or_TopP :: "rat option"
  or_Stop :: "string list"
  or_Tools :: "openaiTool list"
  or_ToolChoice :: "openaiToolChoice option"

definition openaiRequestMessage :: "Message \<Rightarrow> openaiMessage" where
  "openaiRequestMessage m =
     \<lparr>om_Role = role_string (Role m), om_Content = Content m,
      om_ToolCalls = map (\<lambda>tc. \<lparr>oc_ID = ID tc, oc_Type = ''function'', oc_Name = Name tc,
        oc_Arguments = Arguments tc\<rparr>) (ToolCalls m),
      om_ToolCallID = ToolCallID m\<rparr>"

definition openaiRequest :: "string \<Rightarrow> ChatRequest \<Rightarrow> openaiChatRequest" where
  "openaiRequest model req =
     \<lparr>or_Model = model, or_Messages = map openaiRequestMessage (Messages req),
      or_MaxCompletionTokens = MaxTokens req, or_Temperature = Temperature req, or_TopP = TopP req,
      or_Stop = Stop req,
      or_Tools = map (\<lambda>t. \<lparr>ot_Type = ''function'', ot_Name = ToolName t, ot_Description = Description t,
        ot_Parameters = Parameters t\<rparr>) (Tools req),
      or_ToolChoice = (case ToolChoice req of None \<Rightarrow> None
        | Some tc \<Rightarrow> (case Mode tc of
            ToolChoiceNone \<Rightarrow> Some (BareChoice ''none'')
          | ToolChoiceAuto \<Rightarrow> Some (BareChoice ''auto'')
          | ToolChoiceFunction \<Rightarrow> Some (FunctionChoice ''function'' (Function tc))
          | ToolChoiceOther _ \<Rightarrow> None))\<rparr>"

section \<open>Its JSON\<close>

definition openai_call_json :: "openaiToolCall \<Rightarrow> json" where
  "openai_call_json tc = JObj (always ''id'' (JStr (oc_ID tc)) @ always ''type'' (JStr (oc_Type tc)) @
     always ''function'' (JObj (always ''name'' (JStr (oc_Name tc)) @
       always ''arguments'' (JStr (oc_Arguments tc)))))"

definition openai_message_json :: "openaiMessage \<Rightarrow> json" where
  "openai_message_json m = JObj (always ''role'' (JStr (om_Role m)) @
     omit_string ''content'' (om_Content m) @
     omit_list ''tool_calls'' openai_call_json (om_ToolCalls m) @
     omit_string ''tool_call_id'' (om_ToolCallID m))"

definition openai_tool_json :: "codec \<Rightarrow> openaiTool \<Rightarrow> json" where
  "openai_tool_json C t = JObj (always ''type'' (JStr (ot_Type t)) @
     always ''function'' (JObj (always ''name'' (JStr (ot_Name t)) @
       omit_string ''description'' (ot_Description t) @ omit_raw C ''parameters'' (ot_Parameters t))))"

fun openai_choice_json :: "openaiToolChoice \<Rightarrow> json" where
  "openai_choice_json (BareChoice s) = JStr s"
| "openai_choice_json (FunctionChoice ty name) =
     JObj (always ''type'' (JStr ty) @ always ''function'' (JObj (always ''name'' (JStr name))))"

definition openai_request_json :: "codec \<Rightarrow> openaiChatRequest \<Rightarrow> json" where
  "openai_request_json C r = JObj (always ''model'' (JStr (or_Model r)) @
     always ''messages'' (JArr (map openai_message_json (or_Messages r))) @
     always ''max_completion_tokens'' (JInt (or_MaxCompletionTokens r)) @
     omit_float ''temperature'' (or_Temperature r) @ omit_float ''top_p'' (or_TopP r) @
     omit_list ''stop'' JStr (or_Stop r) @
     omit_list ''tools'' (openai_tool_json C) (or_Tools r) @
     omit_option ''tool_choice'' openai_choice_json (or_ToolChoice r))"

text \<open>The raw messages inside: the tools' parameters that are sent at all.\<close>

definition openai_raws :: "openaiChatRequest \<Rightarrow> string list" where
  "openai_raws r = filter (\<lambda>s. s \<noteq> '''') (map ot_Parameters (or_Tools r))"

section \<open>The response\<close>

record openaiResponseCall =
  orc_ID :: string
  orc_Name :: string
  orc_Arguments :: string

record openaiChoice =
  och_Role :: string
  och_Content :: string
  och_ToolCalls :: "openaiResponseCall list"
  och_FinishReason :: string

record openaiChatResponse =
  ors_Choices :: "openaiChoice list"
  ors_Usage :: Usage

fun dec_openai_call :: "openaiResponseCall dec" where
  "dec_openai_call j =
     (case (fld ''id'' dec_string j, fld ''function'' (fld ''name'' dec_string) j,
            fld ''function'' (fld ''arguments'' dec_string) j) of
        (Some i, Some n, Some a) \<Rightarrow> Some \<lparr>orc_ID = i, orc_Name = n, orc_Arguments = a\<rparr>
      | _ \<Rightarrow> None)"

fun dec_openai_choice :: "openaiChoice dec" where
  "dec_openai_choice j =
     (case (fld ''message'' (fld ''role'' dec_string) j, fld ''message'' (fld ''content'' dec_string) j,
            fld ''message'' (fld ''tool_calls'' (dec_list dec_openai_call)) j,
            fld ''finish_reason'' dec_string j) of
        (Some r, Some c, Some t, Some f) \<Rightarrow>
          Some \<lparr>och_Role = r, och_Content = c, och_ToolCalls = t, och_FinishReason = f\<rparr>
      | _ \<Rightarrow> None)"

fun dec_openai_response :: "openaiChatResponse dec" where
  "dec_openai_response j =
     (case (fld ''choices'' (dec_list dec_openai_choice) j,
            fld ''usage'' (fld ''prompt_tokens'' dec_int) j,
            fld ''usage'' (fld ''completion_tokens'' dec_int) j,
            fld ''usage'' (fld ''total_tokens'' dec_int) j) of
        (Some cs, Some p, Some c, Some t) \<Rightarrow>
          Some \<lparr>ors_Choices = cs, ors_Usage = \<lparr>PromptTokens = p, CompletionTokens = c, TotalTokens = t\<rparr>\<rparr>
      | _ \<Rightarrow> None)"

definition openaiFinish :: "string \<Rightarrow> FinishReason option" where
  "openaiFinish = [''stop'' \<mapsto> FinishStop, ''length'' \<mapsto> FinishLength, ''tool_calls'' \<mapsto> FinishToolCalls]"

definition openai_toDomain :: "openaiChatResponse \<Rightarrow> go_error + Completion" where
  "openai_toDomain r =
     (let usage = ors_Usage r
      in case ors_Choices r of
           [] \<Rightarrow> Inl (BadResponseFault ''openai'' (ErrText ''response holds no choices'') (Some usage))
         | choice # _ \<Rightarrow>
             (case openaiFinish (och_FinishReason choice) of
                None \<Rightarrow> Inl (BadResponseFault ''openai''
                  (ErrText (''unrecognized finish_reason '' @ quote (och_FinishReason choice))) (Some usage))
              | Some finish \<Rightarrow>
                  Inr \<lparr>CMessage = \<lparr>Role = RoleAssistant, Content = och_Content choice,
                         ToolCalls = map (\<lambda>tc. \<lparr>ID = orc_ID tc, Name = orc_Name tc,
                           Arguments = orc_Arguments tc\<rparr>) (och_ToolCalls choice),
                         ToolCallID = ''''\<rparr>,
                       CFinishReason = finish, CUsage = usage\<rparr>))"

section \<open>\<open>Complete\<close>\<close>

record 'w OpenAI =
  o_client :: "'w Http"
  o_key :: "'w Key"

text \<open>\<open>default\<close> is \<open>http.DefaultClient\<close>.\<close>

definition NewOpenAI :: "'w Http \<Rightarrow> 'w Http option \<Rightarrow> 'w Key option \<Rightarrow> 'w OpenAI" where
  "NewOpenAI dflt cl k = \<lparr>o_client = (case cl of None \<Rightarrow> dflt | Some c \<Rightarrow> c),
     o_key = (case k of None \<Rightarrow> NoKey | Some f \<Rightarrow> f)\<rparr>"

definition openai_Complete :: "'w OpenAI \<Rightarrow> 'w ProviderClient" where
  "openai_Complete p c mp req w =
     (let C = codec_of (o_client p); wire = openaiRequest (MPModel mp) req
      in post_json (o_client p) ''openai''
           (trim_suffix (Endpoint mp) ''/'' @ ''/chat/completions'')
           (marshal C (openai_raws wire) (openai_request_json C wire))
           [(''Content-Type'', ''application/json''), (''Authorization'', ''Bearer '' @ o_key p w)]
           dec_openai_response openai_toDomain c w)"

section \<open>Facts\<close>

lemma openai_toDomain_faults [simp]: "faults_only (openai_toDomain r)"
  by (simp add: openai_toDomain_def Let_def split: list.split option.split)

interpretation openai: provider_client "openai_Complete p" for p
proof
  fix c mp req w e w1
  assume "openai_Complete p c mp req w = (Inl e, w1)"
  then show "as_fault e \<noteq> None"
    using post_json_faults [of openai_toDomain "o_client p" "''openai''" _ _ _ dec_openai_response c w]
    by (metis faults_only_simps(1) fst_conv is_fault_def openai_Complete_def openai_toDomain_faults)
qed

end
