(* ===== verification/Anthropic.thy ===== *)
theory Anthropic
  imports ProviderHttp
begin

text \<open>
  \<open>internal/anthropic\<close>: the messages dialect. The system prompt is a field, a tool result is a
  user message with a \<open>tool_result\<close> block, and one struct serves every kind of block.
\<close>

section \<open>The request\<close>

record anthropicContent =
  ac_Type :: string
  ac_Text :: string
  ac_ID :: string
  ac_Name :: string
  ac_Input :: string
  ac_ToolUseID :: string
  ac_Content :: string

definition block :: "string \<Rightarrow> anthropicContent" where
  "block ty = \<lparr>ac_Type = ty, ac_Text = '''', ac_ID = '''', ac_Name = '''', ac_Input = '''',
     ac_ToolUseID = '''', ac_Content = ''''\<rparr>"

record anthropicMessage =
  am_Role :: string
  am_Content :: "anthropicContent list"

record anthropicTool =
  at_Name :: string
  at_Description :: string
  at_InputSchema :: string

record anthropicToolChoice =
  atc_Type :: string
  atc_Name :: string

record anthropicChatRequest =
  ar_Model :: string
  ar_MaxTokens :: int
  ar_System :: string
  ar_Messages :: "anthropicMessage list"
  ar_Temperature :: "rat option"
  ar_TopP :: "rat option"
  ar_StopSequences :: "string list"
  ar_Tools :: "anthropicTool list"
  ar_ToolChoice :: "anthropicToolChoice option"

definition anthropicRequestMessage :: "Message \<Rightarrow> anthropicMessage" where
  "anthropicRequestMessage m =
     (if Role m = RoleTool then
        \<lparr>am_Role = ''user'',
         am_Content = [(block ''tool_result'')\<lparr>ac_ToolUseID := ToolCallID m, ac_Content := Content m\<rparr>]\<rparr>
      else
        \<lparr>am_Role = role_string (Role m),
         am_Content = (if Content m \<noteq> '''' then [(block ''text'')\<lparr>ac_Text := Content m\<rparr>] else []) @
           map (\<lambda>tc. (block ''tool_use'')\<lparr>ac_ID := ID tc, ac_Name := Name tc, ac_Input := Arguments tc\<rparr>)
             (ToolCalls m)\<rparr>)"

text \<open>The loop over the messages: what it has collected for \<open>system\<close> and for \<open>wire.Messages\<close>.\<close>

fun split_system ::
  "Message list \<Rightarrow> string list \<Rightarrow> anthropicMessage list \<Rightarrow> string list \<times> anthropicMessage list" where
  "split_system [] system msgs = (system, msgs)"
| "split_system (m # ms) system msgs =
     (if Role m = RoleSystem then split_system ms (system @ [Content m]) msgs
      else split_system ms system (msgs @ [anthropicRequestMessage m]))"

definition anthropicRequest :: "string \<Rightarrow> ChatRequest \<Rightarrow> anthropicChatRequest" where
  "anthropicRequest model req =
     (let (system, msgs) = split_system (Messages req) [] []
      in \<lparr>ar_Model = model, ar_MaxTokens = MaxTokens req,
          ar_System = join [CHR 0x0A, CHR 0x0A] system, ar_Messages = msgs,
          ar_Temperature = Temperature req, ar_TopP = TopP req, ar_StopSequences = Stop req,
          ar_Tools = map (\<lambda>t. \<lparr>at_Name = ToolName t, at_Description = Description t,
            at_InputSchema = Parameters t\<rparr>) (Tools req),
          ar_ToolChoice = (case ToolChoice req of None \<Rightarrow> None
            | Some tc \<Rightarrow> (case Mode tc of
                ToolChoiceNone \<Rightarrow> Some \<lparr>atc_Type = ''none'', atc_Name = ''''\<rparr>
              | ToolChoiceAuto \<Rightarrow> Some \<lparr>atc_Type = ''auto'', atc_Name = ''''\<rparr>
              | ToolChoiceFunction \<Rightarrow> Some \<lparr>atc_Type = ''tool'', atc_Name = Function tc\<rparr>
              | ToolChoiceOther _ \<Rightarrow> None))\<rparr>)"

section \<open>Its JSON\<close>

definition content_json :: "codec \<Rightarrow> anthropicContent \<Rightarrow> json" where
  "content_json C b = JObj (always ''type'' (JStr (ac_Type b)) @ omit_string ''text'' (ac_Text b) @
     omit_string ''id'' (ac_ID b) @ omit_string ''name'' (ac_Name b) @ omit_raw C ''input'' (ac_Input b) @
     omit_string ''tool_use_id'' (ac_ToolUseID b) @ omit_string ''content'' (ac_Content b))"

text \<open>A nil slice is \<open>null\<close>: a turn without text and calls, or a request of system turns only.\<close>

definition slice_json :: "('a \<Rightarrow> json) \<Rightarrow> 'a list \<Rightarrow> json" where
  "slice_json e xs = (if xs = [] then JNull else JArr (map e xs))"

definition anthropic_message_json :: "codec \<Rightarrow> anthropicMessage \<Rightarrow> json" where
  "anthropic_message_json C m = JObj (always ''role'' (JStr (am_Role m)) @
     always ''content'' (slice_json (content_json C) (am_Content m)))"

definition anthropic_tool_json :: "codec \<Rightarrow> anthropicTool \<Rightarrow> json" where
  "anthropic_tool_json C t = JObj (always ''name'' (JStr (at_Name t)) @
     omit_string ''description'' (at_Description t) @ omit_raw C ''input_schema'' (at_InputSchema t))"

definition anthropic_choice_json :: "anthropicToolChoice \<Rightarrow> json" where
  "anthropic_choice_json tc = JObj (always ''type'' (JStr (atc_Type tc)) @ omit_string ''name'' (atc_Name tc))"

definition anthropic_request_json :: "codec \<Rightarrow> anthropicChatRequest \<Rightarrow> json" where
  "anthropic_request_json C r = JObj (always ''model'' (JStr (ar_Model r)) @
     always ''max_tokens'' (JInt (ar_MaxTokens r)) @ omit_string ''system'' (ar_System r) @
     always ''messages'' (slice_json (anthropic_message_json C) (ar_Messages r)) @
     omit_float ''temperature'' (ar_Temperature r) @ omit_float ''top_p'' (ar_TopP r) @
     omit_list ''stop_sequences'' JStr (ar_StopSequences r) @
     omit_list ''tools'' (anthropic_tool_json C) (ar_Tools r) @
     omit_option ''tool_choice'' anthropic_choice_json (ar_ToolChoice r))"

definition anthropic_raws :: "anthropicChatRequest \<Rightarrow> string list" where
  "anthropic_raws r = filter (\<lambda>s. s \<noteq> '''')
     (concat (map (\<lambda>m. map ac_Input (am_Content m)) (ar_Messages r)) @ map at_InputSchema (ar_Tools r))"

section \<open>The response\<close>

record anthropicChatResponse =
  ars_Content :: "anthropicContent list"
  ars_StopReason :: string
  ars_InputTokens :: int
  ars_OutputTokens :: int

definition dec_content :: "codec \<Rightarrow> anthropicContent dec" where
  "dec_content C j =
     (case (fld ''type'' dec_string j, fld ''text'' dec_string j, fld ''id'' dec_string j,
            fld ''name'' dec_string j, raw_fld C ''input'' j, fld ''tool_use_id'' dec_string j,
            fld ''content'' dec_string j) of
        (Some ty, Some tx, Some i, Some n, Some inp, Some tu, Some c) \<Rightarrow>
          Some \<lparr>ac_Type = ty, ac_Text = tx, ac_ID = i, ac_Name = n, ac_Input = inp,
            ac_ToolUseID = tu, ac_Content = c\<rparr>
      | _ \<Rightarrow> None)"

definition dec_anthropic_response :: "codec \<Rightarrow> anthropicChatResponse dec" where
  "dec_anthropic_response C j =
     (case (fld ''content'' (dec_list (dec_content C)) j, fld ''stop_reason'' dec_string j,
            fld ''usage'' (fld ''input_tokens'' dec_int) j,
            fld ''usage'' (fld ''output_tokens'' dec_int) j) of
        (Some cs, Some s, Some i, Some ou) \<Rightarrow>
          Some \<lparr>ars_Content = cs, ars_StopReason = s, ars_InputTokens = i, ars_OutputTokens = ou\<rparr>
      | _ \<Rightarrow> None)"

definition anthropicFinish :: "string \<Rightarrow> FinishReason option" where
  "anthropicFinish = [''end_turn'' \<mapsto> FinishStop, ''stop_sequence'' \<mapsto> FinishStop,
     ''max_tokens'' \<mapsto> FinishLength, ''tool_use'' \<mapsto> FinishToolCalls]"

text \<open>The loop over the blocks: the text and the calls collected so far.\<close>

fun read_blocks :: "anthropicContent list \<Rightarrow> string \<Rightarrow> ToolCall list \<Rightarrow> string \<times> ToolCall list" where
  "read_blocks [] body tcs = (body, tcs)"
| "read_blocks (b # bs) body tcs =
     (if ac_Type b = ''text'' then read_blocks bs (body @ ac_Text b) tcs
      else if ac_Type b = ''tool_use'' then
        read_blocks bs body (tcs @ [\<lparr>ID = ac_ID b, Name = ac_Name b, Arguments = ac_Input b\<rparr>])
      else read_blocks bs body tcs)"

definition anthropic_toDomain :: "anthropicChatResponse \<Rightarrow> go_error + Completion" where
  "anthropic_toDomain r =
     (let usage = \<lparr>PromptTokens = ars_InputTokens r, CompletionTokens = ars_OutputTokens r,
            TotalTokens = i64 (ars_InputTokens r + ars_OutputTokens r)\<rparr>;
          (body, tcs) = read_blocks (ars_Content r) '''' []
      in case anthropicFinish (ars_StopReason r) of
           None \<Rightarrow> Inl (BadResponseFault ''anthropic''
             (ErrText (''unrecognized stop_reason '' @ quote (ars_StopReason r))) (Some usage))
         | Some finish \<Rightarrow>
             Inr \<lparr>CMessage = \<lparr>Role = RoleAssistant, Content = body, ToolCalls = tcs, ToolCallID = ''''\<rparr>,
                  CFinishReason = finish, CUsage = usage\<rparr>)"

section \<open>\<open>Complete\<close>\<close>

definition anthropicVersion :: string where "anthropicVersion = ''2023-06-01''"

record 'w Anthropic =
  a_client :: "'w Http"
  a_key :: "'w Key"

definition NewAnthropic :: "'w Http \<Rightarrow> 'w Http option \<Rightarrow> 'w Key option \<Rightarrow> 'w Anthropic" where
  "NewAnthropic dflt cl k = \<lparr>a_client = (case cl of None \<Rightarrow> dflt | Some c \<Rightarrow> c),
     a_key = (case k of None \<Rightarrow> NoKey | Some f \<Rightarrow> f)\<rparr>"

definition anthropic_Complete :: "'w Anthropic \<Rightarrow> 'w ProviderClient" where
  "anthropic_Complete p c mp req w =
     (let C = codec_of (a_client p); wire = anthropicRequest (MPModel mp) req
      in post_json (a_client p) ''anthropic''
           (trim_suffix (Endpoint mp) ''/'' @ ''/messages'')
           (marshal C (anthropic_raws wire) (anthropic_request_json C wire))
           [(''Content-Type'', ''application/json''), (''x-api-key'', a_key p w),
            (''anthropic-version'', anthropicVersion)]
           (dec_anthropic_response C) anthropic_toDomain c w)"

section \<open>Facts\<close>

lemma anthropic_toDomain_faults [simp]: "faults_only (anthropic_toDomain r)"
  by (simp add: anthropic_toDomain_def Let_def split: option.split prod.split)

interpretation anthropic: provider_client "anthropic_Complete p" for p
proof
  fix c mp req w e w1
  assume "anthropic_Complete p c mp req w = (Inl e, w1)"
  then show "as_fault e \<noteq> None"
    using post_json_faults [of anthropic_toDomain "a_client p" "''anthropic''" _ _ _ _ c w]
    by (metis faults_only_simps(1) fst_conv is_fault_def anthropic_Complete_def anthropic_toDomain_faults)
qed

lemma split_system_eq:
  "split_system ms system msgs =
     (system @ map Content (filter (\<lambda>m. Role m = RoleSystem) ms),
      msgs @ map anthropicRequestMessage (filter (\<lambda>m. Role m \<noteq> RoleSystem) ms))"
  by (induction ms arbitrary: system msgs) auto

lemma read_blocks_eq:
  "read_blocks bs body tcs =
     (body @ concat (map ac_Text (filter (\<lambda>b. ac_Type b = ''text'') bs)),
      tcs @ map (\<lambda>b. \<lparr>ID = ac_ID b, Name = ac_Name b, Arguments = ac_Input b\<rparr>)
        (filter (\<lambda>b. ac_Type b = ''tool_use'') bs))"
  by (induction bs arbitrary: body tcs) auto

end
