(* ===== verification/Ollama.thy ===== *)
theory Ollama
  imports ProviderHttp
begin

text \<open>
  \<open>internal/ollama\<close>: the \<open>/api/chat\<close> dialect. Tool results are matched to calls by the tool's
  name, tool calls have no ids, \<open>tool_choice\<close> does not exist, streaming is refused explicitly.
\<close>

section \<open>The request\<close>

record ollamaToolCall =
  lc_Name :: string
  lc_Arguments :: string

record ollamaMessage =
  lm_Role :: string
  lm_Content :: string
  lm_ToolName :: string
  lm_ToolCalls :: "ollamaToolCall list"

record ollamaTool =
  lt_Type :: string
  lt_Name :: string
  lt_Description :: string
  lt_Parameters :: string

record ollamaOptions =
  lo_Temperature :: "rat option"
  lo_TopP :: "rat option"
  lo_Stop :: "string list"
  lo_NumPredict :: int

record ollamaChatRequest =
  lr_Model :: string
  lr_Messages :: "ollamaMessage list"
  lr_Stream :: bool
  lr_Tools :: "ollamaTool list"
  lr_Options :: "ollamaOptions option"

text \<open>
  The loop over the messages, with the map from call ids to tool names filled so far. A missing
  key of the Go map is the empty name.
\<close>

definition name_calls :: "(string \<Rightarrow> string option) \<Rightarrow> ToolCall list \<Rightarrow> (string \<Rightarrow> string option)" where
  "name_calls names tcs = fold (\<lambda>tc m. m(ID tc \<mapsto> Name tc)) tcs names"

fun ollama_messages :: "(string \<Rightarrow> string option) \<Rightarrow> Message list \<Rightarrow> ollamaMessage list" where
  "ollama_messages toolNames [] = []"
| "ollama_messages toolNames (m # ms) =
     \<lparr>lm_Role = role_string (Role m), lm_Content = Content m,
      lm_ToolName = (if Role m = RoleTool
        then (case toolNames (ToolCallID m) of None \<Rightarrow> '''' | Some n \<Rightarrow> n) else ''''),
      lm_ToolCalls = map (\<lambda>tc. \<lparr>lc_Name = Name tc, lc_Arguments = Arguments tc\<rparr>) (ToolCalls m)\<rparr>
     # ollama_messages (name_calls toolNames (ToolCalls m)) ms"

definition ollamaRequest :: "string \<Rightarrow> ChatRequest \<Rightarrow> ollamaChatRequest" where
  "ollamaRequest model req =
     \<lparr>lr_Model = model, lr_Messages = ollama_messages Map.empty (Messages req), lr_Stream = False,
      lr_Tools =
        (if (case ToolChoice req of None \<Rightarrow> True | Some tc \<Rightarrow> Mode tc \<noteq> ToolChoiceNone)
         then map (\<lambda>t. \<lparr>lt_Type = ''function'', lt_Name = ToolName t, lt_Description = Description t,
                lt_Parameters = Parameters t\<rparr>) (Tools req)
         else []),
      lr_Options = Some \<lparr>lo_Temperature = Temperature req, lo_TopP = TopP req, lo_Stop = Stop req,
        lo_NumPredict = MaxTokens req\<rparr>\<rparr>"

section \<open>Its JSON\<close>

definition ollama_call_json :: "codec \<Rightarrow> ollamaToolCall \<Rightarrow> json" where
  "ollama_call_json C tc = JObj (always ''function'' (JObj (always ''name'' (JStr (lc_Name tc)) @
     always ''arguments'' (raw_value C (lc_Arguments tc)))))"

definition ollama_message_json :: "codec \<Rightarrow> ollamaMessage \<Rightarrow> json" where
  "ollama_message_json C m = JObj (always ''role'' (JStr (lm_Role m)) @
     always ''content'' (JStr (lm_Content m)) @ omit_string ''tool_name'' (lm_ToolName m) @
     omit_list ''tool_calls'' (ollama_call_json C) (lm_ToolCalls m))"

definition ollama_tool_json :: "codec \<Rightarrow> ollamaTool \<Rightarrow> json" where
  "ollama_tool_json C t = JObj (always ''type'' (JStr (lt_Type t)) @
     always ''function'' (JObj (always ''name'' (JStr (lt_Name t)) @
       omit_string ''description'' (lt_Description t) @ omit_raw C ''parameters'' (lt_Parameters t))))"

definition ollama_options_json :: "ollamaOptions \<Rightarrow> json" where
  "ollama_options_json os = JObj (omit_float ''temperature'' (lo_Temperature os) @
     omit_float ''top_p'' (lo_TopP os) @ omit_list ''stop'' JStr (lo_Stop os) @
     always ''num_predict'' (JInt (lo_NumPredict os)))"

definition ollama_request_json :: "codec \<Rightarrow> ollamaChatRequest \<Rightarrow> json" where
  "ollama_request_json C r = JObj (always ''model'' (JStr (lr_Model r)) @
     always ''messages'' (JArr (map (ollama_message_json C) (lr_Messages r))) @
     always ''stream'' (JBool (lr_Stream r)) @
     omit_list ''tools'' (ollama_tool_json C) (lr_Tools r) @
     omit_option ''options'' ollama_options_json (lr_Options r))"

text \<open>A call's arguments are sent even when empty, and an empty text is no JSON.\<close>

definition ollama_raws :: "ollamaChatRequest \<Rightarrow> string list" where
  "ollama_raws r = concat (map (\<lambda>m. map lc_Arguments (lm_ToolCalls m)) (lr_Messages r)) @
     filter (\<lambda>s. s \<noteq> '''') (map lt_Parameters (lr_Tools r))"

section \<open>The response\<close>

record ollamaChatResponse =
  ls_Role :: string
  ls_Content :: string
  ls_ToolCalls :: "ollamaToolCall list"
  ls_Done :: bool
  ls_DoneReason :: string
  ls_PromptEvalCount :: int
  ls_EvalCount :: int

definition dec_ollama_call :: "codec \<Rightarrow> ollamaToolCall dec" where
  "dec_ollama_call C j =
     (case (fld ''function'' (fld ''name'' dec_string) j, fld ''function'' (raw_fld C ''arguments'') j) of
        (Some n, Some a) \<Rightarrow> Some \<lparr>lc_Name = n, lc_Arguments = a\<rparr>
      | _ \<Rightarrow> None)"

definition dec_ollama_response :: "codec \<Rightarrow> ollamaChatResponse dec" where
  "dec_ollama_response C j =
     (case (fld ''message'' (fld ''role'' dec_string) j, fld ''message'' (fld ''content'' dec_string) j,
            fld ''message'' (fld ''tool_calls'' (dec_list (dec_ollama_call C))) j,
            fld ''done'' dec_bool j, fld ''done_reason'' dec_string j,
            fld ''prompt_eval_count'' dec_int j, fld ''eval_count'' dec_int j) of
        (Some r, Some c, Some t, Some d, Some dr, Some p, Some e) \<Rightarrow>
          Some \<lparr>ls_Role = r, ls_Content = c, ls_ToolCalls = t, ls_Done = d, ls_DoneReason = dr,
            ls_PromptEvalCount = p, ls_EvalCount = e\<rparr>
      | _ \<Rightarrow> None)"

text \<open>The ids the adapter mints: the position in the message, from one.\<close>

fun mint :: "nat \<Rightarrow> ollamaToolCall list \<Rightarrow> ToolCall list" where
  "mint i [] = []"
| "mint i (tc # tcs) =
     \<lparr>ID = ''call_'' @ itoa (int (i + 1)), Name = lc_Name tc, Arguments = lc_Arguments tc\<rparr> # mint (i + 1) tcs"

definition ollama_toDomain :: "ollamaChatResponse \<Rightarrow> go_error + Completion" where
  "ollama_toDomain r =
     (let usage = \<lparr>PromptTokens = ls_PromptEvalCount r, CompletionTokens = ls_EvalCount r,
            TotalTokens = i64 (ls_PromptEvalCount r + ls_EvalCount r)\<rparr>
      in if \<not> ls_Done r then
           Inl (BadResponseFault ''ollama''
             (ErrText (''response not done (done_reason '' @ quote (ls_DoneReason r) @ '')'')) (Some usage))
         else
           let tcs = mint 0 (ls_ToolCalls r)
           in Inr \<lparr>CMessage = \<lparr>Role = RoleAssistant, Content = ls_Content r, ToolCalls = tcs, ToolCallID = ''''\<rparr>,
                CFinishReason = (if tcs \<noteq> [] then FinishToolCalls
                  else if ls_DoneReason r = ''length'' then FinishLength else FinishStop),
                CUsage = usage\<rparr>)"

section \<open>\<open>Complete\<close>\<close>

record 'w Ollama =
  l_client :: "'w Http"
  l_key :: "'w Key"

definition NewOllama :: "'w Http \<Rightarrow> 'w Http option \<Rightarrow> 'w Key \<Rightarrow> 'w Ollama" where
  "NewOllama dflt cl k = \<lparr>l_client = (case cl of None \<Rightarrow> dflt | Some c \<Rightarrow> c), l_key = k\<rparr>"

definition ollama_Complete :: "'w Ollama \<Rightarrow> 'w ProviderClient" where
  "ollama_Complete p c mp req w =
     (let C = codec_of (l_client p); wire = ollamaRequest (MPModel mp) req; k = l_key p w
      in post_json (l_client p) ''ollama''
           (trim_suffix (Endpoint mp) ''/'' @ ''/api/chat'')
           (marshal C (ollama_raws wire) (ollama_request_json C wire))
           ((''Content-Type'', ''application/json'') #
            (if k \<noteq> '''' then [(''Authorization'', ''Bearer '' @ k)] else []))
           (dec_ollama_response C) ollama_toDomain c w)"

section \<open>Facts\<close>

lemma ollama_toDomain_faults [simp]: "faults_only (ollama_toDomain r)"
  by (simp add: ollama_toDomain_def Let_def)

interpretation ollama: provider_client "ollama_Complete p" for p
proof
  fix c mp req w e w1
  assume "ollama_Complete p c mp req w = (Inl e, w1)"
  then show "as_fault e \<noteq> None"
    using post_json_faults [of ollama_toDomain "l_client p" "''ollama''" _ _ _ _ c w]
    by (metis faults_only_simps(1) fst_conv is_fault_def ollama_Complete_def ollama_toDomain_faults)
qed

lemma map_mint: "map ID (mint i tcs) = map (\<lambda>k. ''call_'' @ itoa (int k + 1)) [i ..< i + length tcs]"
proof (induction tcs arbitrary: i)
  case (Cons tc tcs)
  have "[i ..< i + length (tc # tcs)] = i # [i + 1 ..< i + 1 + length tcs]"
    by (simp add: upt_rec)
  with Cons [of "i + 1"] show ?case by (simp add: add.commute)
qed simp

lemma distinct_mint: "distinct (map ID (mint i tcs))"
  by (auto simp: map_mint distinct_map inj_on_def dest!: itoa_inj)

text \<open>The name a message of the conversation gives a call id: the last call that carries it.\<close>

fun last_name :: "string \<Rightarrow> ToolCall list \<Rightarrow> string option" where
  "last_name i [] = None"
| "last_name i (tc # tcs) =
     (case last_name i tcs of Some n \<Rightarrow> Some n | None \<Rightarrow> if ID tc = i then Some (Name tc) else None)"

lemma name_calls_last:
  "name_calls names tcs i = (case last_name i tcs of Some n \<Rightarrow> Some n | None \<Rightarrow> names i)"
  unfolding name_calls_def by (induction tcs arbitrary: names) (auto split: option.splits)

lemma last_name_append:
  "last_name i (xs @ ys) = (case last_name i ys of Some n \<Rightarrow> Some n | None \<Rightarrow> last_name i xs)"
  by (induction xs) (auto split: option.splits)

lemma ollama_messages_nth:
  "j < length ms \<Longrightarrow>
   lm_ToolName (ollama_messages names ms ! j) =
     (if Role (ms ! j) = RoleTool
      then (case last_name (ToolCallID (ms ! j)) (concat (map ToolCalls (take j ms))) of
              Some n \<Rightarrow> n
            | None \<Rightarrow> (case names (ToolCallID (ms ! j)) of None \<Rightarrow> '''' | Some n \<Rightarrow> n))
      else '''')"
proof (induction ms arbitrary: names j)
  case (Cons m ms)
  show ?case
  proof (cases j)
    case (Suc i)
    with Cons show ?thesis
      by (simp add: name_calls_last last_name_append split: option.splits)
  qed simp
qed simp

lemma length_ollama_messages [simp]: "length (ollama_messages names ms) = length ms"
  by (induction ms arbitrary: names) auto

end
