(* ===== verification/Router.thy ===== *)
theory Router
  imports OpenAI Anthropic Ollama ChatProps
begin

text \<open>
  \<open>internal/providers/router.go\<close>: the multiplexer the core drives, over the three adapters,
  and the properties that hold of all of them.
\<close>

section \<open>The code\<close>

record 'w Router =
  adapters :: "string \<Rightarrow> 'w ProviderClient option"
  onRejected :: "(string \<Rightarrow> 'w \<Rightarrow> 'w) option"

text \<open>The table as the Go map is iterated; an adapter may be nil.\<close>

definition NewRouter ::
  "(string \<times> 'w ProviderClient option) list \<Rightarrow> (string \<Rightarrow> 'w \<Rightarrow> 'w) option \<Rightarrow> go_error + 'w Router" where
  "NewRouter table hook =
     (if table = [] then Inl (ErrText ''providers: at least one adapter is required'')
      else case find (\<lambda>e. case snd e of None \<Rightarrow> True | Some _ \<Rightarrow> False) table of
        Some (name, _) \<Rightarrow> Inl (ErrText (''providers: adapter for '' @ quote name @ '' is nil''))
      | None \<Rightarrow> Inr \<lparr>adapters = (\<lambda>n. case map_of table n of None \<Rightarrow> None | Some a \<Rightarrow> a), onRejected = hook\<rparr>)"

definition rejected :: "go_error \<Rightarrow> bool" where
  "rejected err = (case as_fault err of Some (k, _, _) \<Rightarrow> k = FaultRejected | None \<Rightarrow> False)"

definition router_Complete :: "'w Router \<Rightarrow> 'w ProviderClient" where
  "router_Complete R c mp req w =
     (case adapters R (Provider mp) of
        None \<Rightarrow> (Inl (ErrFault FaultUnreachable None
            (Some (ErrText (''no adapter wired for provider '' @ quote (Provider mp))))), w)
      | Some adapter \<Rightarrow>
          (case adapter c mp req w of
             (Inl err, w) \<Rightarrow>
               (Inl err, case onRejected R of
                  Some hook \<Rightarrow> if rejected err then hook (Provider mp) w else w
                | None \<Rightarrow> w)
           | (Inr completion, w) \<Rightarrow> (Inr completion, w)))"

section \<open>The router as a client\<close>


text \<open>The table \<open>main\<close> wires: each kind of adapter under a provider's name.\<close>

datatype 'w adapter = AOpenAI "'w OpenAI" | AAnthropic "'w Anthropic" | AOllama "'w Ollama"





text \<open>The router with its hook's calls written down.\<close>

definition hooked :: "'w Router \<Rightarrow> ('w \<times> string list) Router" where
  "hooked R = \<lparr>adapters = (\<lambda>n. map_option (\<lambda>a c mp req (w, t). apsnd (\<lambda>w. (w, t)) (a c mp req w)) (adapters R n)),
     onRejected = Some (\<lambda>p (w, t). (w, t @ [p]))\<rparr>"

section \<open>Properties\<close>















text \<open>A key refresh is asked for exactly when a provider refuses the gateway's credential: the
  hook runs once, with the row's provider, after a fault of that kind, and never otherwise.\<close>

theorem rejection_triggers_once:
  "snd (snd (router_Complete (hooked R) c mp req (w, t))) = t @
     (case fst (router_Complete R c mp req w) of
        Inl e \<Rightarrow> (case as_fault e of Some (FaultRejected, _, _) \<Rightarrow> [Provider mp] | _ \<Rightarrow> [])
      | Inr _ \<Rightarrow> [])"
proof (cases "adapters R (Provider mp)")
  case (Some a)
  obtain r w1 where r: "a c mp req w = (r, w1)" by fastforce
  show ?thesis
  proof (cases r)
    case (Inl e)
    with Some r show ?thesis
      by (auto simp: router_Complete_def hooked_def rejected_def split: option.splits FaultKind.splits)
  qed (use Some r in \<open>simp add: router_Complete_def hooked_def\<close>)
qed (simp add: router_Complete_def hooked_def)

definition carries :: "go_error + Completion \<Rightarrow> Usage \<Rightarrow> bool" where
  "carries res u = (case res of
     Inr cm \<Rightarrow> CUsage cm = u
   | Inl e \<Rightarrow> (\<exists>cause. as_fault e = Some (FaultBadResponse, Some u, cause)))"

text \<open>No adapter loses what the provider said it spent: a decoded answer's token counts are in
  the completion, or in the fault when the answer is not usable.\<close>

theorem answers_keep_usage:
  "carries (openai_toDomain r1) (ors_Usage r1) \<and>
   carries (anthropic_toDomain r2) \<lparr>PromptTokens = ars_InputTokens r2, CompletionTokens = ars_OutputTokens r2,
     TotalTokens = i64 (ars_InputTokens r2 + ars_OutputTokens r2)\<rparr> \<and>
   carries (ollama_toDomain r3) \<lparr>PromptTokens = ls_PromptEvalCount r3, CompletionTokens = ls_EvalCount r3,
     TotalTokens = i64 (ls_PromptEvalCount r3 + ls_EvalCount r3)\<rparr>"
  by (simp add: carries_def openai_toDomain_def anthropic_toDomain_def ollama_toDomain_def Let_def
      split: list.split option.split prod.split)

text \<open>The messages dialect gets the conversation whole and in order: the system turns, joined,
  as the top-level field, and every other turn as one message, a tool's result as a user
  message that names the call it answers.\<close>

theorem anthropic_conversation:
  "ar_System (anthropicRequest model req) =
     join [CHR 0x0A, CHR 0x0A] (map Content (filter (\<lambda>m. Role m = RoleSystem) (Messages req))) \<and>
   list_all2 (\<lambda>m a. if Role m = RoleTool
       then am_Role a = ''user'' \<and> map ac_ToolUseID (am_Content a) = [ToolCallID m] \<and>
            map ac_Content (am_Content a) = [Content m]
       else am_Role a = role_string (Role m) \<and> concat (map ac_Text (am_Content a)) = Content m \<and>
            map ac_ID (filter (\<lambda>b. ac_Type b = ''tool_use'') (am_Content a)) = map ID (ToolCalls m))
     (filter (\<lambda>m. Role m \<noteq> RoleSystem) (Messages req)) (ar_Messages (anthropicRequest model req))"
proof -
  have texts: "concat (map ac_Text (map (\<lambda>tc. (block ''tool_use'')\<lparr>ac_ID := ID tc, ac_Name := Name tc,
      ac_Input := Arguments tc\<rparr>) tcs)) = []" for tcs
    by (induction tcs) (simp_all add: block_def)
  show ?thesis
    by (simp add: anthropicRequest_def split_system_eq list_all2_map2 anthropicRequestMessage_def
        list.rel_refl texts o_def block_def list_all2_same)
qed

text \<open>In the Ollama dialect a tool's result names its tool: the name of the latest call before it
  that carries the id, and no name when no earlier call does.\<close>

theorem ollama_results_named:
  assumes "j < length (Messages req)" and "Role (Messages req ! j) = RoleTool"
  shows "lm_ToolName (lr_Messages (ollamaRequest model req) ! j) =
    (case last_name (ToolCallID (Messages req ! j)) (concat (map ToolCalls (take j (Messages req)))) of
       None \<Rightarrow> '''' | Some n \<Rightarrow> n)"
  using ollama_messages_nth [OF assms(1), of Map.empty] assms(2)
  by (simp add: ollamaRequest_def split: option.splits)

theorem ollama_results_named_witness:
  "\<exists>req. Role (Messages req ! 1) = RoleTool \<and>
     lm_ToolName (lr_Messages (ollamaRequest ''llama'' req) ! 1) = ''lookup''"
proof -
  define call where "call = \<lparr>Role = RoleAssistant, Content = '''',
    ToolCalls = [\<lparr>ID = ''c1'', Name = ''lookup'', Arguments = ''{}''\<rparr>], ToolCallID = ''''\<rparr>"
  define answer where "answer = \<lparr>Role = RoleTool, Content = ''42'', ToolCalls = [], ToolCallID = ''c1''\<rparr>"
  define req where "req = \<lparr>Model = ''llama'', Messages = [call, answer], MaxTokens = 1, Temperature = None,
    TopP = None, Stop = [], Tools = [], ToolChoice = None\<rparr>"
  have "1 < length (Messages req)" "Role (Messages req ! 1) = RoleTool"
    by (simp_all add: req_def answer_def)
  from ollama_results_named [OF this, of "''llama''"] this(2) show ?thesis
    by (intro exI [of _ req]) (simp add: req_def call_def answer_def)
qed

text \<open>A request that cannot be encoded is accounted as a possible double spend although it was
  never sent: tool-call arguments that are no JSON text, which the edge lets through, make the
  Ollama adapter fail before it opens a connection, and the fault it returns is one the core
  charges with the request's whole token bound.\<close>

theorem unsendable_request_charged:
  assumes "m \<in> set (Messages req)" and "tc \<in> set (ToolCalls m)"
    and "parse (codec_of (l_client p)) (Arguments tc) = None"
  shows "\<exists>e. ollama_Complete p c mp req w = (Inl e, w) \<and> billsDespiteFailure e \<and>
    unobservedTokens e req = MaxTokens req"
proof -
  have "Arguments tc \<in> set (ollama_raws (ollamaRequest model req))" for model
  proof -
    have "\<exists>lm \<in> set (ollama_messages names ms). Arguments tc \<in> lc_Arguments ` set (lm_ToolCalls lm)"
      if "m \<in> set ms" for names ms
      using that assms(2)
    proof (induction ms arbitrary: names)
      case (Cons x xs)
      then show ?case by (cases "x = m") (auto simp: image_image)
    qed simp
    from this [OF assms(1)] show ?thesis by (auto simp: ollama_raws_def ollamaRequest_def)
  qed
  then have "\<not> list_all (raw_ok (codec_of (l_client p))) (ollama_raws (ollamaRequest model req))" for model
    using assms(3) by (auto simp: list_all_iff raw_ok_def)
  then show ?thesis
    by (simp add: ollama_Complete_def post_json_def marshal_def Let_def billsDespiteFailure_def
        unobservedTokens_def)
qed

theorem unsendable_request_charged_witness:
  "\<exists>(p :: int Ollama) req e. ollama_Complete p background (row ''llama'' ''ollama'') req 0 = (Inl e, 0) \<and>
     billsDespiteFailure e \<and> unobservedTokens e req = 500"
proof -
  define C where "C = \<lparr>parse = (\<lambda>s. if s = ''null'' then Some JNull else None), json_text = (\<lambda>_. ''null'')\<rparr>"
  define p :: "int Ollama" where "p = \<lparr>l_client = \<lparr>bad_url = (\<lambda>_. None),
    do_request = (\<lambda>_ _ w. (Inl (ErrText ''sent''), w + 1)), codec_of = C\<rparr>, l_key = NoKey\<rparr>"
  define tc where "tc = \<lparr>ID = ''c1'', Name = ''lookup'', Arguments = ''{city''\<rparr>"
  define m where "m = \<lparr>Role = RoleAssistant, Content = '''', ToolCalls = [tc], ToolCallID = ''''\<rparr>"
  define req where "req = \<lparr>Model = ''llama'', Messages = [m], MaxTokens = 500, Temperature = None,
    TopP = None, Stop = [], Tools = [], ToolChoice = None\<rparr>"
  have "m \<in> set (Messages req)" "tc \<in> set (ToolCalls m)" "parse (codec_of (l_client p)) (Arguments tc) = None"
    by (simp_all add: req_def m_def tc_def p_def C_def)
  from unsendable_request_charged [OF this, of background "row ''llama'' ''ollama''" 0] show ?thesis
    by (intro exI [of _ p] exI [of _ req]) (simp add: req_def)
qed

end
