(* ===== verification/KeysProps.thy ===== *)
theory KeysProps
  imports ProviderKeys
begin

text \<open>
  What the credential cache promises under everything that runs against it: the periodic loops,
  the refreshes a rejection triggers, and the requests in between, interleaved in any order; and
  what one read of a credential costs a Vault server.
\<close>

section \<open>The cache operations\<close>

lemma map_of_map_entry:
  "map_of (AList.map_entry p f C) q = (if q = p then map_option f (map_of C q) else map_of C q)"
  by (induction C) auto

lemma map_entry_Nil [simp]: "AList.map_entry p f C = [] \<longleftrightarrow> C = []"
  by (cases C) auto

lemma map_fst_map_entry [simp]: "map fst (AList.map_entry p f C) = map fst C"
  by (induction C) auto

lemma distinct_map_entry [simp]: "distinct (map fst (AList.map_entry p f C)) = distinct (map fst C)"
  by simp

definition has_loaded :: "entry option \<Rightarrow> bool" where
  "has_loaded e = (case e of None \<Rightarrow> False | Some e \<Rightarrow> loadedAt e \<noteq> None)"

lemma cache_Refresh_cases:
  obtains e w1 where "cache_Refresh fetch now c p (C, w) = (Some e, C, w1)"
  | e k w1 where "cache_Refresh fetch now c p (C, w) = (None, install p k (now w1) C, w1)"
      "map_of C p = Some e" "fetch (with_timeout c (now w) fetchTimeout) (Path (source e)) w = (Inr k, w1)" "k \<noteq> ''''"
  by (cases "cache_Refresh fetch now c p (C, w)")
    (auto simp: cache_Refresh_def split: option.splits prod.splits sum.splits if_splits)

interpretation provider_keys:
  fail_static "cache_Refresh fetch now c p" "\<lambda>Cw. map_of (fst Cw) p" has_loaded for fetch now c p
proof unfold_locales
  fix Cw :: "Cache \<times> 'a" and e Cw1
  obtain C w where [simp]: "Cw = (C, w)" by fastforce
  { assume "cache_Refresh fetch now c p Cw = (Some e, Cw1)"
    then show "map_of (fst Cw1) p = map_of (fst Cw) p"
      by (cases rule: cache_Refresh_cases [of fetch now c p C w]) auto }
  { assume "cache_Refresh fetch now c p Cw = (None, Cw1)"
    then show "has_loaded (map_of (fst Cw1) p)"
      by (cases rule: cache_Refresh_cases [of fetch now c p C w])
        (auto simp: install_def map_of_map_entry has_loaded_def) }
qed

section \<open>Everything that runs against the cache\<close>

text \<open>
  The cache, the clock, the goroutines a trigger started that have not ended, and when each was
  started, latest first. \<open>Rejected p d\<close>: a provider refused the credential; the trigger reads the
  clock twice, \<open>d\<close> apart. \<open>Refreshed p r\<close>: a refresh of \<open>p\<close>, whoever runs it, comes back from its
  source with \<open>r\<close>, an error or a text, and does what \<open>Refresh\<close> does with it; the source of an entry
  never changes, so this is all of a refresh that the others can see. \<open>Ended p\<close>: the triggered refresh
  of \<open>p\<close> returns. \<open>Elapsed d\<close>: time passes.
\<close>

record keys_state =
  cached :: Cache
  time :: int
  in_flight :: "string list"
  starts :: "(string \<times> int) list"

datatype keys_event = Rejected string nat | Refreshed string "go_error + string" | Ended string | Elapsed nat

inductive keys_step :: "keys_state \<Rightarrow> keys_event \<Rightarrow> keys_state \<Rightarrow> bool" where
  rejected_started:
    "TriggerRefresh p (time s) (time s + int d) (cached s) = (True, C) \<Longrightarrow>
     keys_step s (Rejected p d)
       (s\<lparr>cached := C, time := time s + int d, in_flight := p # in_flight s,
          starts := (p, time s + int d) # starts s\<rparr>)"
| rejected_ignored:
    "TriggerRefresh p (time s) (time s + int d) (cached s) = (False, C) \<Longrightarrow>
     keys_step s (Rejected p d) (s\<lparr>cached := C, time := time s + int d\<rparr>)"
| refreshed:
    "cache_Refresh (\<lambda>_ _ w. (r, w)) (\<lambda>_. time s) background p (cached s, ()) = (err, C, ()) \<Longrightarrow>
     keys_step s (Refreshed p r) (s\<lparr>cached := C\<rparr>)"
| ended:
    "p \<in> set (in_flight s) \<Longrightarrow>
     keys_step s (Ended p) (s\<lparr>cached := finish p (cached s), in_flight := remove1 p (in_flight s)\<rparr>)"
| elapsed: "keys_step s (Elapsed d) (s\<lparr>time := time s + int d\<rparr>)"

inductive_cases keys_stepE: "keys_step s e s'"
inductive_simps keys_step_refreshed: "keys_step s (Refreshed p r) s'"
inductive_simps keys_step_elapsed: "keys_step s (Elapsed d) s'"

inductive keys_reach :: "keys_state \<Rightarrow> keys_state \<Rightarrow> bool" for s0 where
  here: "keys_reach s0 s0"
| further: "keys_reach s0 s \<Longrightarrow> keys_step s e s' \<Longrightarrow> keys_reach s0 s'"

definition idle :: "Cache \<Rightarrow> int \<Rightarrow> keys_state" where
  "idle C t = \<lparr>cached = C, time = t, in_flight = [], starts = []\<rparr>"

text \<open>When the triggered refreshes of a provider began, latest first.\<close>

definition starts_of :: "string \<Rightarrow> keys_state \<Rightarrow> int list" where
  "starts_of p s = map snd (filter (\<lambda>(q, t). q = p) (starts s))"

definition spaced :: "int list \<Rightarrow> bool" where
  "spaced = sorted_wrt (\<lambda>later earlier. earlier + triggerCooldown \<le> later)"

definition paced :: "string \<Rightarrow> keys_state \<Rightarrow> bool" where
  "paced p s \<longleftrightarrow>
     count_list (in_flight s) p =
       (case map_of (cached s) p of None \<Rightarrow> 0 | Some e \<Rightarrow> if refreshing e then 1 else 0) \<and>
     (case map_of (cached s) p of None \<Rightarrow> starts_of p s = []
      | Some e \<Rightarrow> lastTrigger e = (case starts_of p s of [] \<Rightarrow> None | t # _ \<Rightarrow> Some t)) \<and>
     list_all (\<lambda>t. t \<le> time s) (starts_of p s) \<and> spaced (starts_of p s)"

lemma starts_of_simps [simp]:
  "starts_of q (s\<lparr>cached := C\<rparr>) = starts_of q s"
  "starts_of q (s\<lparr>time := t\<rparr>) = starts_of q s"
  "starts_of q (s\<lparr>cached := C, time := t\<rparr>) = starts_of q s"
  "starts_of q (s\<lparr>cached := C, in_flight := f\<rparr>) = starts_of q s"
  "starts_of q (s\<lparr>cached := C, time := t, in_flight := f, starts := (p, u) # starts s\<rparr>) =
     (if q = p then u # starts_of q s else starts_of q s)"
  by (auto simp: starts_of_def)

lemma all_le_mono: "list_all (\<lambda>t. t \<le> (a :: int)) ts \<Longrightarrow> a \<le> b \<Longrightarrow> list_all (\<lambda>t. t \<le> b) ts"
  by (auto simp: list_all_iff)

lemma spaced_Cons: "spaced (t # ts) \<longleftrightarrow> list_all (\<lambda>u. u + triggerCooldown \<le> t) ts \<and> spaced ts"
  by (auto simp: spaced_def list_all_iff)

lemma spaced_hd: "spaced (t # ts) \<Longrightarrow> t + triggerCooldown \<le> u \<Longrightarrow> spaced (u # t # ts)"
proof -
  assume "spaced (t # ts)" and u: "t + triggerCooldown \<le> u"
  moreover have "0 \<le> triggerCooldown" by (simp add: triggerCooldown_def Second_def)
  ultimately show ?thesis by (fastforce simp: spaced_Cons list_all_iff)
qed

lemma trigger_started:
  "TriggerRefresh p t t' C = (True, C') \<longleftrightarrow>
     (\<exists>e. map_of C p = Some e \<and> \<not> refreshing e \<and>
        (case lastTrigger e of None \<Rightarrow> True | Some t0 \<Rightarrow> t0 + triggerCooldown \<le> t) \<and>
        C' = AList.map_entry p (\<lambda>e. e\<lparr>refreshing := True, lastTrigger := Some t'\<rparr>) C)"
  by (auto simp: TriggerRefresh_def split: option.splits if_splits)

lemma trigger_ignored: "TriggerRefresh p t t' C = (False, C') \<Longrightarrow> C' = C"
  by (auto simp: TriggerRefresh_def split: option.splits if_splits)

lemma paced_start:
  assumes "paced q s" "map_of (cached s) p = Some e" "\<not> refreshing e"
    "case lastTrigger e of None \<Rightarrow> True | Some t0 \<Rightarrow> t0 + triggerCooldown \<le> time s"
  shows "paced q (s\<lparr>cached := AList.map_entry p (\<lambda>e. e\<lparr>refreshing := True, lastTrigger := Some (time s + int d)\<rparr>) (cached s),
    time := time s + int d, in_flight := p # in_flight s, starts := (p, time s + int d) # starts s\<rparr>)"
proof (cases "q = p")
  case False
  with assms(1) show ?thesis
    by (auto simp: paced_def map_of_map_entry all_le_mono split: option.splits)
next
  case True
  let ?t = "time s + int d"
  have le: "list_all (\<lambda>t. t \<le> ?t) (?t # starts_of p s)"
    using True assms(1) all_le_mono [of "time s" "starts_of p s" ?t] by (simp add: paced_def)
  have "spaced (?t # starts_of p s)"
  proof (cases "starts_of p s")
    case (Cons t ts)
    with True assms show ?thesis by (auto simp: paced_def intro!: spaced_hd)
  qed (simp add: spaced_def)
  with True assms le show ?thesis
    by (auto simp: paced_def map_of_map_entry)
qed

lemma count_remove1: "x \<in> set xs \<Longrightarrow> count_list (remove1 x xs) y = count_list xs y - (if x = y then 1 else 0)"
  by (induction xs) (auto simp: count_list_0_iff neq_Nil_conv)

lemma paced_end:
  assumes "paced q s" "p \<in> set (in_flight s)"
  shows "paced q (s\<lparr>cached := finish p (cached s), in_flight := remove1 p (in_flight s)\<rparr>)"
proof -
  have "p = q \<Longrightarrow> 0 < count_list (in_flight s) q" using assms(2) count_list_0_iff [of "in_flight s" p] by auto
  with assms show ?thesis
    by (auto simp: paced_def finish_def map_of_map_entry count_remove1 split: option.splits if_splits)
qed

lemma paced_step: "keys_step s e s' \<Longrightarrow> paced q s \<Longrightarrow> paced q s'"
proof (induction rule: keys_step.induct)
  case (rejected_started p s d C)
  then show ?case using paced_start by (fastforce simp: trigger_started)
next
  case (rejected_ignored p s d C)
  then show ?case by (auto dest!: trigger_ignored simp: paced_def all_le_mono split: option.splits)
next
  case (refreshed r s p err C)
  then show ?case
    by (cases rule: cache_Refresh_cases [of "\<lambda>_ _ w. (r, w)" "\<lambda>_. time s" background p "cached s" "()"])
      (auto simp: paced_def install_def map_of_map_entry split: option.splits)
next
  case (ended p s)
  then show ?case by (intro paced_end)
next
  case (elapsed s d)
  then show ?case by (auto simp: paced_def all_le_mono split: option.splits)
qed

lemma paced_reach: "keys_reach s0 s \<Longrightarrow> paced q s0 \<Longrightarrow> paced q s"
  by (induction rule: keys_reach.induct) (auto dest: paced_step)

text \<open>A cache \<open>New\<close> built has no triggers and holds no credential.\<close>

lemma fill_entries_fresh:
  assumes "fill_entries srcs C = Inr C'" "\<forall>p e. map_of C p = Some e \<longrightarrow> (\<exists>src. e = fresh_entry src)"
  shows "\<forall>p e. map_of C' p = Some e \<longrightarrow> (\<exists>src. e = fresh_entry src)"
  using assms
proof (induction srcs C rule: fill_entries.induct)
  case (2 p' src srcs C)
  show ?case
    by (rule 2(1)) (use 2(2,3) in \<open>auto simp: update_conv' split: if_splits\<close>)
qed simp

lemma NewCache_fresh: "NewCache fetch srcs = Inr C \<Longrightarrow> map_of C p = Some e \<Longrightarrow> \<exists>src. e = fresh_entry src"
  using fill_entries_fresh [of srcs "[]" C] by (auto simp: NewCache_def split: if_splits)

lemma paced_new: "NewCache fetch srcs = Inr C \<Longrightarrow> paced q (idle C t)"
  using NewCache_fresh [of fetch srcs C q]
  by (auto simp: paced_def idle_def starts_of_def spaced_def fresh_entry_def split: option.splits)

section \<open>How often a rejected credential is refreshed\<close>

lemma spaced_filter: "spaced ts \<Longrightarrow> spaced (filter P ts)"
  by (simp add: spaced_def sorted_wrt_filter)

lemma spaced_length: "spaced (t # ts) \<Longrightarrow> list_all (\<lambda>u. a \<le> u) (t # ts) \<Longrightarrow> int (length ts) * triggerCooldown \<le> t - a"
proof (induction ts arbitrary: t)
  case (Cons u us)
  then have "int (length us) * triggerCooldown \<le> u - a" "u + triggerCooldown \<le> t"
    by (auto simp: spaced_Cons)
  then show ?case by (simp add: algebra_simps)
qed simp

lemma spaced_within:
  assumes "spaced ts"
  shows "int (length (filter (\<lambda>t. a \<le> t \<and> t \<le> a + int L) ts)) * triggerCooldown \<le> int L + triggerCooldown"
proof (cases "filter (\<lambda>t. a \<le> t \<and> t \<le> a + int L) ts")
  case Nil
  then show ?thesis by (simp add: triggerCooldown_def Second_def)
next
  case (Cons t us)
  have "list_all (\<lambda>u. a \<le> u \<and> u \<le> a + int L) (t # us)"
    using Cons [symmetric] by (auto simp: list_all_iff)
  moreover from spaced_filter [OF assms] Cons have "spaced (t # us)" by metis
  ultimately have "int (length us) * triggerCooldown \<le> int L"
    using spaced_length [of t us a] by (force simp: list_all_iff)
  with Cons show ?thesis by (simp add: algebra_simps)
qed

text \<open>C13: A rejected credential cannot turn into load on the secret store: whatever rejections, loads and
  delays come in whatever order, a provider has at most one triggered refresh running, two of
  them begin at least thirty seconds apart, and in any stretch of time there are no more of them
  than the cooldown allows.\<close>

theorem triggers_paced:
  assumes "NewCache fetch srcs = Inr C" "keys_reach (idle C t) s"
  shows "count_list (in_flight s) p \<le> 1 \<and> spaced (starts_of p s) \<and>
    (\<forall>a L. int (length (filter (\<lambda>t. a \<le> t \<and> t \<le> a + int L) (starts_of p s))) * triggerCooldown
       \<le> int L + triggerCooldown)"
proof -
  from assms have "paced p s" by (blast intro: paced_reach paced_new)
  then show ?thesis using spaced_within by (auto simp: paced_def split: option.splits if_splits)
qed

definition demo_sources :: "(string \<times> Source) list" where
  "demo_sources = [(''openai'', \<lparr>Path = ''/keys/openai'', SourceInterval = Minute\<rparr>)]"

definition demo_cache :: Cache where
  "demo_cache = [(''openai'', fresh_entry (snd (hd demo_sources)))]"

definition demo_keys :: keys_state where
  "demo_keys = \<lparr>cached = install ''openai'' ''sk-1'' 8 (snd (TriggerRefresh ''openai'' 5 7 demo_cache)), time = 8,
     in_flight = [''openai''], starts = [(''openai'', 7)]\<rparr>"

lemma demo_cache_new: "NewCache (Some (\<lambda>c path w. (Inr ''k'', w))) demo_sources = Inr demo_cache"
  by (simp add: NewCache_def demo_sources_def demo_cache_def)

lemma demo_keys_reached: "keys_reach (idle demo_cache 5) demo_keys"
proof -
  let ?a = "\<lparr>cached = snd (TriggerRefresh ''openai'' 5 7 demo_cache), time = 7, in_flight = [''openai''],
    starts = [(''openai'', 7)]\<rparr>"
  have "fst (TriggerRefresh ''openai'' 5 (5 + int 2) demo_cache)" by code_simp
  then have "keys_step (idle demo_cache 5) (Rejected ''openai'' 2) ?a"
    using rejected_started [of "''openai''" "idle demo_cache 5" 2 "snd (TriggerRefresh ''openai'' 5 7 demo_cache)"]
    by (auto simp: idle_def prod_eq_iff)
  moreover have held: "map_of (snd (TriggerRefresh ''openai'' 5 7 demo_cache)) ''openai'' \<noteq> None" by code_simp
  moreover have "keys_step ?a (Elapsed 1) (?a\<lparr>time := 8\<rparr>)" by (simp add: keys_step_elapsed)
  moreover have "keys_step (?a\<lparr>time := 8\<rparr>) (Refreshed ''openai'' (Inr ''sk-1'')) demo_keys"
    using held by (auto simp: keys_step_refreshed demo_keys_def cache_Refresh_def)
  ultimately show ?thesis by (blast intro: here further)
qed

theorem triggers_paced_witness:
  "count_list (in_flight demo_keys) ''openai'' \<le> 1 \<and> spaced (starts_of ''openai'' demo_keys) \<and>
   (\<forall>a L. int (length (filter (\<lambda>t. a \<le> t \<and> t \<le> a + int L) (starts_of ''openai'' demo_keys))) * triggerCooldown
      \<le> int L + triggerCooldown)"
  by (rule triggers_paced [OF demo_cache_new demo_keys_reached])

section \<open>Credentials fail static\<close>

lemma KeyFor_install:
  "KeyFor (install p k t C) q = (if q = p \<and> map_of C p \<noteq> None then k else KeyFor C q)"
  by (auto simp: KeyFor_def install_def map_of_map_entry split: option.splits)

lemma KeyFor_guards [simp]:
  "KeyFor (finish p C) q = KeyFor C q"
  "TriggerRefresh p t t' C = (b, C') \<Longrightarrow> KeyFor C' q = KeyFor C q"
  by (auto simp: KeyFor_def finish_def TriggerRefresh_def map_of_map_entry split: option.splits if_splits)

lemma loaded_map_entry:
  "(\<And>e. loadedAt e \<noteq> None \<Longrightarrow> loadedAt (f e) \<noteq> None) \<Longrightarrow> cache_Ready C = None \<Longrightarrow>
     cache_Ready (AList.map_entry p f C) = None"
  by (induction C) (auto simp: cache_Ready_def split: if_splits)

lemma Ready_ops:
  "cache_Ready C = None \<Longrightarrow> cache_Ready (install p k t C) = None"
  "cache_Ready C = None \<Longrightarrow> cache_Ready (finish p C) = None"
  "cache_Ready C = None \<Longrightarrow> TriggerRefresh p t t' C = (True, C') \<Longrightarrow> cache_Ready C' = None"
  by (auto simp: install_def finish_def trigger_started loaded_map_entry)

lemma refresh_static:
  assumes "cache_Refresh fetch now c q (C, w) = (err, C1, w1)"
  shows "cache_Ready C = None \<Longrightarrow> cache_Ready C1 = None" "KeyFor C p \<noteq> '''' \<Longrightarrow> KeyFor C1 p \<noteq> ''''"
  using assms
  by (cases rule: cache_Refresh_cases [of fetch now c q C w]; auto simp: KeyFor_install Ready_ops)+

lemma keys_step_static:
  "keys_step s e s' \<Longrightarrow> cache_Ready (cached s) = None \<Longrightarrow> cache_Ready (cached s') = None"
  "keys_step s e s' \<Longrightarrow> KeyFor (cached s) p \<noteq> '''' \<Longrightarrow> KeyFor (cached s') p \<noteq> ''''"
  by (auto elim!: keys_stepE simp: Ready_ops dest: trigger_ignored refresh_static)

text \<open>C30: A credential is never lost: from any state of the cache, after any interleaving of rejections,
  refreshes and delays, whatever the sources answer (an error, an empty text, a new credential), a
  provider that had a credential still has one, and a cache that was ready is ready.\<close>

theorem credentials_never_evicted:
  assumes "keys_reach s0 s" "KeyFor (cached s0) p \<noteq> ''''" "cache_Ready (cached s0) = None"
  shows "KeyFor (cached s) p \<noteq> '''' \<and> cache_Ready (cached s) = None"
  using assms by (induction rule: keys_reach.induct) (auto dest: keys_step_static)

theorem credentials_never_evicted_witness:
  "KeyFor (cached (demo_keys\<lparr>time := 9\<rparr>)) ''openai'' \<noteq> '''' \<and> cache_Ready (cached (demo_keys\<lparr>time := 9\<rparr>)) = None"
proof (rule credentials_never_evicted [of demo_keys])
  have held: "map_of (cached demo_keys) ''openai'' \<noteq> None" by code_simp
  then have "keys_step demo_keys (Refreshed ''openai'' (Inr '''')) demo_keys"
    "keys_step demo_keys (Refreshed ''openai'' (Inl (ErrText ''permission denied''))) demo_keys"
    by (auto simp: keys_step_refreshed cache_Refresh_def)
  moreover have "keys_step demo_keys (Elapsed 1) (demo_keys\<lparr>time := 9\<rparr>)"
    by (simp add: keys_step_elapsed demo_keys_def)
  ultimately show "keys_reach demo_keys (demo_keys\<lparr>time := 9\<rparr>)" by (blast intro: here further)
  show "KeyFor (cached demo_keys) ''openai'' \<noteq> ''''" by code_simp
  show "cache_Ready (cached demo_keys) = None" by code_simp
qed

text \<open>A fetcher that notes which paths it reads.\<close>

definition noting :: "'w Fetcher \<Rightarrow> ('w \<times> string list) Fetcher" where
  "noting fetch c path wl =
     (case fetch c path (fst wl) of (res, w) \<Rightarrow> (res, w, snd wl @ [path]))"

definition paths :: "Cache \<Rightarrow> string \<Rightarrow> string" where
  "paths C p = (case map_of C p of None \<Rightarrow> '''' | Some e \<Rightarrow> Path (source e))"

lemma paths_install [simp]: "paths (install p k t C) = paths C"
  by (auto simp: paths_def install_def map_of_map_entry split: option.splits)

lemma keys_install [simp]: "map fst (install p k t C) = map fst C"
  by (simp add: install_def)

lemma noted_refresh:
  assumes "p \<in> fst ` set C"
  shows "\<exists>w1. snd (cache_Refresh (noting fetch) now c p (C, w, l)) =
    (fst (snd (cache_Refresh (noting fetch) now c p (C, w, l))), w1, l @ [paths C p])"
  using assms weak_map_of_SomeI [of p _ C]
  by (fastforce simp: cache_Refresh_def noting_def paths_def split: prod.splits sum.splits option.splits)

lemma refresh_kept:
  "paths (fst (snd (cache_Refresh fetch now c p (C, w)))) = paths C"
  "map fst (fst (snd (cache_Refresh fetch now c p (C, w)))) = map fst C"
  by (cases rule: cache_Refresh_cases [of fetch now c p C w]; simp)+

lemma noted_each:
  "set ps \<subseteq> fst ` set C \<Longrightarrow>
     snd (snd (snd (refresh_each (cache_Refresh (noting fetch) now) c ps (C, w, l)))) = l @ map (paths C) ps"
proof (induction ps arbitrary: C w l)
  case (Cons p ps)
  obtain err C1 w1 l1 where r: "cache_Refresh (noting fetch) now c p (C, w, l) = (err, C1, w1, l1)"
    by (metis prod_cases4)
  with Cons.prems noted_refresh [of p C fetch now c w l] have l1: "l1 = l @ [paths C p]" by auto
  from r refresh_kept [of "noting fetch" now c p C "(w, l)"] have kept: "paths C1 = paths C" "map fst C1 = map fst C"
    by auto
  then have "fst ` set C1 = fst ` set C" by (metis image_set)
  with Cons.prems have "set ps \<subseteq> fst ` set C1" by simp
  from Cons.IH [OF this] r l1 kept show ?case by (simp add: case_prod_unfold Let_def)
qed simp

text \<open>One source cannot hide the others: loading all of them reads the path of every provider once, in
  the order of their names, whatever each read gives.\<close>

theorem refresh_all_reads_every_source:
  "snd (snd (snd (RefreshAll (noting fetch) now c (C, w, [])))) = map (paths C) (sort (map fst C))"
  by (simp add: RefreshAll_def Providers_def noted_each case_prod_unfold Let_def)

section \<open>What a credential costs the Vault server\<close>

text \<open>The calls of a fetch, with the status each was answered with: a login, or a read under a token.\<close>

datatype vault_call = Login "int option" | Read string "int option"

definition call_of :: "web_request \<Rightarrow> int option \<Rightarrow> vault_call" where
  "call_of rq s = (if wr_method rq = ''POST'' then Login s else Read (snd (hd (wr_headers rq))) s)"

definition watched :: "'w Web \<Rightarrow> ('w \<times> vault_call list) Web" where
  "watched W = \<lparr>web_bad = web_bad W,
     web_do = (\<lambda>c rq wl. case web_do W c rq (fst wl) of
        (Inl e, w) \<Rightarrow> (Inl e, w, snd wl @ [call_of rq None])
      | (Inr r, w) \<Rightarrow> (Inr r, w, snd wl @ [call_of rq (Some (wr_status r))])),
     web_first = web_first W, web_codec = web_codec W\<rparr>"

definition watched_files :: "'w Files \<Rightarrow> ('w \<times> vault_call list) Files" where
  "watched_files F = \<lparr>read_file = (\<lambda>p wl. read_file F p (fst wl)),
     not_exist = (\<lambda>p wl. not_exist F p (fst wl)), usable_pem = usable_pem F\<rparr>"

text \<open>A login and, when it succeeded, a read.\<close>

fun login_read :: "vault_call list \<Rightarrow> bool" where
  "login_read [] = True"
| "login_read [Login s] = True"
| "login_read [Login s, Read t r] = (s = Some 200)"
| "login_read _ = False"

fun read_retry :: "vault_call list \<Rightarrow> bool" where
  "read_retry [] = True"
| "read_retry (Read t r # rest) = (rest = [] \<or> (r = Some 401 \<or> r = Some 403) \<and> login_read rest)"
| "read_retry _ = False"

fun fetch_calls :: "vault_call list \<Rightarrow> bool" where
  "fetch_calls (Login s # rest) = (rest = [] \<or> s = Some 200 \<and> read_retry rest)"
| "fetch_calls cs = read_retry cs"

fun last_read :: "vault_call list \<Rightarrow> (string \<times> int option) option" where
  "last_read [] = None"
| "last_read (Read t r # cs) = (case last_read cs of None \<Rightarrow> Some (t, r) | Some x \<Rightarrow> Some x)"
| "last_read (Login s # cs) = last_read cs"

lemma token_of_reply_200: "token_of_reply W r = Inr tok \<Longrightarrow> wr_status r = 200"
  by (auto simp: token_of_reply_def split: sum.splits if_splits)

lemma key_of_reply_200: "key_of_reply W p r = Inr k \<Longrightarrow> wr_status r = 200"
  by (auto simp: key_of_reply_def split: sum.splits if_splits)

lemma watched_simps [simp]:
  "web_bad (watched W) = web_bad W" "web_codec (watched W) = web_codec W"
  "web_do (watched W) c rq (w, l) =
     (case web_do W c rq w of
        (Inl e, w) \<Rightarrow> (Inl e, w, l @ [call_of rq None])
      | (Inr r, w) \<Rightarrow> (Inr r, w, l @ [call_of rq (Some (wr_status r))]))"
  "read_file (watched_files F) p (w, l) = read_file F p w"
  by (auto simp: watched_def watched_files_def split: prod.splits sum.splits)

lemma watched_replies [simp]:
  "token_of_reply (watched W) r = token_of_reply W r" "key_of_reply (watched W) p r = key_of_reply W p r"
  "login_body (watched W) = login_body W"
  by (simp_all add: token_of_reply_def key_of_reply_def login_body_def fun_eq_iff cong: sum.case_cong if_cong)

lemma reauthenticate_watched:
  assumes "reauthenticate (watched W) (watched_files F) c (V, w, l) = (res, V1, w1, l1)"
  obtains e where "res = Inl e" "V1 = V" "l1 = l"
  | e s where "res = Inl e" "V1 = V" "l1 = l @ [Login s]"
  | tok where "res = Inr tok" "token V1 = tok" "l1 = l @ [Login (Some 200)]"
proof (cases res)
  case (Inl e)
  then show ?thesis
    using assms that(1,2)
    by (auto simp: reauthenticate_def Let_def call_of_def split: sum.splits option.splits prod.splits)
next
  case (Inr tok)
  then show ?thesis
    using assms that(3)
    by (auto simp: reauthenticate_def Let_def call_of_def dest: token_of_reply_200 token_of_reply_200 [OF sym]
        split: sum.splits option.splits prod.splits)
qed

lemma vault_read_watched:
  assumes "vault_read (watched W) V c path tok (w, l) = ((res, st), w1, l1)"
  obtains e where "res = Inl e" "st = 0" "l1 = l"
  | e s where "res = Inl e" "l1 = l @ [Read tok s]" "st \<noteq> 0 \<Longrightarrow> s = Some st"
  | k where "res = Inr k" "l1 = l @ [Read tok (Some 200)]"
proof (cases res)
  case (Inl e)
  then show ?thesis
    using assms that(1,2)
    by (auto simp: vault_read_def Let_def call_of_def split: sum.splits option.splits prod.splits)
next
  case (Inr k)
  then show ?thesis
    using assms that(3)
    by (auto simp: vault_read_def Let_def call_of_def dest: key_of_reply_200
        split: sum.splits option.splits prod.splits)
qed

text \<open>The part of a fetch that follows the token.\<close>

definition read_twice ::
  "'w Web \<Rightarrow> 'w Files \<Rightarrow> ctx \<Rightarrow> string \<Rightarrow> string \<Rightarrow> Vault \<times> 'w \<Rightarrow> (go_error + string) \<times> Vault \<times> 'w" where
  "read_twice W F c path tok Vw =
     (let (V, w) = Vw
      in case vault_read W V c path tok w of
           ((Inr k, status), w) \<Rightarrow> (Inr k, V, w)
         | ((Inl err, status), w) \<Rightarrow>
             if status \<noteq> 403 \<and> status \<noteq> 401 then (Inl err, V, w)
             else case reauthenticate W F c (V, w) of
               (Inl err, Vw) \<Rightarrow> (Inl err, Vw)
             | (Inr tok, V, w) \<Rightarrow>
                 (case vault_read W V c path tok w of ((res, status), w) \<Rightarrow> (res, V, w)))"

lemma vault_Fetch_split:
  "vault_Fetch W F c path Vw =
     (case currentToken W F c Vw of
        (Inl err, Vw) \<Rightarrow> (Inl err, Vw) | (Inr tok, Vw) \<Rightarrow> read_twice W F c path tok Vw)"
  by (auto simp: vault_Fetch_def read_twice_def split: prod.splits sum.splits)

definition settled :: "go_error + string \<Rightarrow> Vault \<Rightarrow> vault_call list \<Rightarrow> bool" where
  "settled res V made \<longleftrightarrow> (\<exists>e. res = Inl e) \<or> last_read made = Some (token V, Some 200)"

lemma read_twice_watched:
  assumes "read_twice (watched W) (watched_files F) c path (token V) (V, w, l) = (res, V1, w1, l1)"
  shows "\<exists>more. l1 = l @ more \<and> read_retry more \<and> settled res V1 more \<and> (case more of Login s # _ \<Rightarrow> False | Read t _ # _ \<Rightarrow> t = token V | [] \<Rightarrow> True)"
proof -
  obtain r st w2 l2 where rd: "vault_read (watched W) V c path (token V) (w, l) = ((r, st), w2, l2)"
    by (metis prod.collapse)
  obtain r' V' w3 l3 where re: "reauthenticate (watched W) (watched_files F) c (V, w2, l2) = (r', V', w3, l3)"
    by (metis prod.collapse)
  show ?thesis using rd
  proof (cases rule: vault_read_watched)
    case (1 e)
    with rd assms show ?thesis by (auto simp: read_twice_def settled_def)
  next
    case (3 k)
    with rd assms show ?thesis by (auto simp: read_twice_def settled_def)
  next
    case (2 e s)
    show ?thesis
    proof (cases "st = 403 \<or> st = 401")
      case False
      with 2 rd assms show ?thesis by (auto simp: read_twice_def settled_def)
    next
      case True
      with 2 have s: "s = Some st" by auto
      show ?thesis using re
      proof (cases rule: reauthenticate_watched)
        case (3 tok)
        obtain r2 st2 w4 l4 where rd2: "vault_read (watched W) V' c path tok (w3, l3) = ((r2, st2), w4, l4)"
          by (metis prod.collapse)
        show ?thesis using rd2
          by (cases rule: vault_read_watched)
            (use 2 3 True s rd re rd2 assms in \<open>auto simp: read_twice_def settled_def\<close>)
      qed (use 2 True s rd re assms in \<open>auto simp: read_twice_def settled_def\<close>)
    qed
  qed
qed

text \<open>C32: A fetch from Vault makes at most two reads and two logins, in one order: a login only when no token
  is held, a read under it, and a second login and read only after a 401 or 403. A
  credential comes from a read that was the last, was answered 200, and went out under the token
  the fetcher holds afterwards.\<close>

theorem vault_fetch_protocol:
  "case vault_Fetch (watched W) (watched_files F) c path (V, w, []) of
     (res, V1, w1, made) \<Rightarrow> fetch_calls made \<and> settled res V1 made \<and>
       (case made of [] \<Rightarrow> True | Login s # _ \<Rightarrow> token V = '''' | Read t s # _ \<Rightarrow> t = token V)"
proof (cases "token V = ''''")
  case False
  obtain res V1 w1 l1 where r: "read_twice (watched W) (watched_files F) c path (token V) (V, w, []) = (res, V1, w1, l1)"
    by (metis prod.collapse)
  from read_twice_watched [OF this] False r show ?thesis
    by (cases l1; cases "hd l1") (auto simp: vault_Fetch_split currentToken_def)
next
  case True
  obtain r V' w2 l2 where re: "reauthenticate (watched W) (watched_files F) c (V, w, []) = (r, V', w2, l2)"
    by (metis prod.collapse)
  show ?thesis using re
  proof (cases rule: reauthenticate_watched)
    case (3 tok)
    obtain res V1 w1 l1 where rd: "read_twice (watched W) (watched_files F) c path (token V') (V', w2, l2) = (res, V1, w1, l1)"
      by (metis prod.collapse)
    from read_twice_watched [OF this] 3 rd re True show ?thesis
      by (auto simp: vault_Fetch_split currentToken_def settled_def)
  qed (use re True in \<open>auto simp: vault_Fetch_split currentToken_def settled_def\<close>)
qed

text \<open>C31: A refresh changes nothing or one credential: when it reports an error the cache is as it was, and
  when it succeeds the provider's credential is the non-empty text its source holds, the others
  are untouched, and the change is a load step of the machine above.\<close>

theorem credential_refresh_outcome:
  "case cache_Refresh fetch now c p (C, w) of
     (Some e, C1, w1) \<Rightarrow> C1 = C
   | (None, C1, w1) \<Rightarrow>
       (\<exists>e k. map_of C p = Some e \<and> k \<noteq> '''' \<and>
          fetch (with_timeout c (now w) fetchTimeout) (Path (source e)) w = (Inr k, w1) \<and>
          KeyFor C1 = (KeyFor C)(p := k) \<and> cache_Ready C1 = None \<and>
          keys_step (idle C (now w1)) (Refreshed p (Inr k)) (idle C1 (now w1)))"
proof (cases rule: cache_Refresh_cases [of fetch now c p C w])
  case (2 e k w1)
  have "KeyFor (install p k (now w1) C) = (KeyFor C)(p := k)"
    using 2(2) by (auto simp: KeyFor_install)
  moreover have "cache_Ready (install p k (now w1) C) = None"
    using 2(2) by (induction C) (auto simp: cache_Ready_def install_def split: if_splits)
  ultimately show ?thesis
    using 2 by (auto simp: keys_step_refreshed idle_def cache_Refresh_def)
qed simp


end
