(* ===== verification/Redis.thy ===== *)
theory Redis
  imports Ports
begin

text \<open>
  \<open>internal/redis\<close>: the two fixed-window limiters (\<open>limiter.go\<close>, \<open>tokenlimiter.go\<close>) and the Lua
  scripts they send. The Redis server is not part of the program: its commands, its Lua numbers
  and the passing of its time are the fields of a record \<open>'r RedisServer\<close>, and what Redis documents
  of them is the predicate \<open>documented\<close>. The client's \<open>Int\<close> is a field of the limiter; its
  own model is in the theory \<open>RedisClient\<close>.
\<close>

section \<open>The server\<close>

datatype reply = RInt int | RBulk string | RNil | RStatus string | RErr string

text \<open>
  \<open>INCR\<close>, \<open>INCRBY\<close>, \<open>GET\<close> and \<open>EXPIRE\<close> with string arguments; \<open>lua_number\<close> is an integer reply
  read as a Lua number and returned as an integer again, \<open>tonumber\<close> Lua's function on strings.
\<close>

record 'r RedisServer =
  INCR :: "string \<Rightarrow> 'r \<Rightarrow> reply \<times> 'r"
  INCRBY :: "string \<Rightarrow> string \<Rightarrow> 'r \<Rightarrow> reply \<times> 'r"
  GET :: "string \<Rightarrow> 'r \<Rightarrow> reply \<times> 'r"
  EXPIRE :: "string \<Rightarrow> string \<Rightarrow> 'r \<Rightarrow> reply \<times> 'r"
  lua_number :: "int \<Rightarrow> int"
  tonumber :: "string \<Rightarrow> int option"
  elapse :: "int \<Rightarrow> 'r \<Rightarrow> 'r"

section \<open>The scripts\<close>

definition nl :: string where "nl = [CHR 0x0A]"

definition incrementScript :: string where
  "incrementScript =
     ''local n = redis.call('' @ [CHR 0x27] @ ''INCR'' @ [CHR 0x27] @ '', KEYS[1])'' @ nl @
     ''if n == 1 then redis.call('' @ [CHR 0x27] @ ''EXPIRE'' @ [CHR 0x27] @ '', KEYS[1], ARGV[1]) end'' @ nl @
     ''return n''"

definition spentScript :: string where
  "spentScript =
     ''local v = redis.call('' @ [CHR 0x27] @ ''GET'' @ [CHR 0x27] @ '', KEYS[1])'' @ nl @
     ''if not v then return 0 end'' @ nl @
     ''return tonumber(v)''"

definition debitScript :: string where
  "debitScript =
     ''local n = redis.call('' @ [CHR 0x27] @ ''INCRBY'' @ [CHR 0x27] @ '', KEYS[1], ARGV[1])'' @ nl @
     ''if n == tonumber(ARGV[1]) then redis.call('' @ [CHR 0x27] @ ''EXPIRE'' @ [CHR 0x27] @ '', KEYS[1], ARGV[2]) end'' @ nl @
     ''return n''"

text \<open>
  What the three scripts do. A script runs as one step; an error reply of a \<open>redis.call\<close> ends
  it and is its reply; a Lua number is returned as an integer, \<open>nil\<close> as a nil reply.
\<close>

definition run_increment :: "'r RedisServer \<Rightarrow> string \<Rightarrow> string \<Rightarrow> 'r \<Rightarrow> reply \<times> 'r" where
  "run_increment R key ttl r =
     (case INCR R key r of
        (RInt i, r) \<Rightarrow>
          (let n = lua_number R i
           in if n = 1 then
                (case EXPIRE R key ttl r of
                   (RErr e, r) \<Rightarrow> (RErr e, r)
                 | (_, r) \<Rightarrow> (RInt n, r))
              else (RInt n, r))
      | (other, r) \<Rightarrow> (other, r))"

definition run_spent :: "'r RedisServer \<Rightarrow> string \<Rightarrow> 'r \<Rightarrow> reply \<times> 'r" where
  "run_spent R key r =
     (case GET R key r of
        (RNil, r) \<Rightarrow> (RInt 0, r)
      | (RBulk v, r) \<Rightarrow> ((case tonumber R v of None \<Rightarrow> RNil | Some n \<Rightarrow> RInt n), r)
      | (other, r) \<Rightarrow> (other, r))"

definition run_debit :: "'r RedisServer \<Rightarrow> string \<Rightarrow> string \<Rightarrow> string \<Rightarrow> 'r \<Rightarrow> reply \<times> 'r" where
  "run_debit R key amount ttl r =
     (case INCRBY R key amount r of
        (RInt i, r) \<Rightarrow>
          (let n = lua_number R i
           in if Some n = tonumber R amount then
                (case EXPIRE R key ttl r of
                   (RErr e, r) \<Rightarrow> (RErr e, r)
                 | (_, r) \<Rightarrow> (RInt n, r))
              else (RInt n, r))
      | (other, r) \<Rightarrow> (other, r))"

section \<open>The limiters\<close>

definition window :: int where "window = Second"
definition tokenWindow :: int where "tokenWindow = Minute"

type_synonym 'w IntCall = "ctx \<Rightarrow> string list \<Rightarrow> 'w \<Rightarrow> (go_error + int) \<times> 'w"

text \<open>Both limiters: the client's \<open>Int\<close>, the quota per app, and the clock in \<open>UnixNano\<close>.\<close>

record 'w RedisLimiter =
  client :: "'w IntCall"
  quotas :: "string \<Rightarrow> int option"
  now :: "'w \<Rightarrow> int"

definition quota :: "'w RedisLimiter \<Rightarrow> string \<Rightarrow> int" where
  "quota l app = (case quotas l app of None \<Rightarrow> 0 | Some n \<Rightarrow> n)"

definition rps_key :: "string \<Rightarrow> int \<Rightarrow> string" where
  "rps_key app t = ''llmgw:rps:'' @ app @ '':'' @ itoa (t sdiv window)"

definition key :: "string \<Rightarrow> int \<Rightarrow> string" where
  "key app t = ''llmgw:tpm:'' @ app @ '':'' @ itoa (t sdiv tokenWindow)"

definition NewRateLimiter :: "'w IntCall \<Rightarrow> ('w \<Rightarrow> int) \<Rightarrow> (string \<Rightarrow> int option) \<Rightarrow> 'w RedisLimiter" where
  "NewRateLimiter c clk own = \<lparr>client = c, quotas = own, now = clk\<rparr>"

definition NewTokenLimiter :: "'w IntCall \<Rightarrow> ('w \<Rightarrow> int) \<Rightarrow> (string \<Rightarrow> int option) \<Rightarrow> 'w RedisLimiter" where
  "NewTokenLimiter c clk own = \<lparr>client = c, quotas = own, now = clk\<rparr>"

definition admit :: RateDecision where
  "admit = \<lparr>Allowed = True, RDRetryAfter = 0, RDQuota = None\<rparr>"

definition Allow :: "'w RedisLimiter \<Rightarrow> 'w RateCheck" where
  "Allow l c app w =
     (let limit = quota l app
      in if limit \<le> 0 then (Inr admit, w)
         else
           let t = now l w
           in case client l c [''EVAL'', incrementScript, ''1'', rps_key app t,
                               itoa (window sdiv Second + 1)] w of
                (Inl err, w) \<Rightarrow> (Inl err, w)
              | (Inr used, w) \<Rightarrow>
                  if used \<le> limit then (Inr admit, w)
                  else (Inr \<lparr>Allowed = False, RDRetryAfter = window - t smod window,
                          RDQuota = Some \<lparr>Limit = limit, WindowSeconds = window sdiv Second, Used = used\<rparr>\<rparr>, w))"

definition Check :: "'w RedisLimiter \<Rightarrow> 'w RateCheck" where
  "Check l c app w =
     (let budget = quota l app
      in if budget \<le> 0 then (Inr admit, w)
         else
           let t = now l w
           in case client l c [''EVAL'', spentScript, ''1'', key app t] w of
                (Inl err, w) \<Rightarrow> (Inl err, w)
              | (Inr spent, w) \<Rightarrow>
                  if spent < budget then (Inr admit, w)
                  else (Inr \<lparr>Allowed = False, RDRetryAfter = tokenWindow - t smod tokenWindow,
                          RDQuota = Some \<lparr>Limit = budget, WindowSeconds = tokenWindow sdiv Second, Used = spent\<rparr>\<rparr>, w))"

definition Settle :: "'w RedisLimiter \<Rightarrow> 'w Settler" where
  "Settle l c app tokens w =
     (if quota l app \<le> 0 \<or> tokens \<le> 0 then (None, w)
      else case client l c [''EVAL'', debitScript, ''1'', key app (now l w), itoa tokens,
                            itoa (tokenWindow sdiv Second + 1)] w of
             (Inl err, w) \<Rightarrow> (Some err, w)
           | (Inr _, w) \<Rightarrow> (None, w))"

section \<open>Keys\<close>

lemma rps_key_inj: "rps_key a t = rps_key a' t' \<longleftrightarrow> a = a' \<and> t sdiv window = t' sdiv window"
  using append_colon_inj [of "itoa (t sdiv window)" "itoa (t' sdiv window)" a a'] itoa_inj
  by (auto simp: rps_key_def)

lemma key_inj: "key a t = key a' t' \<longleftrightarrow> a = a' \<and> t sdiv tokenWindow = t' sdiv tokenWindow"
  using append_colon_inj [of "itoa (t sdiv tokenWindow)" "itoa (t' sdiv tokenWindow)" a a'] itoa_inj
  by (auto simp: key_def)

lemma keys_disjoint: "rps_key a t \<noteq> key a' t'"
  by (simp add: rps_key_def key_def)

section \<open>The limiters as the core's ports\<close>

lemma refusal_window: "0 < n \<Longrightarrow> n \<le> Minute \<Longrightarrow> 0 < n - t smod n \<and> n - t smod n < 2 * Minute"
  using smod_less [of n t] smod_gt [of n t] by simp

lemma Second_le_Minute [simp]: "Second \<le> Minute"
  by (simp add: Second_def Minute_def)

interpretation rate: rate_limiter "Allow l" for l
  by unfold_locales
    (auto simp: Allow_def useful_refusal_def admit_def window_def refusal_window smod_less Let_def
      split: if_splits prod.splits sum.splits)

interpretation budget: rate_limiter "Check l" for l
  by unfold_locales
    (auto simp: Check_def useful_refusal_def admit_def tokenWindow_def refusal_window smod_less Let_def
      split: if_splits prod.splits sum.splits)

text \<open>The ports of a service that meters with the two limiters.\<close>

definition redis_metered :: "'w RedisLimiter \<Rightarrow> 'w RedisLimiter \<Rightarrow> 'w Service \<Rightarrow> 'w Service" where
  "redis_metered l b s = s\<lparr>limits := Allow l, tokens_Check := Check b, tokens_Settle := Settle b\<rparr>"

lemma redis_metered_simps [simp]:
  "limits (redis_metered l b s) = Allow l" "tokens_Check (redis_metered l b s) = Check b"
  by (simp_all add: redis_metered_def)

interpretation rm: metered_service "redis_metered l b s" for l b s
  by (intro metered_service.intro) (simp_all add: rate.rate_limiter_axioms budget.rate_limiter_axioms)

end
