(* ===== verification/RedisClient.thy ===== *)
theory RedisClient
  imports GatewayDomain
begin

text \<open>
  \<open>internal/redis/client.go\<close>: the RESP client and its connection pool. The network (dialing,
  the TLS handshake, deadlines, reads and writes on a connection) is a record of functions over
  a world \<open>'w\<close>; a connection is a number. \<open>read_bytes\<close> is \<open>bufio.Reader.ReadBytes\<close> at a line
  feed. The pool is the buffered channel: a queue of at most \<open>size\<close> connections.
\<close>

section \<open>The network\<close>

record 'w Net =
  dial_tcp :: "ctx \<Rightarrow> string \<Rightarrow> 'w \<Rightarrow> (go_error + nat) \<times> 'w"
  handshake :: "ctx \<Rightarrow> string \<Rightarrow> string option \<Rightarrow> nat \<Rightarrow> 'w \<Rightarrow> (go_error + nat) \<times> 'w"
  set_deadline :: "nat \<Rightarrow> int option \<Rightarrow> 'w \<Rightarrow> go_error option \<times> 'w"
  conn_write :: "nat \<Rightarrow> string \<Rightarrow> 'w \<Rightarrow> go_error option \<times> 'w"
  read_bytes :: "nat \<Rightarrow> 'w \<Rightarrow> (go_error + string) \<times> 'w"
  conn_close :: "nat \<Rightarrow> 'w \<Rightarrow> 'w"
  time_now :: "'w \<Rightarrow> int"

definition dialTimeout :: int where "dialTimeout = 2 * Second"

text \<open>\<open>RootCAs\<close> is an opaque certificate bundle, absent for the host's own.\<close>

record Options =
  TLS :: bool
  RootCAs :: "string option"
  Password :: string

record Client =
  addr :: string
  opts :: Options
  serverName :: string
  psize :: int
  pool :: "nat list"

text \<open>\<open>split\<close> is \<open>net.SplitHostPort\<close>.\<close>

definition NewClient :: "(string \<Rightarrow> go_error + string \<times> string) \<Rightarrow> string \<Rightarrow> int \<Rightarrow> Options \<Rightarrow> go_error + Client" where
  "NewClient split a n os =
     (if a = '''' then Inl (ErrText ''redis: address is required'')
      else
        let n = (if n \<le> 0 then 4 else n)
        in case split a of
             Inl err \<Rightarrow> Inl (ErrWrap (''redis: address '' @ quote a @ '' must be host:port'') err)
           | Inr (host, _) \<Rightarrow> Inr \<lparr>addr = a, opts = os, serverName = host, psize = n, pool = []\<rparr>)"

section \<open>The protocol\<close>

definition CRLF :: string where "CRLF = [CHR 0x0D, CHR 0x0A]"

definition encode_arg :: "string \<Rightarrow> string" where
  "encode_arg a = ''$'' @ itoa (int (length a)) @ CRLF @ a @ CRLF"

definition encode_command :: "string list \<Rightarrow> string" where
  "encode_command args = ''*'' @ itoa (int (length args)) @ CRLF @ concat (map encode_arg args)"

definition write_command :: "'w Net \<Rightarrow> nat \<Rightarrow> string list \<Rightarrow> 'w \<Rightarrow> go_error option \<times> 'w" where
  "write_command N cn args w =
     (case conn_write N cn (encode_command args) w of
        (Some err, w) \<Rightarrow> (Some (ErrWrap ''redis: write'' err), w)
      | (None, w) \<Rightarrow> (None, w))"

definition readLine :: "'w Net \<Rightarrow> nat \<Rightarrow> 'w \<Rightarrow> (go_error + string) \<times> 'w" where
  "readLine N cn w =
     (case read_bytes N cn w of
        (Inl err, w) \<Rightarrow> (Inl (ErrWrap ''redis: read'' err), w)
      | (Inr line, w) \<Rightarrow>
          if length line < 2 then (Inl (ErrText ''redis: truncated reply''), w)
          else (Inr (take (length line - 2) line), w))"

text \<open>The verdicts of \<open>readStatus\<close> and \<open>readInt\<close> on a line.\<close>

definition status_of_line :: "string \<Rightarrow> go_error option" where
  "status_of_line line =
     (case line of
        [] \<Rightarrow> Some (ErrText ''redis: empty reply'')
      | c # rest \<Rightarrow>
          if c = CHR ''+'' then None
          else if c = CHR ''-'' then Some (ErrText (''redis: '' @ rest))
          else Some (ErrText (''redis: unexpected reply '' @ quote line)))"

definition int_of_line :: "string \<Rightarrow> go_error + int" where
  "int_of_line line =
     (case line of
        [] \<Rightarrow> Inl (ErrText ''redis: empty reply'')
      | c # rest \<Rightarrow>
          if c = CHR '':'' then
            (case parse_int64 rest of
               None \<Rightarrow> Inl (ErrText (''redis: unparseable integer reply '' @ quote line))
             | Some n \<Rightarrow> Inr n)
          else if c = CHR ''-'' then Inl (ErrText (''redis: '' @ rest))
          else Inl (ErrText (''redis: unexpected reply '' @ quote line)))"

definition readStatus :: "'w Net \<Rightarrow> nat \<Rightarrow> 'w \<Rightarrow> go_error option \<times> 'w" where
  "readStatus N cn w =
     (case readLine N cn w of
        (Inl err, w) \<Rightarrow> (Some err, w)
      | (Inr line, w) \<Rightarrow> (status_of_line line, w))"

definition readInt :: "'w Net \<Rightarrow> nat \<Rightarrow> 'w \<Rightarrow> (go_error + int) \<times> 'w" where
  "readInt N cn w =
     (case readLine N cn w of
        (Inl err, w) \<Rightarrow> (Inl err, w)
      | (Inr line, w) \<Rightarrow> (int_of_line line, w))"

definition roundTrip :: "'w Net \<Rightarrow> nat \<Rightarrow> string list \<Rightarrow> 'w \<Rightarrow> (go_error + int) \<times> 'w" where
  "roundTrip N cn args w =
     (case write_command N cn args w of
        (Some err, w) \<Rightarrow> (Inl err, w)
      | (None, w) \<Rightarrow> readInt N cn w)"

definition auth :: "'w Net \<Rightarrow> nat \<Rightarrow> string \<Rightarrow> 'w \<Rightarrow> go_error option \<times> 'w" where
  "auth N cn password w =
     (case write_command N cn [''AUTH'', password] w of
        (Some err, w) \<Rightarrow> (Some err, w)
      | (None, w) \<Rightarrow> readStatus N cn w)"

section \<open>Dialing\<close>

definition setupDeadline :: "'w Net \<Rightarrow> ctx \<Rightarrow> 'w \<Rightarrow> int" where
  "setupDeadline N c w =
     (let deadline = time_now N w + dialTimeout
      in case ctx_deadline c of
           Some caller \<Rightarrow> if caller < deadline then caller else deadline
         | None \<Rightarrow> deadline)"

definition dial_secure :: "'w Net \<Rightarrow> Client \<Rightarrow> ctx \<Rightarrow> nat \<Rightarrow> 'w \<Rightarrow> (go_error + nat) \<times> 'w" where
  "dial_secure N cl c raw w =
     (if TLS (opts cl) then
        (case handshake N c (serverName cl) (RootCAs (opts cl)) raw w of
           (Inl err, w) \<Rightarrow> (Inl (ErrWrap (''redis: tls handshake '' @ addr cl) err), conn_close N raw w)
         | (Inr tlsConn, w) \<Rightarrow> (Inr tlsConn, w))
      else (Inr raw, w))"

definition dial_auth :: "'w Net \<Rightarrow> Client \<Rightarrow> nat \<Rightarrow> 'w \<Rightarrow> go_error option \<times> 'w" where
  "dial_auth N cl cn w =
     (if Password (opts cl) \<noteq> '''' then
        (case auth N cn (Password (opts cl)) w of
           (Some err, w) \<Rightarrow> (Some err, conn_close N cn w)
         | (None, w) \<Rightarrow> (None, w))
      else (None, w))"

definition dial :: "'w Net \<Rightarrow> Client \<Rightarrow> ctx \<Rightarrow> 'w \<Rightarrow> (go_error + nat) \<times> 'w" where
  "dial N cl c w =
     (case dial_tcp N c (addr cl) w of
        (Inl err, w) \<Rightarrow> (Inl (ErrWrap (''redis: dial '' @ addr cl) err), w)
      | (Inr raw, w) \<Rightarrow>
        (case set_deadline N raw (Some (setupDeadline N c w)) w of
           (Some err, w) \<Rightarrow> (Inl (ErrWrap ''redis: set deadline'' err), conn_close N raw w)
         | (None, w) \<Rightarrow>
           (case dial_secure N cl c raw w of
              (Inl err, w) \<Rightarrow> (Inl err, w)
            | (Inr cn, w) \<Rightarrow>
              (case dial_auth N cl cn w of
                 (Some err, w) \<Rightarrow> (Inl err, w)
               | (None, w) \<Rightarrow>
                 (case set_deadline N cn None w of
                    (Some err, w) \<Rightarrow> (Inl (ErrWrap ''redis: clear deadline'' err), conn_close N cn w)
                  | (None, w) \<Rightarrow> (Inr cn, w))))))"

section \<open>The pool\<close>

definition take_conn :: "'w Net \<Rightarrow> ctx \<Rightarrow> Client \<times> 'w \<Rightarrow> (go_error + nat) \<times> (Client \<times> 'w)" where
  "take_conn N c s =
     (case pool (fst s) of
        cn # cns \<Rightarrow> (Inr cn, ((fst s)\<lparr>pool := cns\<rparr>, snd s))
      | [] \<Rightarrow> apsnd (Pair (fst s)) (dial N (fst s) c (snd s)))"

definition put :: "'w Net \<Rightarrow> nat \<Rightarrow> Client \<times> 'w \<Rightarrow> Client \<times> 'w" where
  "put N cn s =
     (if int (length (pool (fst s))) < psize (fst s)
      then ((fst s)\<lparr>pool := pool (fst s) @ [cn]\<rparr>, snd s)
      else (fst s, conn_close N cn (snd s)))"

definition clientInt :: "'w Net \<Rightarrow> ctx \<Rightarrow> string list \<Rightarrow> Client \<times> 'w \<Rightarrow> (go_error + int) \<times> (Client \<times> 'w)" where
  "clientInt N c args s =
     (case take_conn N c s of
        (Inl err, s) \<Rightarrow> (Inl err, s)
      | (Inr cn, (cl, w)) \<Rightarrow>
          (let (_, w) = set_deadline N cn
                 (Some (case ctx_deadline c of Some d \<Rightarrow> d | None \<Rightarrow> time_now N w + dialTimeout)) w
           in case roundTrip N cn args w of
                (Inl err, w) \<Rightarrow> (Inl err, (cl, conn_close N cn w))
              | (Inr n, w) \<Rightarrow> (Inr n, put N cn (cl, w))))"

fun close_all :: "'w Net \<Rightarrow> nat list \<Rightarrow> 'w \<Rightarrow> 'w" where
  "close_all N [] w = w"
| "close_all N (cn # cns) w = close_all N cns (conn_close N cn w)"

definition Close :: "'w Net \<Rightarrow> Client \<times> 'w \<Rightarrow> Client \<times> 'w" where
  "Close N s = ((fst s)\<lparr>pool := []\<rparr>, close_all N (pool (fst s)) (snd s))"

section \<open>A decoder for the protocol\<close>

text \<open>
  What RESP says an array of bulk strings is, as a parser: the specification \<open>encode_command\<close>
  is judged against.
\<close>

definition header :: "char \<Rightarrow> string \<Rightarrow> (nat \<times> string) option" where
  "header c s =
     (case s of
        [] \<Rightarrow> None
      | x # xs \<Rightarrow>
          if x \<noteq> c then None
          else let ds = takeWhile (\<lambda>y. y \<noteq> CHR 0x0D) xs; rest = dropWhile (\<lambda>y. y \<noteq> CHR 0x0D) xs
               in case parse_int64 ds of
                    None \<Rightarrow> None
                  | Some n \<Rightarrow> if 0 \<le> n \<and> take 2 rest = CRLF then Some (nat n, drop 2 rest) else None)"

definition decode_arg :: "string \<Rightarrow> (string \<times> string) option" where
  "decode_arg s =
     (case header CHR ''$'' s of
        None \<Rightarrow> None
      | Some (n, rest) \<Rightarrow>
          if n \<le> length rest \<and> take 2 (drop n rest) = CRLF
          then Some (take n rest, drop (n + 2) rest) else None)"

fun decode_args :: "nat \<Rightarrow> string \<Rightarrow> (string list \<times> string) option" where
  "decode_args 0 s = Some ([], s)"
| "decode_args (Suc n) s =
     (case decode_arg s of
        None \<Rightarrow> None
      | Some (a, rest) \<Rightarrow>
          (case decode_args n rest of None \<Rightarrow> None | Some (as, rest) \<Rightarrow> Some (a # as, rest)))"

definition decode_command :: "string \<Rightarrow> (string list \<times> string) option" where
  "decode_command s =
     (case header CHR ''*'' s of None \<Rightarrow> None | Some (n, rest) \<Rightarrow> decode_args n rest)"

lemma cr_notin_itoa: "CHR 0x0D \<notin> set (itoa n)"
  using nat_digits_no [of "CHR 0x0D"] by (simp add: itoa_def)

lemma header_encode:
  assumes "in_i64 (int n)"
  shows "header c (c # itoa (int n) @ CRLF @ rest) = Some (n, rest)"
proof -
  have "y \<noteq> CHR 0x0D" if "y \<in> set (itoa (int n))" for y using that cr_notin_itoa by metis
  then have "takeWhile (\<lambda>y. y \<noteq> CHR 0x0D) (itoa (int n) @ CRLF @ rest) = itoa (int n)"
    "dropWhile (\<lambda>y. y \<noteq> CHR 0x0D) (itoa (int n) @ CRLF @ rest) = CRLF @ rest"
    by (simp_all add: takeWhile_append2 dropWhile_append2 CRLF_def)
  with parse_int64_itoa [OF assms] show ?thesis by (simp add: header_def) (simp add: CRLF_def)
qed

lemma decode_encode_arg: "in_i64 (int (length a)) \<Longrightarrow> decode_arg (encode_arg a @ rest) = Some (a, rest)"
  using header_encode [of "length a" "CHR ''$''" "a @ CRLF @ rest"]
  by (simp add: decode_arg_def encode_arg_def) (simp add: CRLF_def)

lemma decode_encode_args:
  "\<forall>a \<in> set args. in_i64 (int (length a)) \<Longrightarrow>
   decode_args (length args) (concat (map encode_arg args) @ rest) = Some (args, rest)"
  by (induction args) (simp_all add: decode_encode_arg)

section \<open>Pool facts\<close>

lemma pool_fields [simp]:
  "addr (cl\<lparr>pool := p\<rparr>) = addr cl" "opts (cl\<lparr>pool := p\<rparr>) = opts cl" "psize (cl\<lparr>pool := p\<rparr>) = psize cl"
  by simp_all

lemma take_conn_pool:
  "take_conn N c (cl, w) = (Inl err, (cl', w')) \<Longrightarrow> pool cl = [] \<and> cl' = cl"
  "take_conn N c (cl, w) = (Inr cn, (cl', w')) \<Longrightarrow>
     cl' = cl\<lparr>pool := tl (pool cl)\<rparr> \<and> (pool cl \<noteq> [] \<longrightarrow> cn = hd (pool cl))"
  by (cases cl; cases "dial N cl c w"; auto simp: take_conn_def split: list.splits)+

text \<open>Every outcome of \<open>Int\<close>: no connection, a failed exchange, or a finished one.\<close>

lemma clientInt_cases:
  assumes "clientInt N c args (cl, w) = (res, (cl', w'))"
  obtains
    (no_conn) err where "res = Inl err" "pool cl = []" "cl' = cl"
  | (failed) err cn v where "res = Inl err" "cl' = cl\<lparr>pool := tl (pool cl)\<rparr>" "w' = conn_close N cn v"
      "pool cl \<noteq> [] \<longrightarrow> cn = hd (pool cl)"
  | (done_) n cn v where "res = Inr n" "(cl', w') = put N cn (cl\<lparr>pool := tl (pool cl)\<rparr>, v)"
      "pool cl \<noteq> [] \<longrightarrow> cn = hd (pool cl)"
proof -
  obtain r cl1 w1 where t: "take_conn N c (cl, w) = (r, (cl1, w1))" by (metis prod_cases3)
  show thesis
  proof (cases r)
    case (Inl err)
    with t assms take_conn_pool(1) [of N c cl w err cl1 w1] show thesis by (intro no_conn [of err]) (auto simp: clientInt_def)
  next
    case (Inr cn)
    note tc = take_conn_pool(2) [OF t [unfolded Inr]]
    obtain x w2 where sd: "set_deadline N cn
        (Some (case ctx_deadline c of Some d \<Rightarrow> d | None \<Rightarrow> time_now N w1 + dialTimeout)) w1 = (x, w2)"
      by fastforce
    obtain r2 w3 where rt: "roundTrip N cn args w2 = (r2, w3)" by fastforce
    show thesis
    proof (cases r2)
      case (Inl err)
      with Inr t tc sd rt assms show thesis by (intro failed [of err cn w3]) (auto simp: clientInt_def)
    next
      case r2: (Inr n)
      with Inr t tc sd rt assms show thesis by (intro done_ [of n cn w3]) (auto simp: clientInt_def)
    qed
  qed
qed

section \<open>What dialing does on the wire\<close>

text \<open>The network with a log of what it was asked to do.\<close>

datatype netcall = NDial nat | NSecure nat nat | NWrite nat string | NClose nat

definition logged :: "'w Net \<Rightarrow> ('w \<times> netcall list) Net" where
  "logged N = \<lparr>
     dial_tcp = (\<lambda>c a (w, t). case dial_tcp N c a w of
        (Inl e, w) \<Rightarrow> (Inl e, (w, t)) | (Inr cn, w) \<Rightarrow> (Inr cn, (w, t @ [NDial cn]))),
     handshake = (\<lambda>c h r cn (w, t). case handshake N c h r cn w of
        (Inl e, w) \<Rightarrow> (Inl e, (w, t)) | (Inr cn', w) \<Rightarrow> (Inr cn', (w, t @ [NSecure cn cn']))),
     set_deadline = (\<lambda>cn d (w, t). apsnd (\<lambda>w. (w, t)) (set_deadline N cn d w)),
     conn_write = (\<lambda>cn s (w, t). apsnd (\<lambda>w. (w, t @ [NWrite cn s])) (conn_write N cn s w)),
     read_bytes = (\<lambda>cn (w, t). apsnd (\<lambda>w. (w, t)) (read_bytes N cn w)),
     conn_close = (\<lambda>cn (w, t). (conn_close N cn w, t @ [NClose cn])),
     time_now = (\<lambda>(w, t). time_now N w)\<rparr>"

definition wire :: "'w Net \<Rightarrow> Client \<Rightarrow> ctx \<Rightarrow> 'w \<Rightarrow> (go_error + nat) \<times> netcall list" where
  "wire N cl c w = (case dial (logged N) cl c (w, []) of (r, (_, t)) \<Rightarrow> (r, t))"

text \<open>The logs a dial can leave, from its first step to its last.\<close>

definition secure_log :: "Client \<Rightarrow> nat \<Rightarrow> nat \<Rightarrow> netcall list" where
  "secure_log cl raw cn = (if TLS (opts cl) then [NSecure raw cn] else [])"

definition auth_log :: "Client \<Rightarrow> nat \<Rightarrow> netcall list" where
  "auth_log cl cn =
     (if Password (opts cl) = '''' then [] else [NWrite cn (encode_command [''AUTH'', Password (opts cl)])])"

lemma auth_logged: "snd (snd (auth (logged N) cn p (w, t))) = t @ [NWrite cn (encode_command [''AUTH'', p])]"
  by (simp add: auth_def write_command_def readStatus_def readLine_def logged_def
      split: prod.splits option.splits sum.splits)
    (auto simp: apsnd_def map_prod_def split: prod.splits)

lemma dial_auth_logged:
  assumes "dial_auth (logged N) cl cn (w, t) = (r, (w', t'))"
  shows "t' = t @ auth_log cl cn @ (if r = None then [] else [NClose cn])"
proof (cases "Password (opts cl) = ''''")
  case False
  obtain x v u where a: "auth (logged N) cn (Password (opts cl)) (w, t) = (x, (v, u))" by (metis prod_cases3)
  with auth_logged [of N cn "Password (opts cl)" w t] have
    "u = t @ [NWrite cn (encode_command [''AUTH'', Password (opts cl)])]" by simp
  with a assms False show ?thesis
    by (cases x) (auto simp: dial_auth_def auth_log_def logged_def)
qed (use assms in \<open>simp add: dial_auth_def auth_log_def\<close>)

lemma dial_secure_logged:
  assumes "dial_secure (logged N) cl c raw (w, t) = (r, (w', t'))"
  shows "case r of Inl _ \<Rightarrow> t' = t @ [NClose raw] | Inr cn \<Rightarrow> t' = t @ secure_log cl raw cn \<and>
    (\<not> TLS (opts cl) \<longrightarrow> cn = raw)"
  using assms
  by (cases "handshake N c (serverName cl) (RootCAs (opts cl)) raw w")
    (auto simp: dial_secure_def secure_log_def logged_def split: if_splits sum.splits)

lemma set_deadline_logged: "set_deadline (logged N) cn d (w, t) = (x, (w', t')) \<Longrightarrow> t' = t"
  by (cases "set_deadline N cn d w") (auto simp: logged_def)

lemma close_logged: "conn_close (logged N) cn (w, t) = (conn_close N cn w, t @ [NClose cn])"
  by (simp add: logged_def)

lemma dial_logged:
  assumes "wire N cl c w = (r, t)"
  shows "(t = [] \<and> (\<exists>e. r = Inl e))
    \<or> (\<exists>raw e. t = [NDial raw, NClose raw] \<and> r = Inl e)
    \<or> (\<exists>raw cn e. t = [NDial raw] @ secure_log cl raw cn @ auth_log cl cn @ [NClose cn] \<and> r = Inl e)
    \<or> (\<exists>raw cn. t = [NDial raw] @ secure_log cl raw cn @ auth_log cl cn \<and> r = Inr cn)"
proof -
  obtain w9 where d: "dial (logged N) cl c (w, []) = (r, (w9, t))"
    using assms by (auto simp: wire_def split: prod.splits)
  obtain r1 w1 t1 where 1: "dial_tcp (logged N) c (addr cl) (w, []) = (r1, (w1, t1))" by (metis prod_cases3)
  show ?thesis
  proof (cases r1)
    case (Inl e)
    with 1 d show ?thesis by (auto simp: dial_def logged_def split: prod.splits sum.splits)
  next
    case (Inr raw)
    with 1 have t1: "t1 = [NDial raw]" by (auto simp: logged_def split: prod.splits sum.splits)
    obtain r2 w2 t2 where 2: "set_deadline (logged N) raw (Some (setupDeadline (logged N) c (w1, t1))) (w1, t1) = (r2, (w2, t2))"
      by (metis prod_cases3)
    note t2 = set_deadline_logged [OF 2]
    show ?thesis
    proof (cases r2)
      case (Some e)
      with 1 Inr 2 t1 t2 d show ?thesis by (auto simp: dial_def close_logged)
    next
      case r2: None
      obtain r3 w3 t3 where 3: "dial_secure (logged N) cl c raw (w2, t2) = (r3, (w3, t3))" by (metis prod_cases3)
      note t3 = dial_secure_logged [OF 3]
      show ?thesis
      proof (cases r3)
        case (Inl e)
        with 1 Inr 2 r2 3 t1 t2 t3 d show ?thesis by (auto simp: dial_def)
      next
        case r3: (Inr cn)
        obtain r4 w4 t4 where 4: "dial_auth (logged N) cl cn (w3, t3) = (r4, (w4, t4))" by (metis prod_cases3)
        note t4 = dial_auth_logged [OF 4]
        show ?thesis
        proof (cases r4)
          case (Some e)
          with 1 Inr 2 r2 3 r3 4 t1 t2 t3 t4 d show ?thesis by (auto simp: dial_def)
        next
          case r4: None
          obtain r5 w5 t5 where 5: "set_deadline (logged N) cn None (w4, t4) = (r5, (w5, t5))" by (metis prod_cases3)
          note t5 = set_deadline_logged [OF 5]
          from 1 Inr 2 r2 3 r3 4 r4 5 t1 t2 t3 t4 t5 d show ?thesis
            by (cases r5) (auto simp: dial_def close_logged)
        qed
      qed
    qed
  qed
qed

section \<open>Properties\<close>

text \<open>C39: What the client sends is what RESP calls one array of bulk strings: a decoder of the
  protocol reads back exactly the arguments, binary or empty ones included, and leaves what
  follows untouched, so commands on one connection never bleed into each other.\<close>

theorem resp_roundtrip:
  assumes "in_i64 (int (length args))" and "\<forall>a \<in> set args. in_i64 (int (length a))"
  shows "decode_command (encode_command args @ rest) = Some (args, rest)"
  using header_encode [OF assms(1), of "CHR ''*''" "concat (map encode_arg args) @ rest"]
    decode_encode_args [OF assms(2), of rest]
  by (simp add: decode_command_def encode_command_def)

theorem resp_roundtrip_witness:
  "decode_command (encode_command [''EVAL'', CRLF, ''''] @ ''x'') = Some ([''EVAL'', CRLF, ''''], ''x'')"
  by (rule resp_roundtrip) (simp_all add: in_i64_def CRLF_def)

text \<open>The pool. A call takes the connection at the front, if there is one. When the call fails
  that connection is out of the pool; when it succeeds it goes to the back, or is dropped when
  the pool is full. So a pool within its size stays within its size.\<close>

theorem int_pool_discipline:
  "case clientInt N c args (cl, w) of (res, (cl', w')) \<Rightarrow>
     (case res of
        Inl _ \<Rightarrow> pool cl' = tl (pool cl)
      | Inr _ \<Rightarrow> \<exists>cn. (pool cl = [] \<or> cn = hd (pool cl)) \<and>
          pool cl' = tl (pool cl) @ (if int (length (tl (pool cl))) < psize cl then [cn] else [])) \<and>
     psize cl' = psize cl \<and> int (length (pool cl')) \<le> max (psize cl) (int (length (pool cl)))"
proof -
  obtain res cl' w' where i: "clientInt N c args (cl, w) = (res, (cl', w'))" by (metis prod_cases3)
  have len: "length (tl (pool cl)) \<le> length (pool cl)" by simp
  show ?thesis
    unfolding i using i len
    by (cases rule: clientInt_cases) (auto simp: put_def split: if_splits)
qed

text \<open>Dialing leaks nothing and tells no secret early. A dial that fails has closed the
  connection it opened; one that succeeds has closed none. When TLS is configured, nothing is
  written before the handshake, and all that is ever written is the AUTH command, on the
  secured connection.\<close>

theorem dial_clean:
  "case wire N cl c w of (r, t) \<Rightarrow>
     (case r of
        Inl _ \<Rightarrow> t = [] \<or> (\<exists>cn. last t = NClose cn)
      | Inr cn \<Rightarrow> \<exists>raw. t = [NDial raw] @ secure_log cl raw cn @ auth_log cl cn) \<and>
     list_all (\<lambda>x. case x of
         NWrite cn s \<Rightarrow> s = encode_command [''AUTH'', Password (opts cl)] \<and>
           (if TLS (opts cl) then \<exists>raw. take 2 t = [NDial raw, NSecure raw cn] else True)
       | _ \<Rightarrow> True) t"
proof -
  obtain r t where w: "wire N cl c w = (r, t)" by fastforce
  from dial_logged [OF this] show ?thesis
    unfolding w
    by (elim disjE exE conjE) (auto simp: secure_log_def auth_log_def)
qed

end
