(* ===== verification/RedisQuota.thy ===== *)
theory RedisQuota
  imports Redis
begin

text \<open>
  What the two limiters enforce. \<open>direct\<close> is a client that reaches the server on every call;
  the runs below are sequences of calls of any apps, with time passing on the gateway's clock
  and on the server before each. The server is any record that does what Redis documents
  (\<open>documented\<close>); \<open>keyspace\<close> is one, for the witnesses.
\<close>

section \<open>What Redis documents\<close>

text \<open>\<open>view r k\<close>: the integer stored under \<open>k\<close> and its remaining lifetime, in nanoseconds.\<close>

type_synonym 'r view = "'r \<Rightarrow> string \<Rightarrow> (int \<times> int option) option"

definition incr_ok :: "'r RedisServer \<Rightarrow> 'r view \<Rightarrow> bool" where
  "incr_ok R view \<longleftrightarrow> (\<forall>k r. case view r k of
     None \<Rightarrow> fst (INCR R k r) = RInt 1 \<and> view (snd (INCR R k r)) = (view r)(k \<mapsto> (1, None))
   | Some (v, ttl) \<Rightarrow> in_i64 (v + 1) \<longrightarrow>
       fst (INCR R k r) = RInt (v + 1) \<and> view (snd (INCR R k r)) = (view r)(k \<mapsto> (v + 1, ttl)))"

definition incrby_ok :: "'r RedisServer \<Rightarrow> 'r view \<Rightarrow> bool" where
  "incrby_ok R view \<longleftrightarrow> (\<forall>k r d. in_i64 d \<longrightarrow> (case view r k of
     None \<Rightarrow> fst (INCRBY R k (itoa d) r) = RInt d \<and>
       view (snd (INCRBY R k (itoa d) r)) = (view r)(k \<mapsto> (d, None))
   | Some (v, ttl) \<Rightarrow> in_i64 (v + d) \<longrightarrow> fst (INCRBY R k (itoa d) r) = RInt (v + d) \<and>
       view (snd (INCRBY R k (itoa d) r)) = (view r)(k \<mapsto> (v + d, ttl))))"

definition get_ok :: "'r RedisServer \<Rightarrow> 'r view \<Rightarrow> bool" where
  "get_ok R view \<longleftrightarrow> (\<forall>k r. view (snd (GET R k r)) = view r \<and>
     fst (GET R k r) = (case view r k of None \<Rightarrow> RNil | Some (v, _) \<Rightarrow> RBulk (itoa v)))"

definition expire_ok :: "'r RedisServer \<Rightarrow> 'r view \<Rightarrow> bool" where
  "expire_ok R view \<longleftrightarrow> (\<forall>k r s. 0 < s \<and> in_i64 s \<longrightarrow> (case view r k of
     None \<Rightarrow> True
   | Some (v, ttl) \<Rightarrow> fst (EXPIRE R k (itoa s) r) = RInt 1 \<and>
       view (snd (EXPIRE R k (itoa s) r)) = (view r)(k \<mapsto> (v, Some (s * Second)))))"

definition elapse_ok :: "'r RedisServer \<Rightarrow> 'r view \<Rightarrow> bool" where
  "elapse_ok R view \<longleftrightarrow> (\<forall>d r k. 0 \<le> d \<longrightarrow> view (elapse R d r) k =
     (case view r k of Some (v, Some ttl) \<Rightarrow> if d < ttl then Some (v, Some (ttl - d)) else None | x \<Rightarrow> x))"

text \<open>Lua's numbers are doubles: exact up to \<open>2 ^ 53\<close>.\<close>

definition lua_ok :: "'r RedisServer \<Rightarrow> bool" where
  "lua_ok R \<longleftrightarrow> (\<forall>n. \<bar>n\<bar> \<le> 2 ^ 53 \<longrightarrow> lua_number R n = n \<and> tonumber R (itoa n) = Some n)"

definition documented :: "'r RedisServer \<Rightarrow> 'r view \<Rightarrow> bool" where
  "documented R view \<longleftrightarrow> incr_ok R view \<and> incrby_ok R view \<and> get_ok R view \<and> expire_ok R view \<and>
     elapse_ok R view \<and> lua_ok R"



lemma INCRBY_new: "documented R view \<Longrightarrow> view r k = None \<Longrightarrow> in_i64 d \<Longrightarrow>
    INCRBY R k (itoa d) r = (rep, r') \<Longrightarrow> rep = RInt d \<and> view r' = (view r)(k \<mapsto> (d, None))"
  unfolding documented_def incrby_ok_def by (auto dest!: spec [of _ k] spec [of _ r] spec [of _ d])

lemma INCRBY_old: "documented R view \<Longrightarrow> view r k = Some (v, ttl) \<Longrightarrow> in_i64 d \<Longrightarrow> in_i64 (v + d) \<Longrightarrow>
    INCRBY R k (itoa d) r = (rep, r') \<Longrightarrow> rep = RInt (v + d) \<and> view r' = (view r)(k \<mapsto> (v + d, ttl))"
  unfolding documented_def incrby_ok_def by (auto dest!: spec [of _ k] spec [of _ r] spec [of _ d])

lemma GET_view: "documented R view \<Longrightarrow> GET R k r = (rep, r') \<Longrightarrow>
    rep = (case view r k of None \<Rightarrow> RNil | Some (v, _) \<Rightarrow> RBulk (itoa v)) \<and> view r' = view r"
  unfolding documented_def get_ok_def by (metis fst_conv snd_conv)

lemma EXPIRE_view: "documented R view \<Longrightarrow> view r k = Some (v, ttl) \<Longrightarrow> 0 < s \<Longrightarrow> in_i64 s \<Longrightarrow>
    EXPIRE R k (itoa s) r = (rep, r') \<Longrightarrow> rep = RInt 1 \<and> view r' = (view r)(k \<mapsto> (v, Some (s * Second)))"
  unfolding documented_def expire_ok_def by (auto dest!: spec [of _ k] spec [of _ r] spec [of _ s])

lemma elapse_view: "documented R view \<Longrightarrow> 0 \<le> d \<Longrightarrow> view (elapse R d r) k =
    (case view r k of Some (v, Some ttl) \<Rightarrow> if d < ttl then Some (v, Some (ttl - d)) else None | x \<Rightarrow> x)"
  unfolding documented_def elapse_ok_def by blast

lemma lua_view: "documented R view \<Longrightarrow> \<bar>n\<bar> \<le> 2 ^ 53 \<Longrightarrow> lua_number R n = n"
    "documented R view \<Longrightarrow> \<bar>n\<bar> \<le> 2 ^ 53 \<Longrightarrow> tonumber R (itoa n) = Some n"
  unfolding documented_def lua_ok_def by blast+

section \<open>A client that reaches the server\<close>

definition serve :: "'r RedisServer \<Rightarrow> string list \<Rightarrow> 'r \<Rightarrow> reply \<times> 'r" where
  "serve R args r =
     (case args of
        [cmd, script, n, k] \<Rightarrow>
          if cmd = ''EVAL'' \<and> n = ''1'' \<and> script = spentScript then run_spent R k r
          else (RErr ''ERR'', r)
      | [cmd, script, n, k, a] \<Rightarrow>
          if cmd = ''EVAL'' \<and> n = ''1'' \<and> script = incrementScript then run_increment R k a r
          else (RErr ''ERR'', r)
      | [cmd, script, n, k, a, b] \<Rightarrow>
          if cmd = ''EVAL'' \<and> n = ''1'' \<and> script = debitScript then run_debit R k a b r
          else (RErr ''ERR'', r)
      | _ \<Rightarrow> (RErr ''ERR'', r))"

text \<open>The world: the server's state and the gateway's clock (\<open>UnixNano\<close>).\<close>

definition direct :: "'r RedisServer \<Rightarrow> ('r \<times> int) IntCall" where
  "direct R c args w =
     (case serve R args (fst w) of
        (RInt n, r) \<Rightarrow> (Inr n, (r, snd w))
      | (RErr e, r) \<Rightarrow> (Inl (ErrText (''redis: '' @ e)), (r, snd w))
      | (_, r) \<Rightarrow> (Inl (ErrText ''redis: unexpected reply''), (r, snd w)))"

definition rate_on :: "'r RedisServer \<Rightarrow> (string \<Rightarrow> int option) \<Rightarrow> ('r \<times> int) RedisLimiter" where
  "rate_on R own = NewRateLimiter (direct R) snd own"

definition budget_on :: "'r RedisServer \<Rightarrow> (string \<Rightarrow> int option) \<Rightarrow> ('r \<times> int) RedisLimiter" where
  "budget_on R own = NewTokenLimiter (direct R) snd own"

lemma on_simps [simp]:
  "client (rate_on R own) = direct R" "now (rate_on R own) = snd" "quotas (rate_on R own) = own"
  "client (budget_on R own) = direct R" "now (budget_on R own) = snd" "quotas (budget_on R own) = own"
  by (simp_all add: rate_on_def budget_on_def NewRateLimiter_def NewTokenLimiter_def)

lemma quota_on: "quota (rate_on R own) = quota (budget_on R own)"
  by (simp add: quota_def fun_eq_iff)

text \<open>Time passes for both clocks.\<close>

definition pass :: "'r RedisServer \<Rightarrow> int \<Rightarrow> 'r \<times> int \<Rightarrow> 'r \<times> int" where
  "pass R d w = (elapse R d (fst w), snd w + d)"

section \<open>One call in a window\<close>

definition in_window :: "int \<Rightarrow> int \<Rightarrow> int \<Rightarrow> bool" where
  "in_window n k t \<longleftrightarrow> 0 \<le> k \<and> k * n \<le> t \<and> t < (k + 1) * n"

lemma in_window_sdiv:
  assumes "0 < n" "in_window n k t"
  shows "t sdiv n = k"
proof -
  from assms have "0 \<le> k * n" by (simp add: in_window_def)
  with assms(2) have "0 \<le> t" unfolding in_window_def by linarith
  moreover have "t div n = k"
    by (rule int_div_pos_eq [of _ _ _ "t - k * n"])
      (use assms in \<open>auto simp: in_window_def algebra_simps\<close>)
  ultimately show ?thesis using assms(1) by (simp add: sdiv_nonneg)
qed

text \<open>
  A window's counter of value \<open>v\<close> at time \<open>t\<close>: absent before the first write, then alive until
  the window of length \<open>n\<close> ends.
\<close>

definition counter :: "'r view \<Rightarrow> 'r \<times> int \<Rightarrow> string \<Rightarrow> int \<Rightarrow> int \<Rightarrow> int \<Rightarrow> bool" where
  "counter view w k n i v \<longleftrightarrow>
     (if v = 0 then view (fst w) k = None
      else 0 < v \<and> (\<exists>ttl. view (fst w) k = Some (v, Some ttl) \<and> (i + 1) * n - snd w < ttl))"

lemma counter_pass:
  assumes "documented R view" "counter view w k n i v" "0 \<le> d" "in_window n i (snd w + d)"
  shows "counter view (pass R d w) k n i v"
  using assms(2-4) elapse_view [OF assms(1,3), of "fst w" k]
  by (auto simp: counter_def pass_def in_window_def)



lemma direct_spent:
  "direct R c [''EVAL'', spentScript, ''1'', k] w =
     (case run_spent R k (fst w) of
        (RInt n, r) \<Rightarrow> (Inr n, (r, snd w))
      | (RErr e, r) \<Rightarrow> (Inl (ErrText (''redis: '' @ e)), (r, snd w))
      | (_, r) \<Rightarrow> (Inl (ErrText ''redis: unexpected reply''), (r, snd w)))"
  by (simp add: direct_def serve_def)

lemma direct_debit:
  "direct R c [''EVAL'', debitScript, ''1'', k, a, b] w =
     (case run_debit R k a b (fst w) of
        (RInt n, r) \<Rightarrow> (Inr n, (r, snd w))
      | (RErr e, r) \<Rightarrow> (Inl (ErrText (''redis: '' @ e)), (r, snd w))
      | (_, r) \<Rightarrow> (Inl (ErrText ''redis: unexpected reply''), (r, snd w)))"
  by (simp add: direct_def serve_def)


lemma debit_counter:
  assumes "documented R view" "counter view w k Minute i v" "0 \<le> v" "0 < d" "v + d \<le> 2 ^ 53"
    and "in_window Minute i (snd w)"
  obtains r where "run_debit R k (itoa d) (itoa 61) (fst w) = (RInt (v + d), r)"
    "counter view (r, snd w) k Minute i (v + d)" "\<And>k'. k' \<noteq> k \<Longrightarrow> view r k' = view (fst w) k'"
proof (cases "v = 0")
  case True
  obtain rep r1 where i: "INCRBY R k (itoa d) (fst w) = (rep, r1)" by fastforce
  have d: "in_i64 d" using assms(3-5) by (simp add: in_i64_def)
  from assms(2) True have "view (fst w) k = None" by (simp add: counter_def)
  from INCRBY_new [OF assms(1) this d i] have
    1: "rep = RInt d" "view r1 = (view (fst w))(k \<mapsto> (d, None))" by auto
  obtain rep' r2 where e: "EXPIRE R k (itoa 61) r1 = (rep', r2)" by fastforce
  from EXPIRE_view [OF assms(1) _ _ _ e, of d None] 1 have
    2: "rep' = RInt 1" "view r2 = (view r1)(k \<mapsto> (d, Some (61 * Second)))" by (auto simp: in_i64_def)
  have "(i + 1) * Minute - snd w < 61 * Second"
    using assms(6) by (auto simp: in_window_def algebra_simps Minute_def Second_def)
  then show thesis
    by (intro that [of r2])
      (use True 1 2 i e lua_view [OF assms(1), of d] assms(3-5) in
        \<open>auto simp: run_debit_def counter_def Let_def\<close>)
next
  case False
  obtain rep r1 where i: "INCRBY R k (itoa d) (fst w) = (rep, r1)" by fastforce
  from assms(2) False obtain ttl where
    k: "view (fst w) k = Some (v, Some ttl)" "(i + 1) * Minute - snd w < ttl" by (auto simp: counter_def)
  have "in_i64 (v + d)" "in_i64 d" using assms(3-5) by (simp_all add: in_i64_def)
  from INCRBY_old [OF assms(1) k(1) this(2,1) i] have
    1: "rep = RInt (v + d)" "view r1 = (view (fst w))(k \<mapsto> (v + d, Some ttl))" by auto
  show thesis
    by (rule that [of r1])
      (use False 1 i k(2) lua_view(1) [OF assms(1), of "v + d"] lua_view(2) [OF assms(1), of d] assms(3-5) in
        \<open>auto simp: run_debit_def counter_def Let_def\<close>)
qed

lemma spent_counter:
  assumes "documented R view" "counter view w k n i v" "0 \<le> v" "v \<le> 2 ^ 53"
  obtains r where "run_spent R k (fst w) = (RInt v, r)" "view r = view (fst w)"
proof -
  obtain rep r where g: "GET R k (fst w) = (rep, r)" by fastforce
  from GET_view [OF assms(1) g] assms(2-4) lua_view(2) [OF assms(1), of v] have
    "run_spent R k (fst w) = (RInt v, r)" "view r = view (fst w)"
    using g by (auto simp: run_spent_def counter_def split: if_splits)
  then show thesis by (rule that)
qed

section \<open>Runs of one window\<close>


fun settle_run ::
  "'r RedisServer \<Rightarrow> (string \<Rightarrow> int option) \<Rightarrow> ctx \<Rightarrow> (int \<times> string \<times> int) list \<Rightarrow> 'r \<times> int \<Rightarrow> 'r \<times> int" where
  "settle_run R own c [] w = w"
| "settle_run R own c ((d, app, tokens) # es) w =
     settle_run R own c es (snd (Settle (budget_on R own) c app tokens (pass R d w)))"




definition spent_by :: "string \<Rightarrow> (int \<times> string \<times> int) list \<Rightarrow> int" where
  "spent_by app es = sum_list (map (\<lambda>(_, a, n). if a = app \<and> 0 < n then n else 0) es)"

text \<open>The run stays inside window \<open>i\<close>, and time does not go back.\<close>

definition stays :: "int \<Rightarrow> int \<Rightarrow> int list \<Rightarrow> int \<Rightarrow> bool" where
  "stays n i ds t \<longleftrightarrow> in_window n i t \<and> (\<forall>d \<in> set ds. 0 \<le> d) \<and> t + sum_list ds < (i + 1) * n"

lemma stays_Cons: "stays n i (d # ds) t \<Longrightarrow> 0 \<le> d \<and> in_window n i (t + d) \<and> stays n i ds (t + d)"
proof -
  assume w: "stays n i (d # ds) t"
  then have "0 \<le> sum_list ds" by (intro sum_list_nonneg) (auto simp: stays_def)
  with w show ?thesis by (auto simp: stays_def in_window_def)
qed



lemma counter_other: "view r k = view (fst w) k \<Longrightarrow> counter view (r, snd w) k n i v = counter view w k n i v"
  by (simp add: counter_def)


text \<open>
  A server that does what is documented: a map from keys to a count and a lifetime.
\<close>

definition count_of :: "(string \<Rightarrow> (int \<times> int option) option) \<Rightarrow> string \<Rightarrow> int \<Rightarrow> int" where
  "count_of r k d = (case r k of None \<Rightarrow> d | Some (v, _) \<Rightarrow> v + d)"

definition ttl_of :: "(string \<Rightarrow> (int \<times> int option) option) \<Rightarrow> string \<Rightarrow> int option" where
  "ttl_of r k = (case r k of None \<Rightarrow> None | Some (_, t) \<Rightarrow> t)"

definition keyspace :: "(string \<Rightarrow> (int \<times> int option) option) RedisServer" where
  "keyspace = \<lparr>INCR = (\<lambda>k r. (RInt (count_of r k 1), r(k \<mapsto> (count_of r k 1, ttl_of r k)))),
     INCRBY = (\<lambda>k s r. case parse_int64 s of
        None \<Rightarrow> (RErr ''ERR value is not an integer or out of range'', r)
      | Some d \<Rightarrow> (RInt (count_of r k d), r(k \<mapsto> (count_of r k d, ttl_of r k)))),
     GET = (\<lambda>k r. ((case r k of None \<Rightarrow> RNil | Some (v, _) \<Rightarrow> RBulk (itoa v)), r)),
     EXPIRE = (\<lambda>k s r. case (r k, parse_int64 s) of
        (Some (v, _), Some n) \<Rightarrow> (RInt 1, r(k \<mapsto> (v, Some (n * Second))))
      | _ \<Rightarrow> (RInt 0, r)),
     lua_number = (\<lambda>n. n),
     tonumber = parse_int64,
     elapse = (\<lambda>d r k. case r k of
        Some (v, Some ttl) \<Rightarrow> if d < ttl then Some (v, Some (ttl - d)) else None
      | x \<Rightarrow> x)\<rparr>"


lemma keyspace_documented: "documented keyspace (\<lambda>r. r)"
proof -
  have "\<bar>n\<bar> \<le> 2 ^ 53 \<Longrightarrow> in_i64 n" for n :: int by (auto simp: in_i64_def)
  then show ?thesis
    by (auto simp: documented_def keyspace_def incr_ok_def incrby_ok_def get_ok_def expire_ok_def
        elapse_ok_def lua_ok_def count_of_def ttl_of_def parse_int64_itoa split: option.splits)
qed

lemma settle_step:
  assumes "documented R view" "in_window Minute i (snd w)" "0 < quota (budget_on R own) app" "0 < d"
    and "counter view w (key app (i * Minute)) Minute i v" "0 \<le> v" "v + d \<le> 2 ^ 53"
  obtains r where "Settle (budget_on R own) c app d w = (None, (r, snd w))"
    "counter view (r, snd w) (key app (i * Minute)) Minute i (v + d)"
    "\<And>k. k \<noteq> key app (i * Minute) \<Longrightarrow> view r k = view (fst w) k"
proof -
  have k: "key app (snd w) = key app (i * Minute)"
    using in_window_sdiv [OF Minute_pos assms(2)] in_window_sdiv [OF Minute_pos, of i "i * Minute"] assms(2)
    by (simp add: key_def tokenWindow_def in_window_def)
  from debit_counter [OF assms(1,5,6,4,7,2)] obtain r where
    r: "run_debit R (key app (i * Minute)) (itoa d) (itoa 61) (fst w) = (RInt (v + d), r)"
      "counter view (r, snd w) (key app (i * Minute)) Minute i (v + d)"
      "\<And>k'. k' \<noteq> key app (i * Minute) \<Longrightarrow> view r k' = view (fst w) k'" by blast
  have "itoa (tokenWindow sdiv Second + 1) = itoa 61"
    by (simp add: tokenWindow_def Minute_def Second_def)
  with r(1) k assms(3,4) have "Settle (budget_on R own) c app d w = (None, (r, snd w))"
    by (simp add: Settle_def direct_debit)
  with r(2,3) show thesis by (intro that [of r])
qed

lemma settle_free: "quota l app \<le> 0 \<or> d \<le> 0 \<Longrightarrow> Settle l c app d w = (None, w)"
  by (auto simp: Settle_def)

lemma settle_run_counts:
  assumes "documented R view" and "stays Minute i (map fst es) (snd w)"
    and "\<And>a. 0 < quota (budget_on R own) a \<Longrightarrow> counter view w (key a (i * Minute)) Minute i (n a)"
    and "\<And>a. 0 \<le> n a \<and> n a + spent_by a es \<le> 2 ^ 53"
  shows "snd (settle_run R own c es w) = snd w + sum_list (map fst es) \<and>
    (\<forall>a. 0 < quota (budget_on R own) a \<longrightarrow>
       counter view (settle_run R own c es w) (key a (i * Minute)) Minute i (n a + spent_by a es))"
  using assms(2-4)
proof (induction es arbitrary: n w)
  case Nil
  then show ?case by (simp add: spent_by_def)
next
  case (Cons e es)
  obtain d a k where e: "e = (d, a, k)" by (cases e)
  let ?w = "pass R d w"
  have t: "0 \<le> d" "in_window Minute i (snd ?w)" "stays Minute i (map fst es) (snd ?w)"
    using stays_Cons [of Minute i d "map fst es" "snd w"] Cons.prems(1) by (auto simp: e pass_def)
  have cw: "counter view ?w (key b (i * Minute)) Minute i (n b)" if "0 < quota (budget_on R own) b" for b
    using counter_pass [OF assms(1) Cons.prems(2) [OF that] t(1)] t(2) by (simp add: pass_def)
  have nonneg: "0 \<le> spent_by b es" for b
    unfolding spent_by_def by (rule sum_list_nonneg) auto
  show ?case
  proof (cases "0 < quota (budget_on R own) a \<and> 0 < k")
    case False
    have "0 \<le> n b \<and> n b + spent_by b es \<le> 2 ^ 53" for b
      using Cons.prems(3) [of b] nonneg [of b] by (auto simp: e spent_by_def split: if_splits)
    from Cons.IH [OF t(3) cw this] False show ?thesis
      by (auto simp: e settle_free spent_by_def pass_def)
  next
    case True
    have nk: "n a + k \<le> 2 ^ 53" "0 \<le> n a"
      using Cons.prems(3) [of a] nonneg [of a] True by (auto simp: e spent_by_def)
    from settle_step [OF assms(1) t(2) conjunct1 [OF True] conjunct2 [OF True] cw [OF conjunct1 [OF True]] nk(2,1), of c]
    obtain r where
      st: "Settle (budget_on R own) c a k ?w = (None, (r, snd ?w))"
        "counter view (r, snd ?w) (key a (i * Minute)) Minute i (n a + k)"
        "\<And>k. k \<noteq> key a (i * Minute) \<Longrightarrow> view r k = view (fst ?w) k" by blast
    let ?n = "n(a := n a + k)"
    have "counter view (r, snd ?w) (key b (i * Minute)) Minute i (?n b)"
      if "0 < quota (budget_on R own) b" for b
      using st(2) st(3) [of "key b (i * Minute)"] cw [OF that]
      by (cases "b = a") (simp_all add: key_inj counter_other)
    moreover have "0 \<le> ?n b \<and> ?n b + spent_by b es \<le> 2 ^ 53" for b
      using Cons.prems(3) [of b] True by (auto simp: e spent_by_def split: if_splits)
    ultimately have "snd (settle_run R own c es (r, snd ?w)) = snd ?w + sum_list (map fst es) \<and>
      (\<forall>b. 0 < quota (budget_on R own) b \<longrightarrow>
       counter view (settle_run R own c es (r, snd ?w)) (key b (i * Minute)) Minute i (?n b + spent_by b es))"
      using Cons.IH [of "(r, snd ?w)" ?n] t(3) by simp
    with st(1) True show ?thesis
      by (auto simp: e spent_by_def pass_def add.assoc split: if_splits)
  qed
qed

lemma check_counter:
  assumes "documented R view" "counter view w (key app (snd w)) n i v" "0 \<le> v" "v \<le> 2 ^ 53"
    and "0 < quota (budget_on R own) app"
  shows "fst (Check (budget_on R own) c app w) =
    (if v < quota (budget_on R own) app then Inr admit
     else Inr \<lparr>Allowed = False, RDRetryAfter = Minute - snd w smod Minute,
       RDQuota = Some \<lparr>Limit = quota (budget_on R own) app, WindowSeconds = 60, Used = v\<rparr>\<rparr>)"
proof -
  from spent_counter [OF assms(1-4)] obtain r where
    "run_spent R (key app (snd w)) (fst w) = (RInt v, r)" by blast
  with assms(5) show ?thesis
    by (simp add: Check_def direct_spent tokenWindow_def Let_def)
      (simp add: Minute_def Second_def signed_divide_int_def)
qed

section \<open>Properties\<close>



text \<open>C12: The token budget is a running total per app and minute. After any debits of a window,
  \<open>Check\<close> admits exactly while the app's own positive debits stay below its budget, and a
  refusal reports the budget, the tokens spent and the time to the end of the window.\<close>

theorem token_budget_exact:
  assumes "documented R view" and "stays Minute i (map fst es) (snd w)"
    and "\<forall>a. view (fst w) (key a (snd w)) = None" and "\<forall>a. spent_by a es \<le> 2 ^ 53"
    and "0 < quota (budget_on R own) app"
  shows "fst (Check (budget_on R own) c app (settle_run R own c es w)) =
    (if spent_by app es < quota (budget_on R own) app then Inr admit
     else Inr \<lparr>Allowed = False,
       RDRetryAfter = Minute - (snd w + sum_list (map fst es)) smod Minute,
       RDQuota = Some \<lparr>Limit = quota (budget_on R own) app, WindowSeconds = 60, Used = spent_by app es\<rparr>\<rparr>)"
proof -
  have w: "in_window Minute i (snd w)" using assms(2) by (simp add: stays_def)
  then have "in_window Minute i (i * Minute)" by (simp add: in_window_def)
  with w have k: "key a (i * Minute) = key a (snd w)" for a
    by (simp add: key_inj tokenWindow_def in_window_sdiv)
  with assms(3) have "counter view w (key a (i * Minute)) Minute i 0" for a
    by (simp add: counter_def)
  then have run: "snd (settle_run R own c es w) = snd w + sum_list (map fst es)"
    "counter view (settle_run R own c es w) (key app (i * Minute)) Minute i (spent_by app es)"
    using settle_run_counts [OF assms(1,2), of own "\<lambda>_. 0" c] assms(4,5) by auto
  have "0 \<le> sum_list (map fst es)"
    using assms(2) by (intro sum_list_nonneg) (auto simp: stays_def)
  then have "in_window Minute i (snd w + sum_list (map fst es))"
    using assms(2) by (auto simp: stays_def in_window_def)
  with w have "key app (snd w + sum_list (map fst es)) = key app (i * Minute)"
    unfolding k by (simp add: key_inj tokenWindow_def in_window_sdiv)
  moreover have "0 \<le> spent_by app es"
    unfolding spent_by_def by (rule sum_list_nonneg) auto
  ultimately show ?thesis
    using check_counter [OF assms(1), of "settle_run R own c es w" app] run assms(4,5) by simp
qed

theorem token_budget_exact_witness:
  "fst (Check (budget_on keyspace [''rag'' \<mapsto> 10]) background ''rag''
     (settle_run keyspace [''rag'' \<mapsto> 10] background [(0, ''rag'', 7), (3, ''x'', 9), (2, ''rag'', 5)]
        (Map.empty, Minute))) =
   Inr \<lparr>Allowed = False, RDRetryAfter = Minute - (Minute + 5) smod Minute,
     RDQuota = Some \<lparr>Limit = 10, WindowSeconds = 60, Used = 12\<rparr>\<rparr>"
  by (subst token_budget_exact [OF keyspace_documented, of 1])
    (simp_all add: stays_def in_window_def Minute_def Second_def quota_def spent_by_def)

text \<open>A refusal tells the caller what to do: with these limiters, every quota refusal of \<open>Chat\<close>
  carries a positive delay and the quota that refused, and every refusal for concurrency the
  one-second delay.\<close>

theorem chat_refusals_actionable:
  "case fst (Chat (redis_metered l b s) c k req w) of
     Inl (ErrGateway e) \<Rightarrow> actionable e
   | _ \<Rightarrow> True"
proof -
  obtain res w' where eq: "Chat (redis_metered l b s) c k req w = (res, w')" by fastforce
  have "actionable e" if "res = Inl (ErrGateway e)" for e
    using rm.chat_actionable [of l b s c k req w e w'] eq that by simp
  with eq show ?thesis by (auto split: sum.split go_error.split)
qed

text \<open>No two counters collide: a key of one currency names one app and one window, whatever
  characters the app's name has, and never a key of the other currency.\<close>

theorem quota_keys_injective:
  "(rps_key a t = rps_key a' t') = (a = a' \<and> t sdiv window = t' sdiv window) \<and>
   (key a t = key a' t') = (a = a' \<and> t sdiv tokenWindow = t' sdiv tokenWindow) \<and>
   rps_key a t \<noteq> key a' t'"
  by (simp add: rps_key_inj key_inj keys_disjoint)

end
