(* ===== verification/ApiProps.thy ===== *)
theory ApiProps
  imports ApiServer RedisQuota ChatProps
begin

text \<open>
  What the edge promises its callers, for the whole route: the middleware chain with observing
  decorators in its two seams, the handler, and the core behind it.
\<close>

section \<open>The assembled edge\<close>

text \<open>A decorator that only watches: it runs the next handler, may change the world (a log, a
  counter) knowing the request, what it started from and what came out, and passes the response
  and a panic on. Every decorator \<open>main\<close> puts in the seams is one.\<close>

type_synonym 'w watcher = "Request \<Rightarrow> 'w \<times> Response \<Rightarrow> Response \<Rightarrow> bool \<Rightarrow> 'w \<Rightarrow> 'w"

definition observing :: "'w watcher \<Rightarrow> 'w middleware" where
  "observing f next r st = (case next r st of (p, w, rs) \<Rightarrow> (p, f r st rs p w, rs))"

definition edge ::
  "'w Server \<Rightarrow> 'w watcher list \<Rightarrow> 'w watcher list \<Rightarrow> 'w Server" where
  "edge s fs gs = s\<lparr>sv_requestMW := map observing fs, sv_panicMW := map observing gs\<rparr>"

definition post :: "Request \<Rightarrow> Request" where
  "post r = r\<lparr>rq_method := ''POST'', rq_path := ''/v1/chat''\<rparr>"

definition answer :: "'w Server \<Rightarrow> Request \<Rightarrow> 'w \<Rightarrow> Response" where
  "answer s r w = snd (snd (ServeHTTP s r (w, empty_response)))"

text \<open>The correlation ID of a request: the caller's own, or the one drawn for it.\<close>

definition correlation :: "'w Server \<Rightarrow> Request \<Rightarrow> 'w \<Rightarrow> string" where
  "correlation s r w =
     (let client = header_get ''X-Correlation-ID'' (rq_headers r)
      in if client = '''' \<or> length client > 128 then fst (sv_random s 16 w) else client)"

lemma edge_simps [simp]:
  "sv_requestMW (edge s fs gs) = map observing fs" "sv_panicMW (edge s fs gs) = map observing gs"
  "sv_random (edge s fs gs) = sv_random s" "sv_chat (edge s fs gs) = sv_chat s"
  "sv_decoder (edge s fs gs) = sv_decoder s" "sv_unix (edge s fs gs) = sv_unix s"
  "sv_maxBodyBytes (edge s fs gs) = sv_maxBodyBytes s"
  by (simp_all add: edge_def)

section \<open>Responses being written\<close>

lemma set_header_simps [simp]:
  "rs_status (set_header k v rs) = rs_status rs" "rs_body (set_header k v rs) = rs_body rs"
  "rs_status rs = None \<Longrightarrow> map_of (rs_headers (set_header k v rs)) = (map_of (rs_headers rs))(k \<mapsto> v)"
  by (simp_all add: set_header_def update_conv')

lemma write_header_simps [simp]:
  "rs_status rs = None \<Longrightarrow> rs_status (write_header n rs) = Some n"
  "rs_headers (write_header n rs) = rs_headers rs" "rs_body (write_header n rs) = rs_body rs"
  by (simp_all add: write_header_def Let_def)

lemma writeJSON_simps [simp]:
  "rs_status rs = None \<Longrightarrow> rs_status (writeJSON n v rs) = Some n"
  "rs_status rs = None \<Longrightarrow> map_of (rs_headers (writeJSON n v rs)) =
     (map_of (rs_headers rs))(''Content-Type'' \<mapsto> ''application/json'')"
  "rs_body (writeJSON n v rs) = rs_body rs @ [v]"
  by (simp_all add: writeJSON_def write_body_def)

definition retry_header :: "apiError \<Rightarrow> string option" where
  "retry_header e = (case ae_details e of None \<Rightarrow> None
     | Some d \<Rightarrow> if ed_RetryAfterSeconds d > 0 then Some (itoa (ed_RetryAfterSeconds d)) else None)"

lemma writeError_simps [simp]:
  "rs_status rs = None \<Longrightarrow> rs_status (writeError r e rs) = Some (ae_status e)"
  "rs_status rs = None \<Longrightarrow> h \<noteq> ''Retry-After'' \<Longrightarrow> h \<noteq> ''Content-Type'' \<Longrightarrow>
     map_of (rs_headers (writeError r e rs)) h = map_of (rs_headers rs) h"
  "rs_status rs = None \<Longrightarrow> map_of (rs_headers rs) ''Retry-After'' = None \<Longrightarrow>
     map_of (rs_headers (writeError r e rs)) ''Retry-After'' = retry_header e"
  "rs_body (writeError r e rs) = rs_body rs @
     [PError \<lparr>er_Code = ae_code e, er_Message = ae_message e, er_CorrelationID = rq_correlation r,
        er_Details = ae_details e\<rparr>]"
  by (auto simp: writeError_def retry_header_def split: option.split)

section \<open>The delay of a refusal\<close>

lemma ceilSeconds_nonneg:
  assumes "0 \<le> d" "d < 2 ^ 62"
  shows "ceilSeconds d = (d + Second - 1) div Second"
proof -
  have "i64 (d + Second) = d + Second" "i64 (d + Second - 1) = d + Second - 1"
    using assms by (simp_all add: in_i64_def Second_def)
  then show ?thesis
    using assms by (simp add: ceilSeconds_def sdiv_nonneg Second_def)
qed

lemma ceilSeconds_bounds:
  assumes "0 < d" "d < 2 ^ 62"
  shows "1 \<le> ceilSeconds d" "d \<le> ceilSeconds d * Second"
proof -
  have c: "ceilSeconds d = (d + Second - 1) div Second" using assms by (intro ceilSeconds_nonneg) auto
  have "1 * Second \<le> d + Second - 1" using assms(1) by simp
  then show "1 \<le> ceilSeconds d" unfolding c using pos_imp_zdiv_pos_iff [of Second "d + Second - 1"] by simp
  have "d + Second - 1 = Second * ((d + Second - 1) div Second) + (d + Second - 1) mod Second" by simp
  moreover have "(d + Second - 1) mod Second \<le> Second - 1"
    using pos_mod_bound [of Second "d + Second - 1"] by simp
  ultimately show "d \<le> ceilSeconds d * Second" unfolding c by (subst mult.commute) linarith
qed

lemma fromGatewayError_simps [simp]:
  "ae_status (fromGatewayError e) = statusFor (Code e)"
  "ae_code (fromGatewayError e) = code_string (Code e)"
  by (simp_all add: fromGatewayError_def Let_def)

lemma retry_fromGatewayError:
  assumes "0 < RetryAfter e" "RetryAfter e < 2 ^ 62"
  shows "retry_header (fromGatewayError e) = Some (itoa (ceilSeconds (RetryAfter e)))"
  using assms ceilSeconds_bounds(1) [OF assms]
  by (auto simp: fromGatewayError_def retry_header_def Let_def no_details_def split: option.split)

lemma statusFor_429: "statusFor c = 429 \<longleftrightarrow> c = CodeQuotaExceeded \<or> c = CodeConcurrencyCeiling"
  by (cases c) (simp_all add: statusFor_def)

section \<open>The chain\<close>

lemma spliced_observing:
  "\<exists>w'. spliced (map observing fs) h r st = (fst (h r st), w', snd (snd (h r st)))"
proof (induction fs)
  case (Cons f fs)
  then obtain w' where "spliced (map observing fs) h r st = (fst (h r st), w', snd (snd (h r st)))" by blast
  then show ?case by (simp add: observing_def [of f])
qed (metis prod.collapse spliced.simps(1) list.simps(8))

text \<open>The request as the handler behind the middleware sees it, and the response it starts from.\<close>

definition admitted_request :: "'w Server \<Rightarrow> Request \<Rightarrow> 'w \<Rightarrow> Request" where
  "admitted_request s r w = (post r)\<lparr>rq_correlation := correlation s r w\<rparr>"

definition started :: "'w Server \<Rightarrow> Request \<Rightarrow> 'w \<Rightarrow> Response" where
  "started s r w = set_header ''X-Correlation-ID'' (correlation s r w) empty_response"

definition drawn :: "'w Server \<Rightarrow> Request \<Rightarrow> 'w \<Rightarrow> 'w" where
  "drawn s r w =
     (let client = header_get ''X-Correlation-ID'' (rq_headers r)
      in if client = '''' \<or> length client > 128 then snd (sv_random s 16 w) else w)"

lemma answer_post:
  "answer (edge s fs gs) (post r) w =
     (case maxBody s (authenticate (handleChat (edge s fs gs))) (admitted_request s r w) (drawn s r w, started s r w) of
        (True, _, rs) \<Rightarrow> writeError (admitted_request s r w) internal_error rs
      | (False, _, rs) \<Rightarrow> rs)"
proof -
  let ?h = "maxBody s (authenticate (handleChat (edge s fs gs)))"
  let ?r = "admitted_request s r w"
  let ?st = "(drawn s r w, started s r w)"
  have mb: "maxBody (edge s fs gs) = maxBody s" by (simp add: maxBody_def fun_eq_iff)
  have head: "answer (edge s fs gs) (post r) w =
      snd (snd (spliced (map observing fs) (recoverPanic (spliced (map observing gs) ?h)) ?r ?st))"
    by (simp add: answer_def ServeHTTP_def chain_def correlationID_def admitted_request_def drawn_def
        started_def correlation_def maxCorrelationIDLength_def mb post_def Let_def split: prod.split)
  obtain w1 where "spliced (map observing gs) ?h ?r ?st = (fst (?h ?r ?st), w1, snd (snd (?h ?r ?st)))"
    using spliced_observing [of gs ?h ?r ?st] by blast
  then have inner: "snd (snd (recoverPanic (spliced (map observing gs) ?h) ?r ?st)) =
      (case ?h ?r ?st of (True, _, rs) \<Rightarrow> writeError ?r internal_error rs | (False, _, rs) \<Rightarrow> rs)"
    by (simp add: recoverPanic_def split: prod.split bool.split)
  obtain w2 where "spliced (map observing fs) (recoverPanic (spliced (map observing gs) ?h)) ?r ?st =
      (fst (recoverPanic (spliced (map observing gs) ?h) ?r ?st), w2,
       snd (snd (recoverPanic (spliced (map observing gs) ?h) ?r ?st)))"
    using spliced_observing [of fs "recoverPanic (spliced (map observing gs) ?h)" ?r ?st] by blast
  with head inner show ?thesis by simp
qed

lemma started_simps [simp]:
  "rs_status (started s r w) = None" "rs_body (started s r w) = []"
  "map_of (rs_headers (started s r w)) = [''X-Correlation-ID'' \<mapsto> correlation s r w]"
  by (simp_all add: started_def empty_response_def)

lemma admitted_request_simps [simp]:
  "rq_correlation (admitted_request s r w) = correlation s r w"
  "rq_headers (admitted_request s r w) = rq_headers r" "rq_body (admitted_request s r w) = rq_body r"
  "rq_ctx (admitted_request s r w) = rq_ctx r"
  by (simp_all add: admitted_request_def post_def)

lemma bearer_admitted [simp]: "bearerToken (r\<lparr>rq_limit := x\<rparr>) = bearerToken r"
  "bearerToken (admitted_request s r w) = bearerToken r"
  by (simp_all add: bearerToken_def)

text \<open>The answers of the data path, from the first refusal to a served completion.\<close>

lemma answer_cases:
  obtains
    (no_key) "bearerToken r = None"
      "answer (edge s fs gs) (post r) w = writeError (admitted_request s r w) missing_key (started s r w)"
  | (bad_request) k rq e where "bearerToken r = Some k" "rq_correlation rq = correlation s r w"
      "decodeChatRequest (sv_decoder s) (header_get ''Content-Type'' (rq_headers r))
         (sv_maxBodyBytes s) (rq_body r) = Inl e"
      "answer (edge s fs gs) (post r) w = writeError rq e (started s r w)"
  | (panicked) k wire w1 where "bearerToken r = Some k"
      "sv_chat s (rq_ctx r) k (toDomain wire) (drawn s r w) = (None, w1)"
      "answer (edge s fs gs) (post r) w = writeError (admitted_request s r w) internal_error (started s r w)"
      "decodeChatRequest (sv_decoder s) (header_get ''Content-Type'' (rq_headers r))
         (sv_maxBodyBytes s) (rq_body r) = Inr wire"
  | (failed) k rq wire err w1 where "bearerToken r = Some k" "rq_correlation rq = correlation s r w"
      "sv_chat s (rq_ctx r) k (toDomain wire) (drawn s r w) = (Some (Inl err), w1)"
      "answer (edge s fs gs) (post r) w = writeChatError rq err (started s r w)"
      "decodeChatRequest (sv_decoder s) (header_get ''Content-Type'' (rq_headers r))
         (sv_maxBodyBytes s) (rq_body r) = Inr wire"
  | (served) k wire res w1 where "bearerToken r = Some k"
      "sv_chat s (rq_ctx r) k (toDomain wire) (drawn s r w) = (Some (Inr res), w1)"
      "answer (edge s fs gs) (post r) w =
         writeJSON 200 (PChat (chatResponse (fst (sv_random s 8 w1)) (sv_unix s (snd (sv_random s 8 w1))) res))
           (if Substituted res then set_header ''X-Model-Substituted'' ''true'' (started s r w) else started s r w)"
      "decodeChatRequest (sv_decoder s) (header_get ''Content-Type'' (rq_headers r))
         (sv_maxBodyBytes s) (rq_body r) = Inr wire"
proof -
  let ?r = "admitted_request s r w"
  show thesis
  proof (cases "bearerToken r")
    case None
    then show thesis
      by (intro no_key) (simp_all add: answer_post maxBody_def authenticate_def writeError_def)
  next
    case (Some k)
    define rq where "rq = ?r\<lparr>rq_limit := Some (sv_maxBodyBytes s), rq_key := k\<rparr>"
    have rq [simp]: "rq_correlation rq = correlation s r w" "rq_headers rq = rq_headers r"
      "rq_body rq = rq_body r" "rq_ctx rq = rq_ctx r" "rq_key rq = k" "rq_limit rq = Some (sv_maxBodyBytes s)"
      by (simp_all add: rq_def)
    have a: "answer (edge s fs gs) (post r) w =
      (case handleChat (edge s fs gs) rq (drawn s r w, started s r w) of
        (True, _, rs) \<Rightarrow> writeError ?r internal_error rs | (False, _, rs) \<Rightarrow> rs)"
      using Some by (simp add: answer_post maxBody_def authenticate_def rq_def)
    show thesis
    proof (cases "decodeChatRequest (sv_decoder s) (header_get ''Content-Type'' (rq_headers r))
         (sv_maxBodyBytes s) (rq_body r)")
      case (Inl e)
      with Some a show thesis
        by (intro bad_request [of k rq e]) (simp_all add: handleChat_def)
    next
      case (Inr wire)
      obtain res w1 where ch: "sv_chat s (rq_ctx r) k (toDomain wire) (drawn s r w) = (res, w1)" by fastforce
      show thesis
      proof (cases res)
        case None
        with Some a Inr ch show thesis
          by (intro panicked [of k wire w1]) (simp_all add: handleChat_def)
      next
        case res: (Some x)
        show thesis
        proof (cases x)
          case (Inl err)
          with Some a Inr ch res show thesis
            by (intro failed [of k rq wire err w1]) (simp_all add: handleChat_def)
        next
          case x: (Inr y)
          with Some a Inr ch res show thesis
            by (intro served [of k wire y w1]) (simp_all add: handleChat_def Let_def split: prod.split)
        qed
      qed
    qed
  qed
qed

section \<open>Properties\<close>

text \<open>C29: Every response of the data path, whatever becomes of the request, a panic included, carries
  one correlation ID: the caller's own when it has 1 to 128 bytes, one drawn for it otherwise;
  and an error's body names the same ID.\<close>

theorem responses_correlated:
  "map_of (rs_headers (answer (edge s fs gs) (post r) w)) ''X-Correlation-ID'' = Some (correlation s r w) \<and>
   list_all (\<lambda>b. case b of PError d \<Rightarrow> er_CorrelationID d = correlation s r w | _ \<Rightarrow> True)
     (rs_body (answer (edge s fs gs) (post r) w))"
proof -
  show ?thesis
    by (cases rule: answer_cases [of r s fs gs w])
      (simp_all add: writeChatError_def split: option.split)
qed

text \<open>A panic behind the edge costs one request: when the chat service panics on an accepted
  request, the caller gets status 500 and the standard error body, which says nothing of the
  panic, and no panic leaves the server.\<close>

theorem panic_answered:
  assumes "bearerToken r = Some k"
    and "decodeChatRequest (sv_decoder s) (header_get ''Content-Type'' (rq_headers r))
      (sv_maxBodyBytes s) (rq_body r) = Inr wire"
    and "fst (sv_chat s (rq_ctx r) k (toDomain wire) (drawn s r w)) = None"
  shows "rs_status (answer (edge s fs gs) (post r) w) = Some 500 \<and>
    rs_body (answer (edge s fs gs) (post r) w) =
      [PError \<lparr>er_Code = ''internal_error'', er_Message = ''internal error'',
         er_CorrelationID = correlation s r w, er_Details = None\<rparr>]"
proof -
  obtain w1 where "sv_chat s (rq_ctx r) k (toDomain wire) (drawn s r w) = (None, w1)"
    using assms(3) by (metis prod.collapse)
  with assms(1,2) have "answer (edge s fs gs) (post r) w =
      writeError (admitted_request s r w) internal_error (started s r w)"
    by (simp add: answer_post maxBody_def authenticate_def handleChat_def)
  then show ?thesis by (simp add: internal_error_def codeInternalError_def)
qed

definition demo_decoder :: decoder where
  "demo_decoder = \<lparr>first_value = (\<lambda>_. Value (JObj [(''model'', JStr ''gpt''), (''max_tokens'', JInt 100),
     (''messages'', JArr [JObj [(''role'', JStr ''user''), (''content'', JStr ''hi'')]])])),
     dec_codec = \<lparr>parse = (\<lambda>_. None), json_text = (\<lambda>_. '''')\<rparr>,
     media_type = (\<lambda>s. Some s)\<rparr>"

definition demo_server :: "int Server" where
  "demo_server = \<lparr>sv_chat = (\<lambda>_ _ _ w. (None, w)), sv_live = (\<lambda>w. (None, w)), sv_ready = (\<lambda>_ w. (None, w)),
     sv_requestMW = [], sv_panicMW = [], sv_maxBodyBytes = 1000,
     sv_random = (\<lambda>n w. (replicate (2 * n) CHR ''0'', w + 1)), sv_unix = (\<lambda>w. w),
     sv_decoder = demo_decoder\<rparr>"

definition demo_call :: Request where
  "demo_call = \<lparr>rq_method = ''POST'', rq_path = ''/v1/chat'',
     rq_headers = [(''Content-Type'', ''application/json''), (''Authorization'', ''bearer secret''),
       (''X-Correlation-ID'', ''abc'')],
     rq_body = ''...'', rq_limit = None, rq_ctx = background, rq_correlation = '''', rq_key = ''''\<rparr>"

lemmas setter_defs = set_request_def set_struct_def set_string_def set_int_def set_list_def
  set_message_def set_string_ptr_def zero_request_def zero_message_def

lemma demo_decodes:
  "decodeChatRequest demo_decoder ''application/json'' 1000 ''...'' =
     Inr (zero_request\<lparr>rw_Model := ''gpt'', rw_MaxTokens := 100,
       rw_Messages := [zero_message\<lparr>mw_Role := ''user'', mw_Content := Some ''hi''\<rparr>]\<rparr>)"
  by (simp add: decodeChatRequest_def requireJSON_def Decode_def demo_decoder_def setter_defs lower_def lower_char_def
      in_i64_def reject_def Let_def)

lemma demo_headers:
  "header_get ''Content-Type'' (rq_headers demo_call) = ''application/json''"
  "bearerToken demo_call = Some ''secret''"
  by (code_simp, code_simp)

theorem panic_answered_witness:
  "rs_status (answer (edge demo_server [] []) (post demo_call) 0) = Some 500"
proof -
  have "decodeChatRequest (sv_decoder demo_server) (header_get ''Content-Type'' (rq_headers demo_call))
      (sv_maxBodyBytes demo_server) (rq_body demo_call) =
     Inr (zero_request\<lparr>rw_Model := ''gpt'', rw_MaxTokens := 100,
       rw_Messages := [zero_message\<lparr>mw_Role := ''user'', mw_Content := Some ''hi''\<rparr>]\<rparr>)"
    unfolding demo_headers by (simp add: demo_server_def demo_call_def demo_decodes)
  from panic_answered [OF demo_headers(2) this, of 0 "[]" "[]"] show ?thesis
    by (simp add: demo_server_def)
qed

text \<open>With a metered core behind it, the edge never answers 500: every request to the data path ends
  in one of the statuses of the contract. Every 429 carries a Retry-After of at least one second.\<close>

lemma edge_status:
  assumes core: "\<And>c k q v. fst (sv_chat s c k q v) = Some (fst (Chat core c k q v))"
    and metered: "metered_service core"
  shows "\<exists>n. rs_status (answer (edge s fs gs) (post r) w) = Some n \<and>
     n \<in> {200, 400, 401, 413, 415, 429, 499, 502, 503, 504} \<and>
     (if n = 429
      then \<exists>k \<ge> 1. map_of (rs_headers (answer (edge s fs gs) (post r) w)) ''Retry-After'' = Some (itoa k)
      else True)"
proof (cases rule: answer_cases [of r s fs gs w])
  case no_key
  then show ?thesis by (simp add: missing_key_def)
next
  case (bad_request k rq e)
  from decode_status [OF bad_request(3)] bad_request(4) show ?thesis by auto
next
  case (panicked k wire w1)
  with core show ?thesis by (metis fst_conv option.distinct(1))
next
  case (served k wire res w1)
  then show ?thesis by simp
next
  case (failed k rq wire err w1)
  then obtain w2 where ch: "Chat core (rq_ctx r) k (toDomain wire) (drawn s r w) = (Inl err, w2)"
    using core [of "rq_ctx r" k "toDomain wire" "drawn s r w"] by (metis fst_conv option.inject prod.collapse)
  from metered_service.chat_actionable [OF metered] ch have act: "err = ErrGateway e \<Longrightarrow> actionable e" for e
    by blast
  have "core_error err" using ch chat_error_facts [of core] by simp
  then consider e where "err = ErrGateway e" "statusFor (Code e) \<in> {400, 401, 429, 502, 503, 504}"
    | "err = ErrWrap ''caller disconnected'' (ErrCtx Canceled)"
    by (cases err) (auto simp: core_error_def statusFor_def split: ErrorCode.splits)
  then show ?thesis
  proof cases
    case 1
    have "map_of (rs_headers (writeError rq (fromGatewayError e) (started s r w)))
        ''Retry-After'' = Some (itoa (ceilSeconds (RetryAfter e))) \<and> 1 \<le> ceilSeconds (RetryAfter e)"
      if "statusFor (Code e) = 429"
    proof -
      have "0 < RetryAfter e" "RetryAfter e < 2 ^ 62"
        using act [OF 1(1)] that by (auto simp: actionable_def statusFor_429 Minute_def Second_def)
      then show ?thesis by (simp add: retry_fromGatewayError ceilSeconds_bounds(1))
    qed
    with 1 failed(4) show ?thesis by (auto simp: writeChatError_def)
  next
    case 2
    with failed(4) show ?thesis by (simp add: writeChatError_def statusClientClosedRequest_def)
  qed
qed

section \<open>What the decoder accepts\<close>

text \<open>No setter forgets an error.\<close>

definition keeps :: "'r setter \<Rightarrow> bool" where
  "keeps s \<longleftrightarrow> (\<forall>path j r e r' saved. s path j r (Some e) = Inr (r', saved) \<longrightarrow> saved \<noteq> None)"

lemma remember_simps [simp]:
  "remember e r None = Inr (r, Some e)" "remember e r (Some x) = Inr (r, Some x)"
  by (simp_all add: remember_def)

lemma keeps_scalars [simp]:
  "keeps (set_string u1)" "keeps (set_string_ptr u2)" "keeps (set_int u3)" "keeps (set_int_ptr u4)"
  "keeps (set_float_ptr u5)" "keeps (set_bool_ptr u6)" "keeps (set_raw C u7)" "keeps (set_stop u8)"
  "keeps (set_tool_choice u9)"
  by (auto simp: keeps_def set_string_def set_string_ptr_def set_int_def set_int_ptr_def set_float_ptr_def
      set_bool_ptr_def set_raw_def set_stop_def set_tool_choice_def mismatch_def
      split: json.splits sum.splits if_splits)

lemma keepsD: "keeps s \<Longrightarrow> s path j r (Some e) = Inr (r', saved) \<Longrightarrow> saved \<noteq> None"
  by (auto simp: keeps_def)

lemma set_fields_keeps:
  assumes "\<forall>f \<in> set fs. keeps (snd f)"
  shows "set_fields fs path kvs r (Some e) = Inr (r', saved) \<Longrightarrow> saved \<noteq> None"
proof (induction kvs arbitrary: r e)
  case (Cons kv kvs)
  obtain k v where kv: "kv = (k, v)" by fastforce
  show ?case
  proof (cases "find (\<lambda>f. fold_key (fst f) = fold_key k) fs")
    case None
    with Cons kv show ?thesis by auto
  next
    case (Some f)
    obtain n s where f: "f = (n, s)" by fastforce
    from Some f have "(n, s) \<in> set fs" by (auto simp: find_Some_iff)
    with assms have "keeps s" by auto
    with Cons kv Some f show ?thesis
      by (auto split: sum.splits prod.splits dest: keepsD)
  qed
qed auto

lemma set_struct_keeps: "\<forall>f \<in> set fs. keeps (snd f) \<Longrightarrow> keeps (set_struct ty fs)"
  by (auto simp: keeps_def [of "set_struct ty fs"] set_struct_def mismatch_def
      split: json.splits dest: set_fields_keeps)

lemma set_elements_keeps: "keeps s \<Longrightarrow> set_elements s z path js (Some e) = Inr (as, saved) \<Longrightarrow> saved \<noteq> None"
proof (induction js arbitrary: as e)
  case (Cons j js)
  then show ?case by (auto split: sum.splits prod.splits dest: keepsD)
qed auto

lemma set_list_keeps: "keeps s \<Longrightarrow> keeps (set_list ty s z upd)"
  by (auto simp: keeps_def [of "set_list ty s z upd"] set_list_def mismatch_def
      split: json.splits sum.splits prod.splits dest: set_elements_keeps)

lemma nested_keeps: "keeps s \<Longrightarrow> keeps (nested get put s)"
  by (auto simp: keeps_def [of "nested get put s"] nested_def split: sum.splits prod.splits dest: keepsD)

lemmas keeps_intros = set_struct_keeps set_list_keeps nested_keeps

lemma set_message_keeps: "keeps set_message"
  unfolding set_message_def set_call_def by (intro keeps_intros ballI) (auto intro!: keeps_intros)

lemma set_tool_keeps: "keeps (set_tool C)"
  unfolding set_tool_def by (intro keeps_intros ballI) (auto intro!: keeps_intros)

text \<open>An object decodes without an error only when each of its keys names a field.\<close>

lemma set_fields_known:
  assumes "\<forall>f \<in> set fs. keeps (snd f)" and "set_fields fs path kvs r None = Inr (r', None)"
  shows "\<forall>k \<in> fst ` set kvs. \<exists>f \<in> set fs. fold_key (fst f) = fold_key k"
  using assms(2)
proof (induction kvs arbitrary: r)
  case (Cons kv kvs)
  obtain k v where kv: "kv = (k, v)" by fastforce
  show ?case
  proof (cases "find (\<lambda>f. fold_key (fst f) = fold_key k) fs")
    case None
    with Cons kv set_fields_keeps [OF assms(1)] show ?thesis by fastforce
  next
    case (Some f)
    obtain n s where f: "f = (n, s)" by fastforce
    from Some f have nf: "(n, s) \<in> set fs" "fold_key n = fold_key k"
      using find_Some_iff [of "\<lambda>f. fold_key (fst f) = fold_key k" fs f] by (auto, metis fst_conv)
    from Cons.prems kv Some f obtain r1 saved where
      "s (path @ [n]) v r None = Inr (r1, saved)" "set_fields fs path kvs r1 saved = Inr (r', None)"
      by (auto split: sum.splits)
    moreover from this have "saved = None"
      using set_fields_keeps [OF assms(1)] by (cases saved) fastforce+
    moreover have "\<exists>f \<in> set fs. fold_key (fst f) = fold_key k"
      using nf by (intro bexI [of _ "(n, s)"]) auto
    ultimately show ?thesis using Cons.IH kv by auto
  qed
qed simp

definition schema :: "string list" where
  "schema = [''model'', ''messages'', ''max_tokens'', ''temperature'', ''top_p'', ''stop'', ''tools'',
     ''tool_choice'', ''n'', ''stream'']"

lemma request_known:
  assumes "set_request C path (JObj kvs) r None = Inr (r', None)"
  shows "\<forall>k \<in> fst ` set kvs. fold_key k \<in> set schema"
proof -
  have eq: "set_request C path (JObj kvs) r None = set_fields
     [(''model'', set_string (\<lambda>s. rw_Model_update (\<lambda>_. s))),
      (''messages'', set_list ''[]api.messageWire'' set_message zero_message (\<lambda>l. rw_Messages_update (\<lambda>_. l))),
      (''max_tokens'', set_int (\<lambda>n. rw_MaxTokens_update (\<lambda>_. n))),
      (''temperature'', set_float_ptr (\<lambda>q. rw_Temperature_update (\<lambda>_. q))),
      (''top_p'', set_float_ptr (\<lambda>q. rw_TopP_update (\<lambda>_. q))),
      (''stop'', set_stop (\<lambda>l. rw_Stop_update (\<lambda>_. l))),
      (''tools'', set_list ''[]api.toolWire'' (set_tool C) zero_tool (\<lambda>l. rw_Tools_update (\<lambda>_. l))),
      (''tool_choice'', set_tool_choice (\<lambda>t. rw_ToolChoice_update (\<lambda>_. t))),
      (''n'', set_int_ptr (\<lambda>n. rw_N_update (\<lambda>_. n))),
      (''stream'', set_bool_ptr (\<lambda>b. rw_Stream_update (\<lambda>_. b)))] path kvs r None"
    by (simp add: set_request_def set_struct_def)
  have "\<exists>f \<in> set [''model'', ''messages'', ''max_tokens'', ''temperature'', ''top_p'', ''stop'', ''tools'',
     ''tool_choice'', ''n'', ''stream'']. fold_key f = fold_key k" if "k \<in> fst ` set kvs" for k
    using set_fields_known [OF _ assms [unfolded eq]] that
    by (fastforce simp: set_list_keeps set_message_keeps set_tool_keeps)
  moreover have "fold_key f = f" if "f \<in> set schema" for f
    using that by (auto simp: schema_def lower_def lower_char_def)
  ultimately show ?thesis unfolding schema_def [symmetric] by metis
qed

text \<open>C28: What the edge lets through is the schema: every key of the body is a parameter the gateway
  supports, streaming and several choices are not asked for, the sampling knobs are in range,
  and in the domain request every message has one of the four roles, a tool's answer names its
  call, and only assistants carry calls.\<close>

theorem accepted_requests_conform:
  assumes "decodeChatRequest D ct limit body = Inr wire"
  shows "(case first_value D (take (nat limit) body) of
      Value (JObj kvs) \<Rightarrow> \<forall>k \<in> fst ` set kvs. fold_key k \<in> set schema
    | Value JNull \<Rightarrow> True | _ \<Rightarrow> False) \<and>
    rw_Stream wire \<noteq> Some True \<and> (rw_N wire = None \<or> rw_N wire = Some 1) \<and>
    (\<forall>t. Temperature (toDomain wire) = Some t \<longrightarrow> 0 \<le> t \<and> t \<le> 2) \<and>
    (\<forall>p. TopP (toDomain wire) = Some p \<longrightarrow> 0 \<le> p \<and> p \<le> 1) \<and>
    (\<forall>m \<in> set (Messages (toDomain wire)).
       Role m \<in> {RoleSystem, RoleUser, RoleAssistant, RoleTool} \<and>
       (Role m = RoleTool \<longrightarrow> ToolCallID m \<noteq> '''') \<and> (ToolCalls m \<noteq> [] \<longrightarrow> Role m = RoleAssistant)) \<and>
    (\<forall>t \<in> set (Tools (toDomain wire)). ToolName t \<noteq> '''')"
proof -
  from assms have d: "Decode D limit body = Inr wire" and r: "reject wire = None"
    by (auto simp: decodeChatRequest_def split: option.splits sum.splits)
  from d obtain j where j: "first_value D (take (nat limit) body) = Value j"
      "set_request (dec_codec D) [] j zero_request None = Inr (wire, None)"
    by (auto simp: Decode_def Let_def split: found.splits sum.splits prod.splits option.splits if_splits)
  have keys: "case j of JObj kvs \<Rightarrow> \<forall>k \<in> fst ` set kvs. fold_key k \<in> set schema | JNull \<Rightarrow> True | _ \<Rightarrow> False"
  proof (cases j)
    case (JObj kvs)
    with j(2) request_known show ?thesis by fastforce
  qed (use j(2) in \<open>simp_all add: set_request_def set_struct_def mismatch_def\<close>)
  from r have m: "reject_messages 0 (rw_Messages wire) = None" and t: "reject_tools 0 (rw_Tools wire) = None"
    and rest: "rw_Stream wire \<noteq> Some True" "rw_N wire = None \<or> rw_N wire = Some 1"
      "\<forall>t. rw_Temperature wire = Some t \<longrightarrow> 0 \<le> t \<and> t \<le> 2" "\<forall>p. rw_TopP wire = Some p \<longrightarrow> 0 \<le> p \<and> p \<le> 1"
    by (auto simp: reject_def split: if_splits option.splits)
  have "Role (message_toDomain m) \<in> {RoleSystem, RoleUser, RoleAssistant, RoleTool} \<and>
      (Role (message_toDomain m) = RoleTool \<longrightarrow> ToolCallID (message_toDomain m) \<noteq> '''') \<and>
      (ToolCalls (message_toDomain m) \<noteq> [] \<longrightarrow> Role (message_toDomain m) = RoleAssistant)"
    if "m \<in> set (rw_Messages wire)" for m
    using m that by (auto simp: reject_messages_None message_toDomain_def role_of_string_def)
  moreover have "ToolName t \<noteq> ''''" if "t \<in> set (Tools (toDomain wire))" for t
    using t that by (auto simp: reject_tools_None toDomain_def)
  ultimately show ?thesis
    using j(1) keys rest by (auto simp: toDomain_def split: json.splits)
qed

theorem accepted_requests_conform_witness:
  "list_all (\<lambda>m. Role m \<in> {RoleSystem, RoleUser, RoleAssistant, RoleTool})
     (Messages (toDomain (zero_request\<lparr>rw_Model := ''gpt'', rw_MaxTokens := 100,
       rw_Messages := [zero_message\<lparr>mw_Role := ''user'', mw_Content := Some ''hi''\<rparr>]\<rparr>)))"
  using accepted_requests_conform [OF demo_decodes] unfolding list_all_iff by blast

end
