(* ===== verification/Boot.thy ===== *)
theory Boot
  imports Otlp Health Config Router KeysProps Redis RedisClient ApiProps
begin

text \<open>
  \<open>cmd/gateway/main.go\<close>: the process put together. \<open>stores\<close> is what the adapters keep in
  memory, one field per object \<open>run\<close> allocates, beside the world outside; around it are the
  counters and the log (\<open>process\<close>). What the process reaches outside of itself is a record of
  functions, \<open>outside\<close>. Flags, signals and the goroutines' scheduling are not modelled: the
  refresh loops are \<^const>\<open>jwks_KeepFresh\<close> and \<^const>\<open>cache_KeepFresh\<close>, and \<open>run\<close> is split at the
  point where the server serves.
\<close>

section \<open>The world of the process\<close>

record 'e stores =
  st_jwks :: JWKSCache
  st_keys :: Cache
  st_vault :: Vault
  st_redis :: Client
  st_slots :: Limiter
  st_env :: 'e

record 'e outside =
  os_files :: "'e Files"
  fetch_web :: "fetch_client \<Rightarrow> 'e Web"
  vault_web :: "'e Web"
  http_client :: "'e Http"
  network :: "'e Net"
  url_parse :: "string \<Rightarrow> go_error + string \<times> string"
  host_port :: "string \<Rightarrow> go_error + string \<times> string"
  rsa :: crypto
  jose :: codec
  wall :: "'e \<Rightarrow> int"
  unix :: "'e \<Rightarrow> int"
  random_id :: "nat \<Rightarrow> 'e \<Rightarrow> string \<times> 'e"
  body_decoder :: decoder
  otlp_dial :: "string \<Rightarrow> go_error option"
  refused_names :: refusals

type_synonym 'e world = "'e stores process"

definition in_env :: "('e \<Rightarrow> 'r \<times> 'e) \<Rightarrow> 'e stores \<Rightarrow> 'r \<times> 'e stores" where
  "in_env f w = (let (r, e) = f (st_env w) in (r, w\<lparr>st_env := e\<rparr>))"

definition time_of :: "'e outside \<Rightarrow> 'e stores \<Rightarrow> int" where
  "time_of os w = wall os (st_env w)"

definition put_stores :: "('e stores \<Rightarrow> 'e stores) \<Rightarrow> 'e world \<Rightarrow> 'e world" where
  "put_stores f P = P\<lparr>base := f (base P)\<rparr>"

section \<open>Names\<close>

definition appNames :: "GatewayConfig \<Rightarrow> string list" where
  "appNames conf = map (AppName \<circ> snd) (AppTable (AuthPart conf))"

fun first_seen :: "string list \<Rightarrow> string list \<Rightarrow> string list" where
  "first_seen seen [] = []"
| "first_seen seen (x # xs) = (if x \<in> set seen then first_seen seen xs else x # first_seen (x # seen) xs)"

definition providerNames :: "GatewayConfig \<Rightarrow> string list" where
  "providerNames conf = first_seen [] (map Provider (ModelProviders (GatewayPart conf)))"

section \<open>Identity\<close>

definition directory_of :: "'e outside \<Rightarrow> AuthConfig \<Rightarrow> 'e stores AppDirectory" where
  "directory_of os ac c tok w = (AppForKey (rsa os) (jose os) ac (st_jwks w) (time_of os w) tok, w)"

definition newAppDirectory ::
  "'e outside \<Rightarrow> ctx \<Rightarrow> GatewayConfig \<Rightarrow> 'e world Checker \<Rightarrow> 'e world
     \<Rightarrow> (go_error + 'e world AppDirectory \<times> 'e world Checker) \<times> 'e world" where
  "newAppDirectory os c conf checker P =
     (case NewFetchClient (os_files os) DefaultServiceAccountDir (st_env (base P)) of
        Inl e \<Rightarrow> (Inl e, P)
      | Inr cl \<Rightarrow>
          let (verdict, P) = below (in_env (VerifyIssuer (fetch_web os cl) (url_parse os) c (JWKSURL conf)
                (Issuer (AuthPart conf)))) P;
              build = (\<lambda>P. case NewJWKSCache (JWKSURL conf) of
                  Inl e \<Rightarrow> (Inl e, P)
                | Inr keys \<Rightarrow>
                    (case NewDirectory (AuthPart conf) (Some keys) of
                       Some e \<Rightarrow> (Inl e, P)
                     | None \<Rightarrow>
                         (Inr (decorated_directory (\<lambda>c k. below (directory_of os (AuthPart conf) c k)),
                               AddReadiness ''jwks'' (reads (\<lambda>P. jwks_Ready (st_jwks (base P)))) checker),
                          put_stores (\<lambda>w. w\<lparr>st_jwks := keys\<rparr>) P)))
          in case verdict of
               None \<Rightarrow> build P
             | Some (ErrIssuerMismatch configured cluster) \<Rightarrow>
                 (Inl (ErrIssuerMismatch configured cluster),
                  to_journal (log_line LError ''configured issuer is not this cluster's''
                    [(''configured'', AStr configured), (''cluster'', AStr cluster)]) P)
             | Some e \<Rightarrow>
                 build (to_journal (log_line LWarn
                   ''could not verify the issuer against the cluster; a wrong issuer will surface as 401 for every caller''
                   [(''error'', AErr (Some e))]) P))"

section \<open>Providers\<close>

datatype fetcher_kind = FromVault Vault | FromFiles

definition newFetcher :: "SecretSource \<Rightarrow> go_error + fetcher_kind option" where
  "newFetcher src =
     (if SecretKind src = ''vault'' then
        (case NewVault \<lparr>VAddress = VCAddress (SecretVault src), VRole = VCRole (SecretVault src),
             VAuthPath = VCAuthPath (SecretVault src), VTokenPath = ''''\<rparr> of
           Inl e \<Rightarrow> Inl e | Inr v \<Rightarrow> Inr (Some (FromVault v)))
      else if SecretKind src = ''file'' then Inr (Some FromFiles)
      else Inr None)"

text \<open>How each kind fetches; a file is read where the process runs, Vault keeps its token.\<close>

fun fetcher_of :: "'e outside \<Rightarrow> fetcher_kind \<Rightarrow> 'e world Fetcher" where
  "fetcher_of os FromFiles c path P = below (in_env (file_Fetch (os_files os) c path)) P"
| "fetcher_of os (FromVault _) c path P =
     below (\<lambda>w. let (r, V, e) = vault_Fetch (vault_web os) (os_files os) c path (st_vault w, st_env w)
                in (r, w\<lparr>st_vault := V, st_env := e\<rparr>)) P"

definition no_fetcher :: "'w Fetcher" where
  "no_fetcher c path w = (Inl (ErrText ''no source to read''), w)"

text \<open>An operation on the cache, which lives in the world.\<close>

definition on_keys :: "(Cache \<times> 'e world \<Rightarrow> 'r \<times> Cache \<times> 'e world) \<Rightarrow> 'e world \<Rightarrow> 'r \<times> 'e world" where
  "on_keys f P = (let (r, C, P) = f (st_keys (base P), P) in (r, put_stores (\<lambda>w. w\<lparr>st_keys := C\<rparr>) P))"

text \<open>The refresher every background refresh goes through: metrics innermost, then the log.\<close>

definition watched_refresher :: "'e world Fetcher \<Rightarrow> ('e world \<Rightarrow> int) \<Rightarrow> 'e world Refresher" where
  "watched_refresher fetch clk = logged_KeyRefresh to_journal (metered_Refresh refreshM_update (cache_Refresh fetch clk))"

text \<open>The hook of the router: a rejected credential is evidence that the cache is stale.\<close>

definition on_rejected :: "('e world \<Rightarrow> int) \<Rightarrow> string \<Rightarrow> 'e world \<Rightarrow> 'e world" where
  "on_rejected clk p P =
     (let (started, P) = on_keys (\<lambda>(C, P). let (b, C) = TriggerRefresh p (clk P) (clk P) C in (b, C, P)) P
      in if started then
           triggerM_update (Trigger p)
             (to_journal (log_line LWarn ''provider refused our credential; refreshing out of band''
                [(''provider'', AStr p)]) P)
         else P)"

definition http_below :: "'e Http \<Rightarrow> 'e world Http" where
  "http_below h = \<lparr>bad_url = bad_url h, do_request = (\<lambda>c rq. below (in_env (do_request h c rq))),
     codec_of = codec_of h\<rparr>"

definition adapter_table :: "'e outside \<Rightarrow> (string \<times> 'e world ProviderClient option) list" where
  "adapter_table os =
     (let hc = http_below (http_client os); acc = cache_Key (\<lambda>P. st_keys (base P))
      in [(''openai'', Some (openai_Complete (NewOpenAI hc (Some hc) (Some (acc ''openai''))))),
          (''anthropic'', Some (anthropic_Complete (NewAnthropic hc (Some hc) (Some (acc ''anthropic''))))),
          (''ollama'', Some (ollama_Complete (NewOllama hc (Some hc) (acc ''ollama''))))])"

definition newProviderClient ::
  "'e outside \<Rightarrow> ctx \<Rightarrow> GatewayConfig \<Rightarrow> 'e world Checker \<Rightarrow> 'e world
     \<Rightarrow> (go_error + 'e world ProviderClient \<times> 'e world Checker) \<times> 'e world" where
  "newProviderClient os c conf checker P =
     (case newFetcher (SecretPart conf) of
        Inl e \<Rightarrow> (Inl e, P)
      | Inr kind \<Rightarrow>
          let fetch = map_option (fetcher_of os) kind; clk = (\<lambda>P. time_of os (base P));
              sources = map (\<lambda>(p, s). (p, \<lparr>Path = SPath s, SourceInterval = SInterval s\<rparr>))
                (SecretProviders (SecretPart conf))
          in case NewCache fetch sources of
               Inl e \<Rightarrow> (Inl e, P)
             | Inr C \<Rightarrow>
                 let P = put_stores (\<lambda>w. w\<lparr>st_keys := C,
                       st_vault := (case kind of Some (FromVault v) \<Rightarrow> v | _ \<Rightarrow> st_vault w)\<rparr>) P;
                     checker = AddReadiness ''provider-keys'' (reads (\<lambda>P. cache_Ready (st_keys (base P)))) checker;
                     (err, P) = on_keys (RefreshAll
                       (case fetch of None \<Rightarrow> no_fetcher | Some f \<Rightarrow> f) clk c) P;
                     P = (case err of None \<Rightarrow> P
                          | Some e \<Rightarrow> to_journal (log_line LWarn
                              ''initial provider key load incomplete; readiness gates until a source answers''
                              [(''error'', AErr (Some e))]) P)
                 in case NewRouter (adapter_table os) (Some (on_rejected clk)) of
                      Inl e \<Rightarrow> (Inl e, P)
                    | Inr R \<Rightarrow> (Inr (decorated_provider clk (router_Complete R), checker), P))"

section \<open>Limiters\<close>

definition redisPoolSize :: int where "redisPoolSize = 8"

definition redisOptions :: "'e Files \<Rightarrow> RedisConf \<Rightarrow> 'e \<Rightarrow> go_error + Options" where
  "redisOptions F rc e =
     (case (if RPasswordPath rc = '''' then Inr ''''
            else map_sum (ErrWrap ''read redis password'') trim_space (read_file F (RPasswordPath rc) e)) of
        Inl err \<Rightarrow> Inl err
      | Inr password \<Rightarrow>
          if RCAPath rc = '''' then Inr \<lparr>TLS = RTLS rc, RootCAs = None, Password = password\<rparr>
          else case read_file F (RCAPath rc) e of
            Inl err \<Rightarrow> Inl (ErrWrap ''read redis CA bundle'' err)
          | Inr pem \<Rightarrow>
              if \<not> usable_pem F pem then
                Inl (ErrText (''redis CA bundle '' @ RCAPath rc @ '' holds no certificate''))
              else Inr \<lparr>TLS = RTLS rc, RootCAs = Some pem, Password = password\<rparr>)"

text \<open>The client's \<open>Int\<close> and the semaphore as ports over the stores.\<close>

definition redis_Int :: "'e outside \<Rightarrow> 'e stores IntCall" where
  "redis_Int os c args w =
     (let (r, cl, e) = clientInt (network os) c args (st_redis w, st_env w)
      in (r, w\<lparr>st_redis := cl, st_env := e\<rparr>))"

definition slots_of :: "'e stores SlotLimiter" where
  "slots_of app w =
     (case TryAcquire app (st_slots w) of
        (Inr cap, l) \<Rightarrow> (Refused cap, w\<lparr>st_slots := l\<rparr>)
      | (Inl h, l) \<Rightarrow> (Granted (\<lambda>w. w\<lparr>st_slots := release h (st_slots w)\<rparr>), w\<lparr>st_slots := l\<rparr>))"

definition limit_map :: "(AppLimits \<Rightarrow> int) \<Rightarrow> GatewayConfig \<Rightarrow> string \<Rightarrow> int option" where
  "limit_map f conf app = map_option f (map_of (Limits conf) app)"

definition newLimiters ::
  "'e outside \<Rightarrow> GatewayConfig \<Rightarrow> 'e world
     \<Rightarrow> (go_error + 'e stores RedisLimiter \<times> 'e stores RedisLimiter) \<times> 'e world" where
  "newLimiters os conf P =
     (case redisOptions (os_files os) (RedisPart conf) (st_env (base P)) of
        Inl e \<Rightarrow> (Inl e, P)
      | Inr ropts \<Rightarrow>
          (case NewClient (host_port os) (RAddr (RedisPart conf)) redisPoolSize ropts of
             Inl e \<Rightarrow> (Inl e, P)
           | Inr cl \<Rightarrow>
               (Inr (NewRateLimiter (redis_Int os) (time_of os) (limit_map RPS conf),
                     NewTokenLimiter (redis_Int os) (time_of os) (limit_map TokensPerMinute conf)),
                put_stores (\<lambda>w. w\<lparr>st_redis := cl,
                  st_slots := NewLimiter (GlobalMaxInFlight conf) (limit_map LMaxInFlight conf)\<rparr>) P)))"

section \<open>The server\<close>

definition newServer ::
  "'e outside \<Rightarrow> ServerConfig \<Rightarrow> (ctx \<Rightarrow> string \<Rightarrow> ChatRequest \<Rightarrow> 'e world \<Rightarrow> (go_error + ChatResult) option \<times> 'e world)
     \<Rightarrow> 'e world Checker \<Rightarrow> go_error + 'e world Server \<times> ServerConfig" where
  "newServer os sc core checker =
     NewServer sc (Some (logged_Chat to_journal core))
       (Some (logged_Live (Live checker), logged_Ready to_journal (Ready checker)))
       [RequestLogger (\<lambda>P. time_of os (base P)) to_journal, RequestMetrics_Wrap requestM_update]
       [PanicLogger to_journal, PanicCounter_Wrap panicM_update]
       (\<lambda>n. below (in_env (random_id os n))) (\<lambda>P. unix os (st_env (base P))) (body_decoder os)"

text \<open>The core behind the server. The modelled core is total, so the server never sees it panic.\<close>

definition chat_of :: "'w Service \<Rightarrow> ctx \<Rightarrow> string \<Rightarrow> ChatRequest \<Rightarrow> 'w \<Rightarrow> (go_error + ChatResult) option \<times> 'w" where
  "chat_of s c k req w = (let (res, w) = Chat s c k req w in (Some res, w))"

section \<open>Instruments\<close>

definition after :: "go_error option \<times> 'a \<Rightarrow> ('a \<Rightarrow> go_error option \<times> 'a) \<Rightarrow> go_error option \<times> 'a" where
  "after r f = (case r of (Some e, a) \<Rightarrow> (Some e, a) | (None, a) \<Rightarrow> f a)"

definition registerMetrics ::
  "'e outside \<Rightarrow> GatewayConfig \<Rightarrow> string list \<Rightarrow> go_error option \<times> 'e world instrument list" where
  "registerMetrics os conf key_names =
     (let M = refused_names os; clk = (\<lambda>P. time_of os (base P))
      in after (after (after (after
           (RegisterGateway M dirM rateM tokenM slotM providerM usageM [])
           (RegisterProviderKeys M refreshM triggerM (\<lambda>P. st_keys (base P)) clk key_names))
           (RegisterAuth M (\<lambda>P. st_jwks (base P)) clk))
           (RegisterSlots M (\<lambda>P. st_slots (base P)) (map fst (Limits conf))))
           (RegisterAPI M requestM panicM))"

section \<open>\<open>run\<close>\<close>

definition failed :: "string \<Rightarrow> (go_error + 'a) \<times> 'e world \<Rightarrow> (go_error + 'a) \<times> 'e world" where
  "failed msg r =
     (case r of
        (Inl e, P) \<Rightarrow> (Inl e, to_journal (log_line LError msg [(''error'', AErr (Some e))]) P)
      | (Inr x, P) \<Rightarrow> (Inr x, P))"

definition bind_boot ::
  "(go_error + 'a) \<times> 'w \<Rightarrow> ('a \<Rightarrow> 'w \<Rightarrow> (go_error + 'b) \<times> 'w) \<Rightarrow> (go_error + 'b) \<times> 'w" where
  "bind_boot r f = (case r of (Inl e, w) \<Rightarrow> (Inl e, w) | (Inr x, w) \<Rightarrow> f x w)"

text \<open>The core as \<open>run\<close> builds it from what the constructors returned.\<close>

definition run_core ::
  "'e outside \<Rightarrow> GatewayConfig \<Rightarrow> 'e world AppDirectory \<Rightarrow> 'e stores RedisLimiter \<Rightarrow> 'e stores RedisLimiter
     \<Rightarrow> 'e world ProviderClient \<Rightarrow> go_error + 'e world Service" where
  "run_core os conf dir rate budget prov =
     New (\<lambda>P. time_of os (base P)) (GatewayPart conf)
       (newDeps dir (\<lambda>c a. below (Allow rate c a)) (\<lambda>c a. below (Check budget c a))
         (\<lambda>c a n. below (Settle budget c a n)) (slots_below slots_of) prov)"

text \<open>From the loaded configuration to the server about to start. The world it starts from holds
  the counters as they are built and nothing in the stores.\<close>

definition boot ::
  "'e outside \<Rightarrow> ctx \<Rightarrow> string \<Rightarrow> GatewayConfig \<Rightarrow> 'e world
     \<Rightarrow> (go_error + 'e world Server \<times> ServerConfig \<times> 'e world instrument list) \<times> 'e world" where
  "boot os c path conf P =
     bind_boot (failed ''failed to build app directory'' (newAppDirectory os c conf NewChecker P)) (\<lambda>(dir, checker) P.
     bind_boot (failed ''failed to build provider client'' (newProviderClient os c conf checker P)) (\<lambda>(prov, checker) P.
     bind_boot (failed ''failed to build limiters'' (newLimiters os conf P)) (\<lambda>(rate, budget) P.
     bind_boot (failed ''failed to build gateway core'' (run_core os conf dir rate budget prov, P)) (\<lambda>core P.
     bind_boot (failed ''failed to build metrics exporter''
        (NewProvider (otlp_dial os) (OTLPEndpoint conf), P)) (\<lambda>_ P.
     bind_boot (failed ''failed to register metrics instruments''
        ((case registerMetrics os conf (ProviderKeys.Providers (st_keys (base P))) of
            (Some e, _) \<Rightarrow> Inl e | (None, is) \<Rightarrow> Inr is), P)) (\<lambda>is P.
     bind_boot (failed ''failed to build server'' (newServer os (ServerPart conf) (chat_of core) checker, P)) (\<lambda>(srv, sc) P.
       (Inr (srv, sc, is), to_journal (log_line LInfo ''gateway started''
          [(''listen'', AStr (sc_Addr (ServerPart conf))), (''issuer'', AStr (Issuer (AuthPart conf))),
           (''config'', AStr path)]) P))))))))"

text \<open>What ends \<open>run\<close>: the server's own return, or a signal, after which the server drains and the
  exporter flushes.\<close>

definition defaultDrainTimeout :: int where "defaultDrainTimeout = 100 * Second"
definition drainGrace :: int where "drainGrace = 10 * Second"

definition drain_timeout :: "GatewayConfig \<Rightarrow> int" where
  "drain_timeout conf =
     (if sc_WriteTimeout (ServerPart conf) > 0 then i64 (sc_WriteTimeout (ServerPart conf) + drainGrace)
      else defaultDrainTimeout)"

datatype ending = Served "go_error option" | Signalled

definition run_end ::
  "(ctx \<Rightarrow> 'e world \<Rightarrow> go_error option \<times> 'e world) \<Rightarrow> (ctx \<Rightarrow> 'e world \<Rightarrow> go_error option \<times> 'e world)
     \<Rightarrow> 'e outside \<Rightarrow> GatewayConfig \<Rightarrow> ending \<Rightarrow> 'e world \<Rightarrow> go_error option \<times> 'e world" where
  "run_end shutdown flush os conf ending P =
     (case ending of
        Served err \<Rightarrow> (err, P)
      | Signalled \<Rightarrow>
          let P = to_journal (log_line LInfo ''shutdown initiated'' []) P;
              c = with_timeout background (time_of os (base P)) (drain_timeout conf)
          in case shutdown c P of
               (Some e, P) \<Rightarrow> (Some e, to_journal (log_line LError ''graceful shutdown failed'' [(''error'', AErr (Some e))]) P)
             | (None, P) \<Rightarrow>
                 (case flush c P of
                    (Some e, P) \<Rightarrow> (None, to_journal (log_line LInfo ''gateway stopped'' [])
                       (to_journal (log_line LError ''metrics exporter shutdown failed'' [(''error'', AErr (Some e))]) P))
                  | (None, P) \<Rightarrow> (None, to_journal (log_line LInfo ''gateway stopped'' []) P)))"

text \<open>
  \<open>run\<close> as a whole. The server runs beside \<open>run\<close> itself, so what happens between the start and
  the end is the argument \<open>life\<close>: from the server and the world it starts in to how the wait ended
  (a signal, or what \<^const>\<open>Start\<close> returned) and the world then. The exit code is \<open>main\<close>'s.
\<close>

definition run ::
  "'e outside \<Rightarrow> (string \<Rightarrow> go_error + 's) \<Rightarrow> ('s \<Rightarrow> go_error + wire) \<Rightarrow> 'e world listener
     \<Rightarrow> (ctx \<Rightarrow> 'e world \<Rightarrow> go_error option \<times> 'e world)
     \<Rightarrow> ('e world Server \<Rightarrow> ServerConfig \<Rightarrow> 'e world \<Rightarrow> ending \<times> 'e world)
     \<Rightarrow> ctx \<Rightarrow> string \<Rightarrow> 'e stores \<Rightarrow> go_error option \<times> 'e world" where
  "run os open_file decode N flush life c path w =
     (case Load open_file decode path of
        Inl e \<Rightarrow> (Some e, to_journal (log_line LError ''failed to load config''
                   [(''path'', AStr path), (''error'', AErr (Some e))]) (new_process [] [] w))
      | Inr conf \<Rightarrow>
          (case boot os c path conf (new_process (appNames conf) (providerNames conf) w) of
             (Inl e, P) \<Rightarrow> (Some e, P)
           | (Inr (srv, sc, is), P) \<Rightarrow>
               (case life srv sc P of (how, P) \<Rightarrow> run_end (Shutdown N) flush os conf how P)))"

definition exit_code :: "go_error option \<Rightarrow> int" where
  "exit_code r = (case r of None \<Rightarrow> 0 | Some _ \<Rightarrow> 1)"

end
