(* ===== verification/BootProps.thy ===== *)
theory BootProps
  imports Boot
begin

text \<open>
  The process as a whole: what makes it boot, what holds its traffic back, that its edge is the
  one the properties of the edge are about, and that every response is counted.
\<close>

section \<open>The assembled server\<close>

text \<open>The decorators of the two seams only watch.\<close>

definition log_watcher :: "('w \<Rightarrow> int) \<Rightarrow> 'w logger \<Rightarrow> 'w watcher" where
  "log_watcher clk lg r st rs p w =
     (if p then w else lg (log_line LInfo ''request served''
             [(''method'', AStr (rq_method r)), (''path'', AStr (rq_path r)),
              (''status'', ANum (logged_status (snd st) rs)),
              (''duration_ms'', ANum ((clk w - clk (fst st)) sdiv 1000000)),
              (''correlation_id'', AStr (header_get ''X-Correlation-ID'' (rs_headers rs)))]) w)"

definition count_watcher :: "(request_counts, 'w) tick \<Rightarrow> 'w watcher" where
  "count_watcher tick r st rs p w =
     (if p then w else tick (count_response (recorded_status (snd st) rs)) w)"

definition panic_watcher :: "'w logger \<Rightarrow> 'w watcher" where
  "panic_watcher lg r st rs p w =
     (if p then lg (log_line LError ''handler panicked''
             [(''panic'', AOpaque),
              (''correlation_id'', AStr (header_get ''X-Correlation-ID'' (rs_headers rs))),
              (''stack'', AOpaque)]) w else w)"

definition panic_counter :: "(int, 'w) tick \<Rightarrow> 'w watcher" where
  "panic_counter tick r st rs p w = (if p then tick (\<lambda>n. i64 (n + 1)) w else w)"

lemma seams_watch:
  "RequestLogger clk lg = observing (log_watcher clk lg)"
  "RequestMetrics_Wrap tick = observing (count_watcher tick)"
  "PanicLogger lg = observing (panic_watcher lg)"
  "PanicCounter_Wrap tick' = observing (panic_counter tick')"
  by (simp_all add: fun_eq_iff RequestLogger_def RequestMetrics_Wrap_def PanicLogger_def PanicCounter_Wrap_def
      observing_def log_watcher_def count_watcher_def panic_watcher_def panic_counter_def
      split: prod.split bool.split)

text \<open>What \<open>newServer\<close> builds, without its seams.\<close>

definition plain_server ::
  "'e outside \<Rightarrow> ServerConfig \<Rightarrow> (ctx \<Rightarrow> string \<Rightarrow> ChatRequest \<Rightarrow> 'e world \<Rightarrow> (go_error + ChatResult) option \<times> 'e world)
     \<Rightarrow> 'e world Checker \<Rightarrow> 'e world Server" where
  "plain_server os sc core checker =
     \<lparr>sv_chat = logged_Chat to_journal core, sv_live = logged_Live (Live checker),
      sv_ready = logged_Ready to_journal (Ready checker), sv_requestMW = [], sv_panicMW = [],
      sv_maxBodyBytes = sc_MaxBodyBytes (with_defaults sc), sv_random = (\<lambda>n. below (in_env (random_id os n))),
      sv_unix = (\<lambda>P. unix os (st_env (base P))), sv_decoder = body_decoder os\<rparr>"

lemma newServer_edge: "newServer os sc core checker =
    Inr (edge (plain_server os sc core checker)
      [log_watcher (\<lambda>P. time_of os (base P)) to_journal, count_watcher requestM_update]
      [panic_watcher to_journal, panic_counter panicM_update], with_defaults sc)"
  by (simp add: newServer_def NewServer_def plain_server_def edge_def seams_watch)

section \<open>What a boot builds\<close>

lemma failed_simps [simp]:
  "failed msg (Inr x, P) = (Inr x, P)"
  "failed msg (Inl e, P) = (Inl e, to_journal (log_line LError msg [(''error'', AErr (Some e))]) P)"
  by (simp_all add: failed_def)

lemma bind_boot_simps [simp]:
  "bind_boot (Inl e, w) f = (Inl e, w)" "bind_boot (Inr x, w) f = f x w"
  by (simp_all add: bind_boot_def)

lemma bind_boot_Inr:
  "bind_boot (failed msg r) f = (Inr y, Q) \<Longrightarrow> \<exists>x P. r = (Inr x, P) \<and> f x P = (Inr y, Q)"
  by (cases r; cases "fst r") (auto simp: bind_boot_def failed_def)

lemma boot_built:
  assumes "boot os c path conf P = (Inr (srv, sc, is), Q)"
  obtains dir ck1 P1 prov ck2 P2 rate budget P3 core where
    "newAppDirectory os c conf NewChecker P = (Inr (dir, ck1), P1)"
    "newProviderClient os c conf ck1 P1 = (Inr (prov, ck2), P2)"
    "newLimiters os conf P2 = (Inr (rate, budget), P3)"
    "run_core os conf dir rate budget prov = Inr core"
    "registerMetrics os conf (ProviderKeys.Providers (st_keys (base P3))) = (None, is)"
    "newServer os (ServerPart conf) (chat_of core) ck2 = Inr (srv, sc)"
  using assms unfolding boot_def
  by (auto dest!: bind_boot_Inr split: option.splits prod.splits)

lemma directory_built:
  assumes "newAppDirectory os c conf ck P = (Inr (dir, ck1), P1)"
  shows "dir = decorated_directory (\<lambda>c k. below (directory_of os (AuthPart conf) c k)) \<and>
    ck1 = AddReadiness ''jwks'' (reads (\<lambda>P. jwks_Ready (st_jwks (base P)))) ck"
  using assms
  by (auto simp: newAppDirectory_def Let_def split: sum.splits prod.splits option.splits go_error.splits)

lemma provider_built:
  assumes "newProviderClient os c conf ck P = (Inr (prov, ck2), P2)"
  obtains R where "prov = decorated_provider (\<lambda>P. time_of os (base P)) (router_Complete R)"
    "NewRouter (adapter_table os) (Some (on_rejected (\<lambda>P. time_of os (base P)))) = Inr R"
    "ck2 = AddReadiness ''provider-keys'' (reads (\<lambda>P. cache_Ready (st_keys (base P)))) ck"
proof -
  obtain kind where kind: "newFetcher (SecretPart conf) = Inr kind"
    using assms by (cases "newFetcher (SecretPart conf)") (auto simp: newProviderClient_def)
  let ?fetch = "map_option (fetcher_of os) kind"
  let ?sources = "map (\<lambda>(p, s). (p, \<lparr>Path = SPath s, SourceInterval = SInterval s\<rparr>)) (SecretProviders (SecretPart conf))"
  obtain C where C: "NewCache ?fetch ?sources = Inr C"
    using assms kind by (cases "NewCache ?fetch ?sources") (auto simp: newProviderClient_def Let_def)
  show thesis
  proof (cases "NewRouter (adapter_table os) (Some (on_rejected (\<lambda>P. time_of os (base P))))")
    case (Inl e)
    with assms kind C show thesis by (simp add: newProviderClient_def Let_def split_beta)
  next
    case (Inr R)
    with assms kind C show thesis by (intro that [of R]) (simp_all add: newProviderClient_def Let_def split_beta)
  qed
qed

text \<open>The readiness conditions of a booted process, in the order they were added.\<close>

lemma checker_built:
  assumes "boot os c path conf P = (Inr (srv, sc, is), Q)"
  obtains core where "srv = edge (plain_server os (ServerPart conf) (chat_of core)
      (map (\<lambda>(n, f). (n, reads f))
        [(''jwks'', \<lambda>P. jwks_Ready (st_jwks (base P))), (''provider-keys'', \<lambda>P. cache_Ready (st_keys (base P)))]))
      [log_watcher (\<lambda>P. time_of os (base P)) to_journal, count_watcher requestM_update]
      [panic_watcher to_journal, panic_counter panicM_update]" "sc = with_defaults (ServerPart conf)"
proof -
  from assms obtain dir ck1 P1 prov ck2 P2 rate budget P3 core where
    d: "newAppDirectory os c conf NewChecker P = (Inr (dir, ck1), P1)"
    and p: "newProviderClient os c conf ck1 P1 = (Inr (prov, ck2), P2)"
    and s: "newServer os (ServerPart conf) (chat_of core) ck2 = Inr (srv, sc)"
    by (rule boot_built)
  from directory_built [OF d] have "ck1 = [(''jwks'', reads (\<lambda>P. jwks_Ready (st_jwks (base P))))]"
    by (simp add: AddReadiness_def NewChecker_def)
  moreover obtain R where "ck2 = AddReadiness ''provider-keys'' (reads (\<lambda>P. cache_Ready (st_keys (base P)))) ck1"
    by (rule provider_built [OF p])
  ultimately have "ck2 = map (\<lambda>(n, f). (n, reads f))
        [(''jwks'', \<lambda>P. jwks_Ready (st_jwks (base P))), (''provider-keys'', \<lambda>P. cache_Ready (st_keys (base P)))]"
    by (simp add: AddReadiness_def)
  with s that show thesis by (auto simp: newServer_edge)
qed

section \<open>Probes\<close>

definition get :: "string \<Rightarrow> Request \<Rightarrow> Request" where
  "get path r = r\<lparr>rq_method := ''GET'', rq_path := path\<rparr>"

lemma get_simps [simp]:
  "rq_method (get p r) = ''GET''" "rq_path (get p r) = p" "rq_headers (get p r) = rq_headers r"
  "rq_ctx (get p r) = rq_ctx r"
  by (simp_all add: get_def)

lemma answer_ops:
  assumes "\<And>rq w rs. fst (h rq (w, rs)) = False"
  shows "snd (snd (ops (edge s fs gs) h r (w, empty_response))) =
    snd (snd (h (r\<lparr>rq_correlation := correlation s r w\<rparr>) (drawn s r w, started s r w)))"
proof -
  let ?r = "r\<lparr>rq_correlation := correlation s r w\<rparr>" and ?st = "(drawn s r w, started s r w)"
  have "ops (edge s fs gs) h r (w, empty_response) = recoverPanic (spliced (map observing gs) h) ?r ?st"
    by (simp add: ops_def correlationID_def correlation_def drawn_def started_def maxCorrelationIDLength_def
        Let_def split: prod.split)
  moreover obtain w1 where "spliced (map observing gs) h ?r ?st = (fst (h ?r ?st), w1, snd (snd (h ?r ?st)))"
    using spliced_observing [of gs h ?r ?st] by blast
  ultimately show ?thesis using assms by (simp add: recoverPanic_def)
qed

lemma probe_status:
  "rs_status (answer (edge s fs gs) (get ''/readyz'' r) w) =
     Some (if fst (sv_ready s (rq_ctx r) (drawn s r w)) = None then 200 else 503)"
  "rs_status (answer (edge s fs gs) (get ''/healthz'' r) w) =
     Some (if fst (sv_live s (drawn s r w)) = None then 200 else 503)"
proof -
  have d: "drawn s (get p r) w = drawn s r w" for p by (simp add: drawn_def)
  have e: "sv_ready (edge s fs gs) = sv_ready s" "sv_live (edge s fs gs) = sv_live s"
    by (simp_all add: edge_def)
  have r: "rs_status (started s q w) = None" for q by simp
  have "fst (handleReadyz (edge s fs gs) rq (x, rs)) = False" for rq x rs
    by (simp add: handleReadyz_def e split: prod.split option.split)
  from answer_ops [of "handleReadyz (edge s fs gs)", OF this, of s fs gs "get ''/readyz'' r" w]
  show "rs_status (answer (edge s fs gs) (get ''/readyz'' r) w) =
     Some (if fst (sv_ready s (rq_ctx r) (drawn s r w)) = None then 200 else 503)"
    by (cases "sv_ready s (rq_ctx r) (drawn s r w)"; cases "fst (sv_ready s (rq_ctx r) (drawn s r w))")
      (simp_all add: answer_def ServeHTTP_def handleReadyz_def e d Let_def)
  have "fst (handleHealthz (edge s fs gs) rq (x, rs)) = False" for rq x rs
    by (simp add: handleHealthz_def e split: prod.split option.split)
  from answer_ops [of "handleHealthz (edge s fs gs)", OF this, of s fs gs "get ''/healthz'' r" w]
  show "rs_status (answer (edge s fs gs) (get ''/healthz'' r) w) =
     Some (if fst (sv_live s (drawn s r w)) = None then 200 else 503)"
    by (cases "sv_live s (drawn s r w)"; cases "fst (sv_live s (drawn s r w))")
      (simp_all add: answer_def ServeHTTP_def handleHealthz_def e d Let_def)
qed

text \<open>A condition of the process that only reads: what readiness answers.\<close>

lemma logged_Ready_reads: "fst (logged_Ready lg (Ready (map (\<lambda>(n, f). (n, reads f)) fs)) c w) = None \<longleftrightarrow>
    list_all (\<lambda>(n, f). f w = None) fs"
  using Ready_None_iff [of fs c w] Ready_reads [of fs c w]
  by (auto simp: logged_Ready_def split: prod.splits option.splits)

lemma drawn_stores: "st_jwks (base (drawn (plain_server os sc core ck) r W)) = st_jwks (base W)"
  "st_keys (base (drawn (plain_server os sc core ck) r W)) = st_keys (base W)"
  by (simp_all add: drawn_def plain_server_def below_def in_env_def Let_def split: prod.split)

text \<open>C36: Readiness is what the two credential caches say and nothing else, and liveness is
  unconditional. In a booted process \<open>/readyz\<close> answers 200 when signing keys are loaded and some
  provider credential is (or none is configured) and 503 otherwise, while \<open>/healthz\<close> always
  answers 200: a dependency that is down drains the pod and never restarts it.\<close>

theorem readiness_gate:
  assumes "boot os c path conf P = (Inr (srv, sc, is), Q)"
  shows "rs_status (answer srv (get ''/readyz'' r) W) =
      Some (if jwks_keys (st_jwks (base W)) \<noteq> [] \<and> cache_Ready (st_keys (base W)) = None then 200 else 503) \<and>
    rs_status (answer srv (get ''/healthz'' r) W) = Some 200"
proof -
  let ?fs = "[(''jwks'', \<lambda>P. jwks_Ready (st_jwks (base P))), (''provider-keys'', \<lambda>P. cache_Ready (st_keys (base P)))]"
  from assms obtain core where srv: "srv = edge (plain_server os (ServerPart conf) (chat_of core)
      (map (\<lambda>(n, f). (n, reads f)) ?fs))
      [log_watcher (\<lambda>P. time_of os (base P)) to_journal, count_watcher requestM_update]
      [panic_watcher to_journal, panic_counter panicM_update]"
    by (rule checker_built)
  let ?s = "plain_server os (ServerPart conf) (chat_of core) (map (\<lambda>(n, f). (n, reads f)) ?fs)"
  have ready: "sv_ready ?s = logged_Ready to_journal (Ready (map (\<lambda>(n, f). (n, reads f)) ?fs))"
    by (simp add: plain_server_def)
  have live: "sv_live (plain_server os sc core ck) V = (None, V)" for sc core ck V
    by (simp add: plain_server_def logged_Live_def Live_def)
  have "fst (sv_ready ?s (rq_ctx r) (drawn ?s r W)) = None \<longleftrightarrow>
      jwks_keys (st_jwks (base W)) \<noteq> [] \<and> cache_Ready (st_keys (base W)) = None"
    unfolding ready logged_Ready_reads by (simp add: drawn_stores jwks_Ready_def)
  then show ?thesis unfolding srv probe_status by (simp add: live)
qed

section \<open>What a boot needs\<close>

definition instrument_names :: "string list" where
  "instrument_names =
     [''gateway_key_resolved_total'', ''gateway_key_refused_total'', ''gateway_ratelimit_allowed_total'',
      ''gateway_ratelimit_denied_total'', ''gateway_ratelimit_fail_open_total'',
      ''gateway_token_budget_allowed_total'', ''gateway_token_budget_denied_total'',
      ''gateway_token_budget_fail_open_total'', ''gateway_tokens_debited_total'',
      ''gateway_token_debit_failed_total'', ''gateway_slots_acquired_total'',
      ''concurrency_limit_rejections_total'', ''provider_attempts_total'', ''provider_failures_total'',
      ''llm_completions_total'', ''llm_failed_overs_total'', ''llm_prompt_tokens_total'',
      ''llm_completion_tokens_total'', ''gateway_rejections_total'',
      ''gateway_ratelimit_fail_open_admitted_total'', ''double_spend_risk_total'',
      ''client_disconnects_total'', ''unobserved_spend_tokens_estimate'',
      ''provider_key_refresh_total'', ''provider_key_refresh_failures_total'',
      ''provider_key_refresh_triggered_total'', ''provider_key_age_seconds'', ''jwks_cache_age_seconds'',
      ''in_flight'', ''http_requests_total'', ''http_server_errors_total'', ''http_panics_total'']"

definition issuer_refused :: "'e outside \<Rightarrow> ctx \<Rightarrow> GatewayConfig \<Rightarrow> fetch_client \<Rightarrow> 'e \<Rightarrow> bool" where
  "issuer_refused os c conf cl e \<longleftrightarrow>
     (case fst (VerifyIssuer (fetch_web os cl) (url_parse os) c (JWKSURL conf) (Issuer (AuthPart conf)) e) of
        Some (ErrIssuerMismatch _ _) \<Rightarrow> True | _ \<Rightarrow> False)"

text \<open>The conditions on the configuration, the cluster's own word, and the files of the host: those of
  the ServiceAccount as they are at the start (\<open>e\<close>), those of the quota store as they are when its
  turn comes (\<open>e'\<close>), after the identity chain and the first load of the credentials. What the
  cluster, the secret store, the quota store and the providers answer, the cluster's naming of
  another issuer aside, is not among them.\<close>

definition bootable :: "'e outside \<Rightarrow> ctx \<Rightarrow> GatewayConfig \<Rightarrow> 'e \<Rightarrow> 'e \<Rightarrow> bool" where
  "bootable os c conf e e' \<longleftrightarrow>
     (case NewFetchClient (os_files os) DefaultServiceAccountDir e of
        Inl _ \<Rightarrow> False | Inr cl \<Rightarrow> \<not> issuer_refused os c conf cl e) \<and>
     JWKSURL conf \<noteq> '''' \<and> Issuer (AuthPart conf) \<noteq> '''' \<and> AudienceName (AuthPart conf) \<noteq> '''' \<and>
     AppTable (AuthPart conf) \<noteq> [] \<and>
     (case redisOptions (os_files os) (RedisPart conf) e' of Inl _ \<Rightarrow> False | Inr _ \<Rightarrow> True) \<and>
     RAddr (RedisPart conf) \<noteq> '''' \<and> (case host_port os (RAddr (RedisPart conf)) of Inl _ \<Rightarrow> False | Inr _ \<Rightarrow> True) \<and>
     0 < PerTryDeadline (GatewayPart conf) \<and> PerTryDeadline (GatewayPart conf) < TotalDeadline (GatewayPart conf) \<and>
     otlp_dial os (OTLPEndpoint conf) = None \<and> list_all (\<lambda>n. refused_names os n = None) instrument_names"

definition quota_env :: "'e outside \<Rightarrow> ctx \<Rightarrow> GatewayConfig \<Rightarrow> 'e world \<Rightarrow> 'e" where
  "quota_env os c conf P =
     st_env (base (snd (newProviderClient os c conf NewChecker (snd (newAppDirectory os c conf NewChecker P)))))"

lemma provider_checker:
  "snd (newProviderClient os c conf ck P) = snd (newProviderClient os c conf ck' P)"
  by (simp add: newProviderClient_def Let_def split_beta split: sum.split)

lemma register_all:
  "list_all (\<lambda>i. M (in_name i) = None) is \<Longrightarrow> register M is acc = (None, acc @ is)"
  by (induction "is" arbitrary: acc) auto

lemma register_refused:
  "\<not> list_all (\<lambda>i. M (in_name i) = None) is \<Longrightarrow> fst (register M is acc) \<noteq> None"
  by (induction "is" arbitrary: acc) (auto split: option.splits)

lemma after_register: "after (register M is acc) (register M js) = register M (is @ js) acc"
  by (simp add: after_def register_append)

text \<open>All the instruments of the process, in the order they are registered.\<close>

definition process_instruments :: "'e outside \<Rightarrow> GatewayConfig \<Rightarrow> string list \<Rightarrow> 'e world instrument list" where
  "process_instruments os conf ks =
     gateway_instruments dirM rateM tokenM slotM providerM usageM @
     key_instruments refreshM triggerM (\<lambda>P. st_keys (base P)) (\<lambda>P. time_of os (base P)) ks @
     auth_instruments (\<lambda>P. st_jwks (base P)) (\<lambda>P. time_of os (base P)) @
     slots_instruments (\<lambda>P. st_slots (base P)) (map fst (Limits conf)) @
     api_instruments requestM panicM"

lemma registerMetrics_all: "registerMetrics os conf ks = register (refused_names os) (process_instruments os conf ks) []"
  by (simp add: registerMetrics_def RegisterGateway_def RegisterProviderKeys_def RegisterAuth_def
      RegisterSlots_def RegisterAPI_def after_register process_instruments_def Let_def)

lemma process_names: "map in_name (process_instruments os conf ks) = instrument_names"
  by (simp add: process_instruments_def gateway_instruments_def directory_instruments_def rate_instruments_def
      token_instruments_def slot_instruments_def provider_instruments_def usage_instruments_def
      key_instruments_def auth_instruments_def slots_instruments_def api_instruments_def
      instrument_names_def counting_instrument_def gauge_def)

lemma registerMetrics_iff:
  "(\<exists>is. registerMetrics os conf ks = (None, is)) \<longleftrightarrow> list_all (\<lambda>n. refused_names os n = None) instrument_names"
  using register_all [of "refused_names os" "process_instruments os conf ks" "[]"]
    register_refused [of "refused_names os" "process_instruments os conf ks" "[]"]
  unfolding registerMetrics_all process_names [of os conf ks, symmetric]
  by (cases "list_all (\<lambda>i. refused_names os (in_name i) = None) (process_instruments os conf ks)")
    (auto simp: list.pred_map comp_def)

text \<open>The secret source of an accepted file can always be built.\<close>

lemma load_secrets_paths:
  "load_secrets ps dflt routed names acc = Inr S \<Longrightarrow> list_all (\<lambda>(p, s). SPath s \<noteq> '''') acc \<Longrightarrow>
     list_all (\<lambda>(p, s). SPath s \<noteq> '''') S"
proof (induction names arbitrary: acc)
  case (Cons n names)
  let ?v = "(the (map_of ps n))\<lparr>SInterval := (if SInterval (the (map_of ps n)) = 0 then dflt
      else SInterval (the (map_of ps n)))\<rparr>"
  from Cons.prems have l: "load_secrets ps dflt routed names (AList.update n ?v acc) = Inr S"
    and p: "SPath ?v \<noteq> ''''"
    by (auto simp: Let_def split: if_splits)
  have "list_all (\<lambda>(p, s). SPath s \<noteq> '''') (AList.update n ?v acc)"
    using Cons.prems(2) p by (induction acc) auto
  with l show ?case by (rule Cons.IH)
qed simp

lemma secrets_buildable:
  assumes "secrets_toDomain w routed = Inr S"
  shows "\<exists>k. newFetcher S = Inr k \<and>
    (\<exists>C. NewCache (map_option (fetcher_of os) k)
       (map (\<lambda>(p, s). (p, \<lparr>Path = SPath s, SourceInterval = SInterval s\<rparr>)) (SecretProviders S)) = Inr C)"
proof -
  let ?block = "if SBlockInterval w = 0 then defaultRefreshInterval else SBlockInterval w"
  from assms have l: "load_secrets (SProviders w) ?block routed (sort (map fst (SProviders w))) [] = Inr (SecretProviders S)"
    and k: "SecretKind S = SKind w" "SKind w = '''' \<Longrightarrow> SProviders w = []"
    and v: "SKind w = ''vault'' \<Longrightarrow> VCAddress (SecretVault S) \<noteq> '''' \<and> VCRole (SecretVault S) \<noteq> '''' \<and>
      VCAuthPath (SecretVault S) \<noteq> ''''"
    and kinds: "SKind w \<in> {'''', ''file'', ''vault''}"
    by (auto simp: secrets_toDomain_def Let_def defaultVaultAuthPath_def split: if_splits sum.splits)
  have paths: "list_all (\<lambda>(p, s). SPath s \<noteq> '''') (SecretProviders S)"
    using load_secrets_paths [OF l] by simp
  have fill: "list_all (\<lambda>(p, s). Path s \<noteq> '''') srcs \<Longrightarrow> \<exists>C'. fill_entries srcs C = Inr C'" for srcs C
    by (induction srcs arbitrary: C) auto
  have "list_all (\<lambda>(p, s). Path s \<noteq> '''')
      (map (\<lambda>(p, s). (p, \<lparr>Path = SPath s, SourceInterval = SInterval s\<rparr>)) (SecretProviders S))"
    using paths by (induction "SecretProviders S") (auto simp: list_all_iff)
  note fill = fill [OF this]
  show ?thesis
  proof (cases "SKind w = ''''")
    case True
    with k l have "SecretProviders S = []" "newFetcher S = Inr None" by (simp_all add: newFetcher_def)
    then show ?thesis by (simp add: NewCache_def)
  next
    case False
    with kinds v k(1) obtain k' where "newFetcher S = Inr (Some k')"
      by (auto simp: newFetcher_def NewVault_def)
    with fill show ?thesis by (simp add: NewCache_def)
  qed
qed

lemma router_buildable: "\<exists>R. NewRouter (adapter_table os) (Some h) = Inr R"
  by (simp add: adapter_table_def NewRouter_def Let_def)

lemma provider_builds:
  assumes "secrets_toDomain w routed = Inr (SecretPart conf)"
  shows "\<exists>x. fst (newProviderClient os c conf ck P) = Inr x"
proof -
  from secrets_buildable [OF assms, of os] obtain k C where
    k: "newFetcher (SecretPart conf) = Inr k" and C: "NewCache (map_option (fetcher_of os) k)
       (map (\<lambda>(p, s). (p, \<lparr>Path = SPath s, SourceInterval = SInterval s\<rparr>)) (SecretProviders (SecretPart conf))) = Inr C"
    by blast
  obtain R where "NewRouter (adapter_table os) (Some (on_rejected (\<lambda>P. time_of os (base P)))) = Inr R"
    using router_buildable by blast
  with k C show ?thesis by (simp add: newProviderClient_def Let_def split_beta)
qed

definition ok :: "(go_error + 'a) \<times> 'w \<Rightarrow> bool" where
  "ok r \<longleftrightarrow> (case fst r of Inl _ \<Rightarrow> False | Inr _ \<Rightarrow> True)"

lemma ok_simps [simp]: "ok (Inr x, P)" "\<not> ok (Inl e, P)"
  by (simp_all add: ok_def)

lemma not_okE: assumes "\<not> ok r" obtains e P where "r = (Inl e, P)"
  using assms by (cases r; cases "fst r") auto

lemma okE: assumes "ok r" obtains x P where "r = (Inr x, P)"
  using assms by (cases r; cases "fst r") auto

lemma ok_bind:
  "ok (bind_boot (failed m r) f) \<longleftrightarrow> ok r \<and> ok (f (projr (fst r)) (snd r))"
  by (cases r; cases "fst r") auto

lemma directory_ok:
  "ok (newAppDirectory os c conf ck P) \<longleftrightarrow>
     (case NewFetchClient (os_files os) DefaultServiceAccountDir (st_env (base P)) of
        Inl _ \<Rightarrow> False | Inr cl \<Rightarrow> \<not> issuer_refused os c conf cl (st_env (base P))) \<and>
     JWKSURL conf \<noteq> '''' \<and> Issuer (AuthPart conf) \<noteq> '''' \<and> AudienceName (AuthPart conf) \<noteq> '''' \<and>
     AppTable (AuthPart conf) \<noteq> []"
proof (cases "NewFetchClient (os_files os) DefaultServiceAccountDir (st_env (base P))")
  case (Inr cl)
  obtain v e where v: "VerifyIssuer (fetch_web os cl) (url_parse os) c (JWKSURL conf) (Issuer (AuthPart conf))
      (st_env (base P)) = (v, e)" by fastforce
  with Inr show ?thesis
    by (cases v; cases "the v")
      (auto simp: newAppDirectory_def below_def in_env_def issuer_refused_def NewJWKSCache_def NewDirectory_def)
qed (simp add: newAppDirectory_def)

lemma limiters_ok:
  "ok (newLimiters os conf P) \<longleftrightarrow>
     (case redisOptions (os_files os) (RedisPart conf) (st_env (base P)) of Inl _ \<Rightarrow> False | Inr _ \<Rightarrow> True) \<and>
     RAddr (RedisPart conf) \<noteq> '''' \<and> (case host_port os (RAddr (RedisPart conf)) of Inl _ \<Rightarrow> False | Inr _ \<Rightarrow> True)"
  by (auto simp: newLimiters_def NewClient_def Let_def split: sum.splits)

lemma core_ok:
  "ok (run_core os conf dir rate budget prov, P) \<longleftrightarrow>
     0 < PerTryDeadline (GatewayPart conf) \<and> PerTryDeadline (GatewayPart conf) < TotalDeadline (GatewayPart conf)"
  by (auto simp: run_core_def New_def newDeps_def)

lemma accepted_secrets: "wire_toDomain f = Inr conf \<Longrightarrow>
    secrets_toDomain (w_SecretSource f) (\<lambda>p. p \<in> set (map Provider (w_Routes f))) = Inr (SecretPart conf)"
  by (auto simp: wire_toDomain_def Let_def split: if_splits option.splits sum.splits)

lemma boot_ok_iff:
  assumes "wire_toDomain f = Inr conf"
  shows "ok (boot os c path conf P) \<longleftrightarrow> bootable os c conf (st_env (base P)) (quota_env os c conf P)"
proof -
  let ?bootable = "bootable os c conf (st_env (base P)) (quota_env os c conf P)"
  have prov: "ok (newProviderClient os c conf ck P')" for ck P'
    using provider_builds [OF accepted_secrets [OF assms(1)], of os c ck P'] by (auto simp: ok_def)
  show ?thesis
  proof (cases "ok (newAppDirectory os c conf NewChecker P)")
    case False
    then have "\<not> ?bootable" unfolding directory_ok bootable_def by blast
    moreover obtain e P1 where "newAppDirectory os c conf NewChecker P = (Inl e, P1)"
      using False by (rule not_okE)
    ultimately show ?thesis by (simp add: boot_def)
  next
    case True
    then obtain dir ck1 P1 where d: "newAppDirectory os c conf NewChecker P = (Inr (dir, ck1), P1)"
      by (metis okE prod.collapse)
    obtain pv ck2 P2 where p: "newProviderClient os c conf ck1 P1 = (Inr (pv, ck2), P2)"
      using prov [of ck1 P1] by (metis okE prod.collapse)
    have q: "quota_env os c conf P = st_env (base P2)"
      using provider_checker [of os c conf NewChecker P1 ck1] by (simp add: quota_env_def d p)
    show ?thesis
    proof (cases "ok (newLimiters os conf P2)")
      case False
      then have "\<not> ?bootable" unfolding limiters_ok bootable_def q by blast
      moreover obtain e P3 where "newLimiters os conf P2 = (Inl e, P3)"
        using False by (rule not_okE)
      ultimately show ?thesis using d p by (simp add: boot_def)
    next
      case lim: True
      then obtain rate budget P3 where l: "newLimiters os conf P2 = (Inr (rate, budget), P3)"
        by (metis okE prod.collapse)
      have static: "?bootable \<longleftrightarrow>
          ok (run_core os conf dir rate budget pv, P3) \<and> otlp_dial os (OTLPEndpoint conf) = None \<and>
          list_all (\<lambda>n. refused_names os n = None) instrument_names"
        using True lim unfolding bootable_def directory_ok limiters_ok core_ok q by blast
      show ?thesis
      proof (cases "run_core os conf dir rate budget pv")
        case (Inl e)
        with d p l show ?thesis unfolding static by (simp add: boot_def)
      next
        case (Inr core)
        show ?thesis
          unfolding static registerMetrics_iff [of os conf "ProviderKeys.Providers (st_keys (base P3))", symmetric]
          using d p l Inr
          by (cases "otlp_dial os (OTLPEndpoint conf)";
              cases "registerMetrics os conf (ProviderKeys.Providers (st_keys (base P3)))";
              cases "fst (registerMetrics os conf (ProviderKeys.Providers (st_keys (base P3))))")
            (simp_all add: boot_def newServer_edge NewProvider_def)
      qed
    qed
  qed
qed

text \<open>A cluster, a secret store, a quota store and providers that are all unreachable.\<close>

definition dark :: "nat outside" where
  "dark = \<lparr>os_files = \<lparr>read_file = \<lambda>_ _. Inr ''k'', not_exist = \<lambda>_ _. True, usable_pem = \<lambda>_. True\<rparr>,
     fetch_web = \<lambda>_. dead_web, vault_web = dead_web,
     http_client = \<lparr>bad_url = \<lambda>_. None, do_request = \<lambda>_ _ w. (Inl (ErrText ''connection refused''), w),
       codec_of = \<lparr>parse = \<lambda>_. None, json_text = \<lambda>_. ''''\<rparr>\<rparr>,
     network = \<lparr>dial_tcp = \<lambda>_ _ w. (Inl (ErrText ''connection refused''), w),
       handshake = \<lambda>_ _ _ cn w. (Inr cn, w), set_deadline = \<lambda>_ _ w. (None, w), conn_write = \<lambda>_ _ w. (None, w),
       read_bytes = \<lambda>_ w. (Inl (ErrText ''EOF''), w), conn_close = \<lambda>_ w. w, time_now = int\<rparr>,
     url_parse = \<lambda>_. Inr (''https'', ''k8s''), host_port = \<lambda>_. Inr (''redis'', ''6379''),
     rsa = demo_crypto, jose = demo_codec, wall = int, unix = int,
     random_id = \<lambda>n w. (replicate (2 * n) CHR ''0'', w), body_decoder = demo_decoder,
     otlp_dial = \<lambda>_. None, refused_names = \<lambda>_. None\<rparr>"

definition empty_stores :: "nat stores" where
  "empty_stores = \<lparr>st_jwks = \<lparr>jwks_url = '''', jwks_keys = [], jwks_loadedAt = None\<rparr>, st_keys = [],
     st_vault = \<lparr>address = '''', role = '''', authPath = '''', tokenPath = '''', token = ''''\<rparr>,
     st_redis = \<lparr>addr = '''', opts = \<lparr>TLS = False, RootCAs = None, Password = ''''\<rparr>, serverName = '''', psize = 0, pool = []\<rparr>,
     st_slots = NewLimiter 0 Map.empty, st_env = 0\<rparr>"

lemma demo_conf_facts:
  "case wire_toDomain demo_file of Inl _ \<Rightarrow> False | Inr conf \<Rightarrow>
     JWKSURL conf \<noteq> '''' \<and> Issuer (AuthPart conf) \<noteq> '''' \<and> AudienceName (AuthPart conf) \<noteq> '''' \<and>
     AppTable (AuthPart conf) \<noteq> [] \<and> RAddr (RedisPart conf) \<noteq> '''' \<and>
     RPasswordPath (RedisPart conf) = '''' \<and> RCAPath (RedisPart conf) = '''' \<and>
     0 < PerTryDeadline (GatewayPart conf) \<and> PerTryDeadline (GatewayPart conf) < TotalDeadline (GatewayPart conf)"
  by code_simp

lemma demo_bootable:
  assumes "wire_toDomain demo_file = Inr conf"
  shows "bootable dark background conf e e'"
proof -
  have "NewFetchClient (os_files dark) DefaultServiceAccountDir e = Inr Plain"
    by (simp add: NewFetchClient_def dark_def Let_def)
  moreover have "\<not> issuer_refused dark background conf Plain e"
    by (simp add: issuer_refused_def VerifyIssuer_def DiscoveryURL_def dark_def dead_web_def get_request_def)
  moreover have "\<exists>x. redisOptions (os_files dark) (RedisPart conf) e' = Inr x"
    using demo_conf_facts assms by (simp add: redisOptions_def)
  ultimately show ?thesis
    using demo_conf_facts assms by (auto simp: bootable_def dark_def list_all_iff)
qed

lemma dark_boots:
  obtains conf srv sc "is" Q where "wire_toDomain demo_file = Inr conf"
    "boot dark background ''c.yaml'' conf (new_process (appNames conf) (providerNames conf) empty_stores) =
       (Inr (srv, sc, is), Q)"
proof -
  obtain conf where c: "wire_toDomain demo_file = Inr conf" using demo_file_accepted by blast
  from boot_ok_iff [OF c] demo_bootable [OF c]
  have "ok (boot dark background ''c.yaml'' conf (new_process (appNames conf) (providerNames conf) empty_stores))"
    by blast
  then obtain x Q where "boot dark background ''c.yaml'' conf
      (new_process (appNames conf) (providerNames conf) empty_stores) = (Inr x, Q)"
    by (rule okE)
  with c that show thesis by (cases x) auto
qed

theorem readiness_gate_witness:
  "\<exists>conf srv sc is Q. boot dark background ''c.yaml'' conf
       (new_process (appNames conf) (providerNames conf) empty_stores) = (Inr (srv, sc, is), Q) \<and>
     rs_status (answer srv (get ''/readyz'' demo_call) (new_process [] [] empty_stores)) = Some 503 \<and>
     rs_status (answer srv (get ''/healthz'' demo_call) (new_process [] [] empty_stores)) = Some 200"
proof -
  obtain conf srv sc "is" Q where b: "boot dark background ''c.yaml'' conf
      (new_process (appNames conf) (providerNames conf) empty_stores) = (Inr (srv, sc, is), Q)"
    by (rule dark_boots)
  have "jwks_keys (st_jwks (base (new_process [] [] empty_stores))) = []"
    by (simp add: new_process_def empty_stores_def)
  with readiness_gate [OF b, of demo_call "new_process [] [] empty_stores"]
  have "rs_status (answer srv (get ''/readyz'' demo_call) (new_process [] [] empty_stores)) = Some 503 \<and>
     rs_status (answer srv (get ''/healthz'' demo_call) (new_process [] [] empty_stores)) = Some 200"
    by simp
  with b show ?thesis by blast
qed

section \<open>The drain\<close>

text \<open>A shutdown outlives every response the server may still be writing: whatever write timeout
  is configured (the default included), the drain is longer by at least ten seconds, unless the
  sum leaves 64 bits.\<close>

lemma drain_outlives_responses:
  assumes "sc_WriteTimeout (ServerPart conf) < 2 ^ 63 - drainGrace"
  shows "sc_WriteTimeout (with_defaults (ServerPart conf)) + drainGrace \<le> drain_timeout conf"
  using assms
  by (auto simp: drain_timeout_def with_defaults_def or_default_def defaultDrainTimeout_def drainGrace_def
      Second_def in_i64_def)

section \<open>Every response is counted\<close>

text \<open>A response nothing was written to, and one whose status was written once.\<close>

definition fresh :: "Response \<Rightarrow> bool" where
  "fresh rs \<longleftrightarrow> rs_status rs = None \<and> rs_asked rs = []"

definition once :: "Response \<Rightarrow> bool" where
  "once rs \<longleftrightarrow> (case rs_status rs of None \<Rightarrow> False | Some n \<Rightarrow> rs_asked rs = [n])"

lemma fresh_set_header [simp]: "fresh rs \<Longrightarrow> fresh (set_header k v rs)"
  by (simp add: fresh_def set_header_def)

lemma fresh_started [simp]: "fresh (started s r w)"
  by (simp add: started_def fresh_def empty_response_def set_header_def)

lemma once_writers [simp]:
  "fresh rs \<Longrightarrow> once (write_header n rs)"
  "fresh rs \<Longrightarrow> once (writeJSON n v rs)"
  "fresh rs \<Longrightarrow> once (writeError r e rs)"
  "fresh rs \<Longrightarrow> once (writeChatError r err rs)"
proof -
  show h: "fresh rs \<Longrightarrow> once (write_header n rs)" for rs n
    by (simp add: fresh_def once_def write_header_def Let_def)
  have b: "once rs \<Longrightarrow> once (write_body v rs)" for rs v
    by (auto simp: once_def write_body_def split: option.splits)
  show j: "fresh rs \<Longrightarrow> once (writeJSON n v rs)" for rs n v
    unfolding writeJSON_def by (intro b h fresh_set_header)
  show e: "fresh rs \<Longrightarrow> once (writeError r e rs)" for rs r e
    by (simp add: writeError_def j split: option.split)
  show "fresh rs \<Longrightarrow> once (writeChatError r err rs)"
    by (simp add: writeChatError_def e h split: option.split)
qed

lemma once_recorded: "fresh rs0 \<Longrightarrow> once rs \<Longrightarrow> rs_status rs = Some (recorded_status rs0 rs)"
  by (auto simp: fresh_def once_def recorded_status_def split: option.splits)

text \<open>The handler behind the middleware: it panics before it writes, or writes one status.\<close>

definition data_handler :: "'w Server \<Rightarrow> 'w handler" where
  "data_handler s = maxBody s (authenticate (handleChat s))"

lemma data_handler_facts:
  assumes chat: "\<And>c k q w. I w \<Longrightarrow> I (snd (sv_chat s c k q w))"
    and random: "\<And>n w. I w \<Longrightarrow> I (snd (sv_random s n w))"
    and "I w" "fresh rs0" "data_handler s r (w, rs0) = (p, w1, rs)"
  shows "I w1 \<and> (if p then fresh rs else once rs)"
proof (cases "bearerToken r")
  case None
  with assms(3-) show ?thesis by (auto simp: data_handler_def maxBody_def authenticate_def)
next
  case (Some k)
  let ?r = "r\<lparr>rq_limit := Some (sv_maxBodyBytes s), rq_key := k\<rparr>"
  have h: "data_handler s r (w, rs0) = handleChat s ?r (w, rs0)"
    using Some by (simp add: data_handler_def maxBody_def authenticate_def)
  show ?thesis
  proof (cases "decodeChatRequest (sv_decoder s) (header_get ''Content-Type'' (rq_headers ?r))
      (sv_maxBodyBytes s) (rq_body ?r)")
    case (Inl e)
    with h assms(3-) show ?thesis by (auto simp: handleChat_def)
  next
    case (Inr wire)
    obtain res w2 where ch: "sv_chat s (rq_ctx ?r) k (toDomain wire) w = (res, w2)" by fastforce
    with chat assms(3) have w2: "I w2" by (metis snd_conv)
    obtain rid w3 where rd: "sv_random s 8 w2 = (rid, w3)" by fastforce
    with random w2 have w3: "I w3" by (metis snd_conv)
    show ?thesis
      using h assms(4,5) Inr ch rd w2 w3
      by (cases res; cases "the res") (auto simp: handleChat_def)
  qed
qed

text \<open>One request through the two counters of the edge.\<close>

lemma counted_post:
  assumes chat: "\<And>c k q w. requestM (snd (core c k q w)) = requestM w"
    and srv: "srv = edge (plain_server os sc core ck) [log_watcher clk to_journal, count_watcher requestM_update]
      [panic_watcher to_journal, panic_counter panicM_update]"
    and run: "ServeHTTP srv (post r) (W, empty_response) = (p, W1, rs)"
  shows "\<not> p \<and> (\<exists>n. rs_status rs = Some n \<and> requestM W1 = count_response n (requestM W))"
proof -
  let ?s = "plain_server os sc core ck"
  let ?r = "admitted_request ?s r W" and ?st = "(drawn ?s r W, started ?s r W)"
  let ?in = "spliced (map observing [panic_watcher to_journal, panic_counter panicM_update]) (data_handler srv)"
  have sims: "sv_random srv = sv_random ?s" "sv_maxBodyBytes srv = sv_maxBodyBytes ?s"
    by (simp_all add: srv)
  have I: "requestM (snd (sv_chat srv c k q w)) = requestM w" "requestM (snd (sv_random srv n w)) = requestM w"
    for c k q w n
    using chat [of c k q w]
    by (auto simp: srv edge_def plain_server_def logged_Chat_def to_journal_def below_def in_env_def Let_def
        split: prod.split option.split sum.split)
  have d: "requestM (drawn ?s r W) = requestM W"
    using I(2) [of 16 W] by (simp add: drawn_def sims [symmetric] Let_def)
  obtain p1 w1 rs1 where h: "data_handler srv ?r ?st = (p1, w1, rs1)" by (metis prod_cases3)
  from data_handler_facts [of "\<lambda>w. requestM w = requestM W" srv, OF _ _ _ _ h] I d
  have f: "requestM w1 = requestM W" "if p1 then fresh rs1 else once rs1"
    by (auto simp: fresh_started)
  obtain w2 where inner: "?in ?r ?st = (p1, w2, rs1)" and w2: "requestM w2 = requestM W"
    using h f(1) by (auto simp: observing_def panic_watcher_def panic_counter_def to_journal_def)
  let ?rs = "if p1 then writeError ?r internal_error rs1 else rs1"
  have rec: "recoverPanic ?in ?r ?st = (False, w2, ?rs)" and o: "once ?rs"
    using inner f(2) by (auto simp: recoverPanic_def split: bool.split)
  have "ServeHTTP srv (post r) (W, empty_response) =
      spliced (map observing [log_watcher clk to_journal, count_watcher requestM_update]) (recoverPanic ?in) ?r ?st"
    by (simp add: ServeHTTP_def chain_def correlationID_def admitted_request_def drawn_def started_def
        correlation_def maxCorrelationIDLength_def post_def Let_def sims data_handler_def srv split: prod.split)
  with rec run have "\<not> p" "rs = ?rs"
    "requestM W1 = count_response (recorded_status (started ?s r W) ?rs) (requestM W)"
    by (auto simp: observing_def log_watcher_def count_watcher_def to_journal_def w2)
  with once_recorded [OF fresh_started [of ?s r W] o] show ?thesis by blast
qed

text \<open>Nothing on the core's side touches the counters of the edge.\<close>

lemma post_json_keeps:
  assumes "\<And>c rq w. I w \<Longrightarrow> I (snd (do_request H c rq w))" and "I w"
  shows "I (snd (post_json H name url body hs d td c w))"
proof -
  have "I (snd (exchange H name d td c rq w))" for rq
    using assms(1) [OF assms(2), of c rq]
    by (cases "do_request H c rq w") (auto simp: exchange_def split: sum.split)
  with assms(2) show ?thesis
    by (simp add: post_json_def split: sum.split option.split)
qed

lemma adapters_keep:
  assumes "NewRouter (adapter_table os) h = Inr R" and "adapters R n = Some a"
    and "\<And>c rq w. I w \<Longrightarrow> I (snd (do_request (http_below (http_client os)) c rq w))" and "I w"
  shows "I (snd (a c mp req w))"
proof -
  have "adapters R = (\<lambda>n. case map_of (adapter_table os) n of None \<Rightarrow> None | Some x \<Rightarrow> x)"
    using assms(1) unfolding NewRouter_def by (simp split: if_splits option.splits prod.splits) auto
  with assms(2) have t: "map_of (adapter_table os) n = Some (Some a)"
    by (simp split: option.splits)
  note keep = post_json_keeps [where I = I, OF assms(3) assms(4)]
  consider
    "a = openai_Complete (NewOpenAI (http_below (http_client os)) (Some (http_below (http_client os)))
       (Some (cache_Key (\<lambda>P. st_keys (base P)) ''openai'')))"
  | "a = anthropic_Complete (NewAnthropic (http_below (http_client os)) (Some (http_below (http_client os)))
       (Some (cache_Key (\<lambda>P. st_keys (base P)) ''anthropic'')))"
  | "a = ollama_Complete (NewOllama (http_below (http_client os)) (Some (http_below (http_client os)))
       (cache_Key (\<lambda>P. st_keys (base P)) ''ollama''))"
    using t unfolding adapter_table_def Let_def by (simp split: if_splits)
  then show ?thesis
  proof cases
    case 1
    show ?thesis unfolding 1 openai_Complete_def Let_def NewOpenAI_def by (simp only: option.case OpenAI.select_convs) (rule keep)
  next
    case 2
    show ?thesis unfolding 2 anthropic_Complete_def Let_def NewAnthropic_def by (simp only: option.case Anthropic.select_convs) (rule keep)
  next
    case 3
    show ?thesis unfolding 3 ollama_Complete_def Let_def NewOllama_def by (simp only: option.case Ollama.select_convs) (rule keep)
  qed
qed

lemma router_keeps:
  assumes "NewRouter (adapter_table os) (Some h) = Inr R"
    and "\<And>c rq w. I w \<Longrightarrow> I (snd (do_request (http_below (http_client os)) c rq w))"
    and "\<And>w. I w \<Longrightarrow> I (h (Provider mp) w)" and "I w"
  shows "I (snd (router_Complete R c mp req w))"
proof (cases "adapters R (Provider mp)")
  case None
  with assms(4) show ?thesis by (simp add: router_Complete_def)
next
  case (Some a)
  from adapters_keep [OF assms(1) Some assms(2,4)] have k: "I (snd (a c mp req w))" by simp
  moreover have "onRejected R = Some h"
    using assms(1) by (auto simp: NewRouter_def split: if_splits option.splits)
  ultimately show ?thesis
    using Some assms(3) by (cases "a c mp req w") (auto simp: router_Complete_def split: sum.split)
qed

lemma hook_keeps: "requestM (on_rejected clk p P) = requestM P"
  by (cases "TriggerRefresh p (clk P) (clk P) (st_keys (base P))")
    (simp add: on_rejected_def on_keys_def put_stores_def to_journal_def)

lemma core_quiet:
  assumes "run_core os conf (decorated_directory (\<lambda>c k. below (dir c k))) rate budget
      (decorated_provider clk (router_Complete R)) = Inr core"
    and R: "NewRouter (adapter_table os) (Some (on_rejected clk')) = Inr R"
  shows "port_invariant core (\<lambda>P. requestM P = x)"
proof -
  have h: "requestM (snd (do_request (http_below (http_client os)) c rq w)) = requestM w" for c rq w
    by (simp add: http_below_def below_def Let_def split: prod.split)
  have r: "requestM (snd (router_Complete R c mp req w)) = requestM w" for c mp req w
    by (rule router_keeps [OF R, where I = "\<lambda>P. requestM P = requestM w"]) (simp_all add: h hook_keeps)
  from assms(1) have ports:
    "apps core = decorated_directory (\<lambda>c k. below (dir c k))"
    "limits core = logged_Allow to_journal (metered_Allow rateM_update (\<lambda>c a. below (Allow rate c a)))"
    "tokens_Check core = logged_Check to_journal (metered_Check tokenM_update (\<lambda>c a. below (Check budget c a)))"
    "tokens_Settle core = logged_Settle to_journal (metered_Settle tokenM_update (\<lambda>c a n. below (Settle budget c a n)))"
    "slots core = logged_TryAcquire to_journal (metered_TryAcquire slotM_update (slots_below slots_of))"
    "provider core = decorated_provider clk (router_Complete R)"
    "usage core = metered_Record usageM_update (logging_Record to_journal)"
    by (auto simp: run_core_def New_def newDeps_def split: if_splits)
  have p: "requestM (snd (provider core c mp req w)) = requestM w" for c mp req w
    using r [of c mp req w] unfolding ports decorated_provider_def logged_Complete_def metered_Complete_def to_journal_def
    by (cases "router_Complete R c mp req w") (auto split: sum.split)
  show ?thesis
  proof unfold_locales
    fix w c mp req q w1
    assume "requestM w = x" "provider core c mp req w = (q, w1)"
    with p [of c mp req w] show "requestM w1 = x" by simp
  qed (auto simp: ports decorated_directory_def decorator_defs Let_def
      split: prod.splits sum.splits option.splits SlotGrant.splits)
qed

text \<open>Every response of the data path is counted, once and by what it was. In a booted process
  whatever request is posted, no panic leaves the server, a status is written, the request counter
  goes up by one, and the error counter goes up by one exactly for a status of 500 or more (a
  recovered panic included).\<close>

theorem responses_counted:
  assumes "boot os c path conf P = (Inr (srv, sc, is), Q)"
  shows "case ServeHTTP srv (post r) (W, empty_response) of (p, W1, rs) \<Rightarrow>
    \<not> p \<and> (case rs_status rs of None \<Rightarrow> False | Some n \<Rightarrow>
      rq_requests (requestM W1) = i64 (rq_requests (requestM W) + 1) \<and>
      rq_serverErrors (requestM W1) = (if 500 \<le> n then i64 (rq_serverErrors (requestM W) + 1)
        else rq_serverErrors (requestM W)))"
proof -
  from assms obtain dir ck1 P1 prov ck2 P2 rate budget P3 core where
    d: "newAppDirectory os c conf NewChecker P = (Inr (dir, ck1), P1)"
    and p: "newProviderClient os c conf ck1 P1 = (Inr (prov, ck2), P2)"
    and k: "run_core os conf dir rate budget prov = Inr core"
    and s: "newServer os (ServerPart conf) (chat_of core) ck2 = Inr (srv, sc)"
    by (rule boot_built)
  obtain R where prov: "prov = decorated_provider (\<lambda>P. time_of os (base P)) (router_Complete R)"
    and R: "NewRouter (adapter_table os) (Some (on_rejected (\<lambda>P. time_of os (base P)))) = Inr R"
    by (rule provider_built [OF p])
  from directory_built [OF d] have dir: "dir = decorated_directory (\<lambda>c k. below (directory_of os (AuthPart conf) c k))"
    by blast
  have "requestM (snd (Chat core c k q w)) = requestM w" for c k q w
    by (rule port_invariant.chat_keeps [OF core_quiet [OF k [unfolded dir prov] R]]) simp
  then have quiet: "requestM (snd (chat_of core c k q w)) = requestM w" for c k q w
    by (simp add: chat_of_def split_beta)
  obtain p' W1 rs where run: "ServeHTTP srv (post r) (W, empty_response) = (p', W1, rs)" by (metis prod_cases3)
  from s have srv: "srv = edge (plain_server os (ServerPart conf) (chat_of core) ck2)
      [log_watcher (\<lambda>P. time_of os (base P)) to_journal, count_watcher requestM_update]
      [panic_watcher to_journal, panic_counter panicM_update]"
    by (simp add: newServer_edge)
  from counted_post [OF quiet srv run] run show ?thesis
    by (auto simp: count_response_def Let_def)
qed

theorem responses_counted_witness:
  "\<exists>conf srv sc is Q. boot dark background ''c.yaml'' conf
       (new_process (appNames conf) (providerNames conf) empty_stores) = (Inr (srv, sc, is), Q) \<and>
     rq_requests (requestM (fst (snd (ServeHTTP srv (post demo_call) (new_process [] [] empty_stores, empty_response))))) = 1"
proof -
  obtain conf srv sc "is" Q where b: "boot dark background ''c.yaml'' conf
      (new_process (appNames conf) (providerNames conf) empty_stores) = (Inr (srv, sc, is), Q)"
    by (rule dark_boots)
  have "rq_requests (requestM (new_process [] [] empty_stores)) = 0" by (simp add: new_process_def)
  with responses_counted [OF b, where r = demo_call and W = "new_process [] [] empty_stores"] have
    "rq_requests (requestM (fst (snd (ServeHTTP srv (post demo_call) (new_process [] [] empty_stores, empty_response))))) = 1"
    by (auto split: prod.splits option.splits)
  with b show ?thesis by blast
qed

end
