(* ===== verification/Wired.thy ===== *)
theory Wired
  imports BootProps RedisQuota
begin

text \<open>
  The gateway \<open>run\<close> puts together, as one service over the whole world of the process, and what
  holds of a booted server with everything behind it: the identity chain, the Redis limiters, the
  semaphore, the router with its adapters and hook, and the decorators.
\<close>

section \<open>The core of a booted process\<close>

definition wired_router :: "'e outside \<Rightarrow> 'e world Router" where
  "wired_router os = \<lparr>adapters = (\<lambda>n. case map_of (adapter_table os) n of None \<Rightarrow> None | Some a \<Rightarrow> a),
     onRejected = Some (on_rejected (\<lambda>P. time_of os (base P)))\<rparr>"

definition wired_rate :: "'e outside \<Rightarrow> GatewayConfig \<Rightarrow> 'e stores RedisLimiter" where
  "wired_rate os conf = NewRateLimiter (redis_Int os) (time_of os) (limit_map RPS conf)"

definition wired_budget :: "'e outside \<Rightarrow> GatewayConfig \<Rightarrow> 'e stores RedisLimiter" where
  "wired_budget os conf = NewTokenLimiter (redis_Int os) (time_of os) (limit_map TokensPerMinute conf)"

definition wired :: "'e outside \<Rightarrow> GatewayConfig \<Rightarrow> 'e world Service" where
  "wired os conf = \<lparr>cfg = GatewayPart conf,
     apps = decorated_directory (\<lambda>c k. below (directory_of os (AuthPart conf) c k)),
     limits = logged_Allow to_journal (metered_Allow rateM_update (\<lambda>c a. below (Allow (wired_rate os conf) c a))),
     tokens_Check = logged_Check to_journal (metered_Check tokenM_update (\<lambda>c a. below (Check (wired_budget os conf) c a))),
     tokens_Settle = logged_Settle to_journal (metered_Settle tokenM_update (\<lambda>c a n. below (Settle (wired_budget os conf) c a n))),
     slots = logged_TryAcquire to_journal (metered_TryAcquire slotM_update (slots_below slots_of)),
     provider = decorated_provider (\<lambda>P. time_of os (base P)) (router_Complete (wired_router os)),
     usage = metered_Record usageM_update (logging_Record to_journal),
     clock = (\<lambda>P. time_of os (base P))\<rparr>"

lemma router_wired: "NewRouter (adapter_table os) (Some (on_rejected (\<lambda>P. time_of os (base P)))) = Inr (wired_router os)"
  by (simp add: NewRouter_def adapter_table_def Let_def wired_router_def)

lemma limiters_wired:
  "newLimiters os conf P = (Inr (rate, budget), P1) \<Longrightarrow> rate = wired_rate os conf \<and> budget = wired_budget os conf"
  by (auto simp: newLimiters_def wired_rate_def wired_budget_def split: sum.splits)

text \<open>The server of a booted process, written out: this core, the two readiness conditions, and the
  watchers in the seams.\<close>

definition process_checker :: "'e world Checker" where
  "process_checker = [(''jwks'', reads (\<lambda>P. jwks_Ready (st_jwks (base P)))),
     (''provider-keys'', reads (\<lambda>P. cache_Ready (st_keys (base P))))]"

definition booted :: "'e outside \<Rightarrow> GatewayConfig \<Rightarrow> 'e world Server" where
  "booted os conf = edge (plain_server os (ServerPart conf) (chat_of (wired os conf)) process_checker)
    [log_watcher (\<lambda>P. time_of os (base P)) to_journal, count_watcher requestM_update]
    [panic_watcher to_journal, panic_counter panicM_update]"

lemma boot_wired:
  assumes "boot os c path conf P = (Inr (srv, sc, is), Q)"
  shows "srv = booted os conf"
proof -
  from assms obtain dir ck1 P1 prov ck2 P2 rate budget P3 core where
    d: "newAppDirectory os c conf NewChecker P = (Inr (dir, ck1), P1)"
    and p: "newProviderClient os c conf ck1 P1 = (Inr (prov, ck2), P2)"
    and l: "newLimiters os conf P2 = (Inr (rate, budget), P3)"
    and k: "run_core os conf dir rate budget prov = Inr core"
    and s: "newServer os (ServerPart conf) (chat_of core) ck2 = Inr (srv, sc)"
    by (rule boot_built)
  obtain R where "prov = decorated_provider (\<lambda>P. time_of os (base P)) (router_Complete R)"
    and "NewRouter (adapter_table os) (Some (on_rejected (\<lambda>P. time_of os (base P)))) = Inr R"
    and ck2: "ck2 = AddReadiness ''provider-keys'' (reads (\<lambda>P. cache_Ready (st_keys (base P)))) ck1"
    by (rule provider_built [OF p])
  then have "prov = decorated_provider (\<lambda>P. time_of os (base P)) (router_Complete (wired_router os))"
    by (simp add: router_wired)
  with k directory_built [OF d] limiters_wired [OF l] have "core = wired os conf"
    by (auto simp: run_core_def New_def newDeps_def wired_def split: if_splits)
  moreover have "ck2 = process_checker"
    using directory_built [OF d] by (simp add: ck2 AddReadiness_def NewChecker_def process_checker_def)
  ultimately show ?thesis using s by (simp add: newServer_edge booted_def)
qed

lemma wired_ports [port_simps]:
  "cfg (wired os conf) = GatewayPart conf"
  "apps (wired os conf) = decorated_directory (\<lambda>c k. below (directory_of os (AuthPart conf) c k))"
  "limits (wired os conf) = logged_Allow to_journal (metered_Allow rateM_update (\<lambda>c a. below (Allow (wired_rate os conf) c a)))"
  "tokens_Check (wired os conf) = logged_Check to_journal (metered_Check tokenM_update (\<lambda>c a. below (Check (wired_budget os conf) c a)))"
  "tokens_Settle (wired os conf) = logged_Settle to_journal (metered_Settle tokenM_update (\<lambda>c a n. below (Settle (wired_budget os conf) c a n)))"
  "slots (wired os conf) = logged_TryAcquire to_journal (metered_TryAcquire slotM_update (slots_below slots_of))"
  "provider (wired os conf) = decorated_provider (\<lambda>P. time_of os (base P)) (router_Complete (wired_router os))"
  "usage (wired os conf) = metered_Record usageM_update (logging_Record to_journal)"
  by (simp_all add: wired_def)

section \<open>What each port leaves alone\<close>

lemma limiter_frame:
  assumes "\<And>w cl e. f (w\<lparr>st_redis := cl, st_env := e\<rparr>) = f w"
  shows "f (snd (Allow (wired_rate os conf) c a w)) = f w" "f (snd (Check (wired_budget os conf) c a w)) = f w"
    "f (snd (Settle (wired_budget os conf) c a n w)) = f w"
proof -
  have i: "f (snd (redis_Int os c args w)) = f w" for args
    by (simp add: redis_Int_def assms split: prod.split)
  show "f (snd (Allow (wired_rate os conf) c a w)) = f w"
    using i by (auto simp: Allow_def wired_rate_def NewRateLimiter_def Let_def split: prod.splits sum.splits) (metis snd_conv)+
  show "f (snd (Check (wired_budget os conf) c a w)) = f w"
    using i by (auto simp: Check_def wired_budget_def NewTokenLimiter_def Let_def split: prod.splits sum.splits) (metis snd_conv)+
  show "f (snd (Settle (wired_budget os conf) c a n w)) = f w"
    using i by (auto simp: Settle_def wired_budget_def NewTokenLimiter_def Let_def split: prod.splits sum.splits) (metis snd_conv)+
qed

lemmas limiter_stores = limiter_frame [of st_slots, simplified] limiter_frame [of st_keys, simplified]

lemma http_below_frame: "(\<And>w e. f (w\<lparr>base := (base w)\<lparr>st_env := e\<rparr>\<rparr>) = f w) \<Longrightarrow>
    f (snd (do_request (http_below h) c rq w)) = f w"
  by (simp add: http_below_def below_def in_env_def Let_def split: prod.split)

lemma provider_frame:
  assumes env: "\<And>w e. f (w\<lparr>base := (base w)\<lparr>st_env := e\<rparr>\<rparr>) = f w"
    and hook: "\<And>clk p w. f (on_rejected clk p w) = f w"
    and journal: "\<And>w l. f (to_journal l w) = f w"
    and counts: "\<And>w g. f (providerM_update g w) = f w"
  shows "f (snd (provider (wired os conf) c mp req w)) = f w"
proof -
  have "f (snd (router_Complete (wired_router os) c mp req w)) = f w"
    by (rule router_keeps [OF router_wired, where I = "\<lambda>v. f v = f w"])
      (simp_all add: http_below_frame [of f, OF env] hook)
  then show ?thesis
    by (cases "router_Complete (wired_router os) c mp req w")
      (auto simp: port_simps decorated_provider_def logged_Complete_def metered_Complete_def journal counts
        split: sum.split)
qed

lemma on_rejected_stores: "st_slots (base (on_rejected clk p P)) = st_slots (base P)"
  by (cases "TriggerRefresh p (clk P) (clk P) (st_keys (base P))")
    (simp add: on_rejected_def on_keys_def put_stores_def to_journal_def)


section \<open>The semaphore of the process\<close>

interpretation process_slots: slot_limiter
  "logged_TryAcquire to_journal (metered_TryAcquire slotM_update (slots_below slots_of))"
  "\<lambda>P. st_slots (base P)" counts_ok InFlight
proof unfold_locales
  let ?acquire = "logged_TryAcquire to_journal (metered_TryAcquire slotM_update (slots_below slots_of))"
  fix a :: string and w w1 w2 :: "'e world" and rel n
  show "st_slots (base w1) = st_slots (base w)" if "?acquire a w = (Refused n, w1)"
    using that by (auto simp: decorator_defs slots_of_def Let_def split: prod.splits sum.splits SlotGrant.splits
        dest: TryAcquire_refused)
  assume ok: "counts_ok (st_slots (base w))" and g: "?acquire a w = (Granted rel, w1)"
  obtain h l1 where t: "TryAcquire a (st_slots (base w)) = (Inl h, l1)" and l1: "st_slots (base w1) = l1"
    and rel: "\<And>v. st_slots (base (rel v)) = release h (st_slots (base v))"
    using g by (auto simp: decorator_defs slots_of_def Let_def split: prod.splits sum.splits SlotGrant.splits)
  from TryAcquire_counts [OF ok, of a] t have ok1: "counts_ok l1" by simp
  with t l1 show "counts_ok (st_slots (base w1)) \<and> InFlight (st_slots (base w1)) =
      (InFlight (st_slots (base w)))(a := InFlight (st_slots (base w)) a + 1)"
    by (auto simp: TryAcquire_granted(2) [OF t] InFlight_def mget_def intro!: ext)
  assume "st_slots (base w2) = st_slots (base w1)"
  moreover have "h < length (onces l1)" using TryAcquire_granted [OF t] by simp
  ultimately show "counts_ok (st_slots (base (rel w2))) \<and> InFlight (st_slots (base (rel w2))) = InFlight (st_slots (base w))"
    using t ok ok1 l1 rel release_restores [OF t ok] by (auto simp: InFlight_def intro: release_counts intro!: ext)
qed

lemma below_stores: "(\<And>w. st_slots (snd (f w)) = st_slots w) \<Longrightarrow> st_slots (base (snd (below f P))) = st_slots (base P)"
  by (simp add: below_def split_beta)

interpretation wired_slots: slot_client "wired os conf" "\<lambda>P. st_slots (base P)" counts_ok InFlight for os conf
proof (intro slot_client.intro slot_client_axioms.intro)
  show "slot_limiter (slots (wired os conf)) (\<lambda>P. st_slots (base P)) counts_ok InFlight"
    unfolding wired_ports by (rule process_slots.slot_limiter_axioms)
  fix c k a n mp req e and w :: "'a stores process"
  show "st_slots (base (snd (apps (wired os conf) c k w))) = st_slots (base w)"
    by (simp add: port_simps decorated_directory_def decorator_defs directory_of_def Let_def)
  show "st_slots (base (snd (provider (wired os conf) c mp req w))) = st_slots (base w)"
    by (rule provider_frame) (simp_all add: on_rejected_stores to_journal_def)
  show "st_slots (base (usage (wired os conf) e w)) = st_slots (base w)"
    by (simp add: port_simps decorator_defs)
  show "st_slots (base (snd (limits (wired os conf) c a w))) = st_slots (base w)"
    using below_stores [of "Allow (wired_rate os conf) c a", OF limiter_stores(1), of w]
    by (auto simp: port_simps logged_Allow_def metered_Allow_def to_journal_def split: prod.splits sum.splits)
  show "st_slots (base (snd (tokens_Check (wired os conf) c a w))) = st_slots (base w)"
    using below_stores [of "Check (wired_budget os conf) c a", OF limiter_stores(2), of w]
    by (auto simp: port_simps logged_Check_def metered_Check_def to_journal_def split: prod.splits sum.splits)
  show "st_slots (base (snd (tokens_Settle (wired os conf) c a n w))) = st_slots (base w)"
    using below_stores [of "Settle (wired_budget os conf) c a n", OF limiter_stores(3), of w]
    by (auto simp: port_simps logged_Settle_def metered_Settle_def to_journal_def split: prod.splits option.splits)
qed

section \<open>The limiters of the process\<close>

interpretation wired_meters: metered_service "wired os conf" for os conf
proof (intro metered_service.intro)
  show "rate_limiter (limits (wired os conf))"
  proof
    fix c a d and w w1 :: "'a stores process"
    assume "limits (wired os conf) c a w = (Inr d, w1)"
    then obtain v1 where "Allow (wired_rate os conf) c a (base w) = (Inr d, v1)"
      by (auto simp: port_simps decorator_defs Let_def split: prod.splits sum.splits)
    then show "useful_refusal d" by (rule rate.useful)
  qed
  show "rate_limiter (tokens_Check (wired os conf))"
  proof
    fix c a d and w w1 :: "'a stores process"
    assume "tokens_Check (wired os conf) c a w = (Inr d, w1)"
    then obtain v1 where "Check (wired_budget os conf) c a (base w) = (Inr d, v1)"
      by (auto simp: port_simps decorator_defs Let_def split: prod.splits sum.splits)
    then show "useful_refusal d" by (rule budget.useful)
  qed
qed


section \<open>One request through the server\<close>

lemma edge_frames [simp]:
  "correlation (edge s fs gs) = correlation s" "drawn (edge s fs gs) = drawn s"
  "started (edge s fs gs) = started s" "admitted_request (edge s fs gs) = admitted_request s"
  "maxBody (edge s fs gs) = maxBody s"
  by (simp_all add: fun_eq_iff correlation_def drawn_def started_def admitted_request_def maxBody_def Let_def)

text \<open>The two seams change the log and the counters of the edge only.\<close>

lemma post_run:
  assumes srv: "srv = edge (plain_server os sc core ck) [log_watcher clk to_journal, count_watcher requestM_update]
      [panic_watcher to_journal, panic_counter panicM_update]"
    and h: "data_handler srv (admitted_request srv r W) (drawn srv r W, started srv r W) = (p1, w1, rs1)"
    and run: "ServeHTTP srv (post r) (W, empty_response) = (p, W1, rs)"
  shows "\<not> p \<and> base W1 = base w1 \<and> dirM W1 = dirM w1 \<and> rateM W1 = rateM w1 \<and> tokenM W1 = tokenM w1 \<and>
    slotM W1 = slotM w1 \<and> providerM W1 = providerM w1 \<and> usageM W1 = usageM w1 \<and>
    refreshM W1 = refreshM w1 \<and> triggerM W1 = triggerM w1 \<and>
    panicM W1 \<in> {panicM w1, i64 (panicM w1 + 1)} \<and>
    requestM W1 = count_response (recorded_status (started srv r W)
      (if p1 then writeError (admitted_request srv r W) internal_error rs1 else rs1)) (requestM w1)"
proof -
  let ?r = "admitted_request srv r W" and ?st = "(drawn srv r W, started srv r W)"
  let ?in = "spliced (map observing [panic_watcher to_journal, panic_counter panicM_update]) (data_handler srv)"
  let ?rs = "if p1 then writeError ?r internal_error rs1 else rs1"
  obtain w2 where inner: "?in ?r ?st = (p1, w2, rs1)" and w2: "base w2 = base w1" "dirM w2 = dirM w1"
    "rateM w2 = rateM w1" "tokenM w2 = tokenM w1" "slotM w2 = slotM w1" "providerM w2 = providerM w1"
    "usageM w2 = usageM w1" "refreshM w2 = refreshM w1" "triggerM w2 = triggerM w1" "requestM w2 = requestM w1"
    "panicM w2 \<in> {panicM w1, i64 (panicM w1 + 1)}"
    using h by (auto simp: observing_def panic_watcher_def panic_counter_def to_journal_def)
  have rec: "recoverPanic ?in ?r ?st = (False, w2, ?rs)"
    using inner by (auto simp: recoverPanic_def split: bool.split)
  have "ServeHTTP srv (post r) (W, empty_response) =
      spliced (map observing [log_watcher clk to_journal, count_watcher requestM_update]) (recoverPanic ?in) ?r ?st"
    by (simp add: ServeHTTP_def chain_def correlationID_def admitted_request_def drawn_def started_def
        correlation_def maxCorrelationIDLength_def post_def Let_def data_handler_def srv split: prod.split)
  with rec run w2 show ?thesis
    by (auto simp: observing_def log_watcher_def count_watcher_def to_journal_def)
qed

text \<open>What a handler, and then a request, leaves true of the world, the edge's own lines aside.\<close>

definition edge_messages :: "string list" where
  "edge_messages = [''request served'', ''handler panicked'', ''chat: unclassified core error'']"

lemma post_keeps:
  assumes srv: "srv = edge (plain_server os sc (chat_of core) ck) [log_watcher clk to_journal, count_watcher requestM_update]
      [panic_watcher to_journal, panic_counter panicM_update]"
    and chat: "\<And>c k q w. I w \<Longrightarrow> I (snd (Chat core c k q w))"
    and env: "\<And>w e. I (w\<lparr>base := (base w)\<lparr>st_env := e\<rparr>\<rparr>) = I w"
    and seams: "\<And>w l. ln_msg l \<in> set edge_messages \<Longrightarrow> I (to_journal l w) = I w"
      "\<And>w g. I w \<Longrightarrow> I (requestM_update (count_response g) w)"
      "\<And>w. I w \<Longrightarrow> I (panicM_update (\<lambda>n. i64 (n + 1)) w)"
    and "I W"
  shows "I (fst (snd (ServeHTTP srv (post r) (W, empty_response))))"
proof -
  let ?r = "admitted_request srv r W" and ?st = "(drawn srv r W, started srv r W)"
  let ?in = "spliced (map observing [panic_watcher to_journal, panic_counter panicM_update]) (data_handler srv)"
  have rnd: "I w \<Longrightarrow> I (snd (sv_random srv n w))" for n w
    using env by (auto simp: srv plain_server_def edge_def below_def in_env_def Let_def split: prod.split)
  have ch: "I w \<Longrightarrow> I (snd (sv_chat srv c k q w))" for c k q w
    using chat [of w c k q] seams(1)
    by (auto simp: log_line_def edge_messages_def srv plain_server_def edge_def logged_Chat_def chat_of_def split: prod.splits sum.splits)
  have d: "I (drawn srv r W)" using rnd assms(7) by (simp add: drawn_def Let_def)
  obtain p1 w1 rs1 where h: "data_handler srv ?r ?st = (p1, w1, rs1)" by (metis prod_cases3)
  from data_handler_facts [of I srv, OF ch rnd d fresh_started h] have w1: "I w1" by blast
  obtain w2 where inner: "?in ?r ?st = (p1, w2, rs1)" and w2: "I w2"
    using h w1 seams by (auto simp: observing_def panic_watcher_def panic_counter_def log_line_def edge_messages_def)
  have rec: "fst (snd (recoverPanic ?in ?r ?st)) = w2"
    using inner by (auto simp: recoverPanic_def split: bool.split)
  have "ServeHTTP srv (post r) (W, empty_response) =
      spliced (map observing [log_watcher clk to_journal, count_watcher requestM_update]) (recoverPanic ?in) ?r ?st"
    by (simp add: ServeHTTP_def chain_def correlationID_def admitted_request_def drawn_def started_def
        correlation_def maxCorrelationIDLength_def post_def Let_def data_handler_def srv split: prod.split)
  with rec w2 seams show ?thesis
    by (auto simp: observing_def log_watcher_def count_watcher_def log_line_def edge_messages_def split: prod.split)
qed


section \<open>Who a request is from\<close>

text \<open>The app and the domain request of a POST: a bearer token that opens an app with the signing
  keys and the clock of the moment, and a body of the schema.\<close>

definition caller :: "'e outside \<Rightarrow> GatewayConfig \<Rightarrow> 'e world Server \<Rightarrow> Request \<Rightarrow> 'e world \<Rightarrow> (App \<times> ChatRequest) option" where
  "caller os conf srv r W =
     (let V = base (drawn srv r W)
      in case bearerToken r of None \<Rightarrow> None
         | Some k \<Rightarrow>
           (case decodeChatRequest (sv_decoder srv) (header_get ''Content-Type'' (rq_headers r))
                   (sv_maxBodyBytes srv) (rq_body r) of
              Inl _ \<Rightarrow> None
            | Inr wr \<Rightarrow>
                map_option (\<lambda>app. (app, toDomain wr))
                  (AppForKey (rsa os) (jose os) (AuthPart conf) (st_jwks V) (time_of os V) k)))"

lemma wired_app:
  "fst (apps (wired os conf) c k W) = AppForKey (rsa os) (jose os) (AuthPart conf) (st_jwks (base W)) (time_of os (base W)) k"
  "base (snd (apps (wired os conf) c k W)) = base W"
  by (simp_all add: port_simps decorated_directory_def decorator_defs directory_of_def Let_def)

lemma wired_stranger:
  assumes "AppForKey (rsa os) (jose os) (AuthPart conf) (st_jwks (base W)) (time_of os (base W)) k = None"
  shows "fst (Chat (wired os conf) c k req W) = Inl (ErrGateway (mk_error CodeUnauthorized ''missing or invalid API key''))"
    and "base (snd (Chat (wired os conf) c k req W)) = base W"
  using wired_app [of os conf c k W] assms by (cases "apps (wired os conf) c k W"; simp add: Chat_def)+

lemma booted_chat:
  assumes srv: "srv = edge (plain_server os sc (chat_of (wired os conf)) ck) fs gs"
  shows "fst (sv_chat srv c k q V) = Some (fst (Chat (wired os conf) c k q V))"
    and "base (snd (sv_chat srv c k q V)) = base (snd (Chat (wired os conf) c k q V))"
  by (auto simp: srv edge_def plain_server_def logged_Chat_def chat_of_def to_journal_def
      split: prod.split sum.split)

text \<open>C14: A stranger costs nothing. A request without a bearer token that opens an app, or whose body
  is not of the schema, is answered 401 or as a bad request, and whatever it carries, it leaves
  everything behind the edge as it was: no quota is counted, no slot taken, no provider, no Redis
  and no secret store called (only the correlation ID may have been drawn).\<close>

theorem strangers_touch_nothing:
  assumes "boot os c path conf P = (Inr (srv, sc, is), Q)" and "caller os conf srv r W = None"
  shows "case ServeHTTP srv (post r) (W, empty_response) of (p, W1, rs) \<Rightarrow>
    \<not> p \<and> base W1 = base (drawn srv r W) \<and>
    (case rs_status rs of None \<Rightarrow> False | Some n \<Rightarrow> n \<in> {400, 401, 413, 415})"
proof -
  have srv: "srv = edge (plain_server os (ServerPart conf) (chat_of (wired os conf)) process_checker)
    [log_watcher (\<lambda>P. time_of os (base P)) to_journal, count_watcher requestM_update]
    [panic_watcher to_journal, panic_counter panicM_update]"
    using boot_wired [OF assms(1)] by (simp only: booted_def)
  let ?r = "admitted_request srv r W" and ?st = "(drawn srv r W, started srv r W)"
  obtain p1 w1 rs1 where h: "data_handler srv ?r ?st = (p1, w1, rs1)" by (metis prod_cases3)
  obtain p W1 rs where run: "ServeHTTP srv (post r) (W, empty_response) = (p, W1, rs)" by (metis prod_cases3)
  note edge = post_run [OF srv h run]
  have facts: "base w1 = base (drawn srv r W) \<and> \<not> p1 \<and> (\<exists>n. rs_status rs1 = Some n \<and> n \<in> {400, 401, 413, 415})"
  proof (cases "bearerToken r")
    case None
    with h show ?thesis by (auto simp: data_handler_def maxBody_def authenticate_def missing_key_def)
  next
    case (Some k)
    let ?rq = "?r\<lparr>rq_limit := Some (sv_maxBodyBytes srv), rq_key := k\<rparr>"
    from h Some have hh: "handleChat srv ?rq ?st = (p1, w1, rs1)"
      by (simp add: data_handler_def maxBody_def authenticate_def)
    show ?thesis
    proof (cases "decodeChatRequest (sv_decoder srv) (header_get ''Content-Type'' (rq_headers r))
        (sv_maxBodyBytes srv) (rq_body r)")
      case (Inl e)
      with hh decode_status [OF Inl] show ?thesis by (auto simp: handleChat_def)
    next
      case (Inr wr)
      let ?V = "drawn srv r W"
      have "AppForKey (rsa os) (jose os) (AuthPart conf) (st_jwks (base ?V)) (time_of os (base ?V)) k = None"
        using assms(2) Some Inr by (simp add: caller_def Let_def)
      note stranger = wired_stranger [OF this]
      obtain w2 where "sv_chat srv (rq_ctx r) k (toDomain wr) ?V =
          (Some (Inl (ErrGateway (mk_error CodeUnauthorized ''missing or invalid API key''))), w2)" "base w2 = base ?V"
        using booted_chat [OF srv, of "rq_ctx r" k "toDomain wr" ?V] stranger by (metis prod.collapse)
      with hh Inr show ?thesis
        by (auto simp: handleChat_def writeChatError_def statusFor_def mk_error_def)
    qed
  qed
  have "rs = answer srv (post r) W" using run by (simp add: answer_def)
  moreover have "answer srv (post r) W = rs1"
    using h facts by (simp add: srv answer_post data_handler_def)
  ultimately show ?thesis using run edge facts by (auto split: option.split)
qed


lemma one_part: "AppForKey K C conf cache t ''secret'' = None"
  by (simp add: AppForKey_def verifyToken_def)

theorem strangers_touch_nothing_witness:
  "\<exists>conf srv sc is Q. boot dark background ''c.yaml'' conf
       (new_process (appNames conf) (providerNames conf) empty_stores) = (Inr (srv, sc, is), Q) \<and>
     base (fst (snd (ServeHTTP srv (post demo_call) (Q, empty_response)))) = base (drawn srv demo_call Q)"
proof -
  obtain conf srv sc "is" Q where b: "boot dark background ''c.yaml'' conf
      (new_process (appNames conf) (providerNames conf) empty_stores) = (Inr (srv, sc, is), Q)"
    by (rule dark_boots)
  have "caller dark conf srv demo_call Q = None"
    by (simp add: caller_def demo_headers one_part Let_def split: sum.split)
  from strangers_touch_nothing [OF b this]
  have "base (fst (snd (ServeHTTP srv (post demo_call) (Q, empty_response)))) = base (drawn srv demo_call Q)"
    by (simp split: prod.splits)
  with b show ?thesis by blast
qed

text \<open>C3: Who is known is served within its policy or told why not. A request of a known caller gets an
  answer, or 400, 429, 499, 502, 503 or 504. An answer is one completion by a row of the
  configured table that the caller's policy permits for the model it asked for; the body names
  the row's model, and the substitution header is there exactly when that is another model.\<close>

theorem known_callers:
  assumes "boot os c path conf P = (Inr (srv, sc, is), Q)" and "caller os conf srv r W = Some (app, req)"
  shows "app \<in> snd ` set (AppTable (AuthPart conf)) \<and>
    (case rs_status (answer srv (post r) W) of None \<Rightarrow> False | Some n \<Rightarrow>
      if n = 200 then
        \<exists>row \<in> set (ModelProviders (GatewayPart conf)). \<exists>resp.
          permits (Policy app) (Model req) (MPModel row) \<and> resp_Model resp = MPModel row \<and>
          rs_body (answer srv (post r) W) = [PChat resp] \<and>
          map_of (rs_headers (answer srv (post r) W)) ''X-Model-Substituted'' =
            (if MPModel row = Model req then None else Some ''true'')
      else n \<in> {400, 429, 499, 502, 503, 504})"
proof -
  have srv: "srv = edge (plain_server os (ServerPart conf) (chat_of (wired os conf)) process_checker)
    [log_watcher (\<lambda>P. time_of os (base P)) to_journal, count_watcher requestM_update]
    [panic_watcher to_journal, panic_counter panicM_update]" (is "_ = edge ?s ?fs ?gs")
    using boot_wired [OF assms(1)] by (simp only: booted_def)
  from assms(2) obtain k wr where k: "bearerToken r = Some k"
    and wr: "decodeChatRequest (sv_decoder ?s) (header_get ''Content-Type'' (rq_headers r))
        (sv_maxBodyBytes ?s) (rq_body r) = Inr wr"
    and app: "AppForKey (rsa os) (jose os) (AuthPart conf) (st_jwks (base (drawn ?s r W)))
        (time_of os (base (drawn ?s r W))) k = Some app" and req: "req = toDomain wr"
    by (auto simp: caller_def srv Let_def split: option.splits sum.splits)
  have known: "app \<in> snd ` set (AppTable (AuthPart conf))"
    using app by (force simp: AppForKey_def split: sum.splits dest: map_of_SomeD)
  let ?V = "drawn ?s r W"
  obtain V1 where ap: "apps (wired os conf) (rq_ctx r) k ?V = (Some app, V1)"
    using wired_app(1) [of os conf "rq_ctx r" k ?V] app by (metis prod.collapse)
  have chat: "fst (sv_chat ?s c k q V) = Some (fst (Chat (wired os conf) c k q V))" for c k q V
    using booted_chat(1) [OF srv] by (simp add: srv)
  show ?thesis
  proof (cases rule: answer_cases [of r ?s ?fs ?gs W])
    case (served k' wr' res w1)
    with k wr have "k' = k" "wr' = wr" by simp_all
    with served(2) chat [of "rq_ctx r" k "toDomain wr" ?V]
    have "fst (Chat (wired os conf) (rq_ctx r) k (toDomain wr) ?V) = Inr res" by simp
    from served_row [OF this ap] obtain row where row: "row \<in> set (ModelProviders (GatewayPart conf))"
      "RModel res = MPModel row" "permits (Policy app) (Model req) (MPModel row)"
      "Substituted res = (MPModel row \<noteq> Model req)"
      unfolding port_simps req by metis
    with served(3) known show ?thesis
      by (auto simp: srv chatResponse_def intro!: bexI [of _ row])
  next
    case (failed k' rq wr' err w1)
    with k wr have "k' = k" "wr' = wr" by simp_all
    with failed(3) chat [of "rq_ctx r" k "toDomain wr" ?V] obtain w2 where
      ch: "Chat (wired os conf) (rq_ctx r) k (toDomain wr) ?V = (Inl err, w2)" by (metis fst_conv option.inject prod.collapse)
    have ne: "err = ErrGateway e \<Longrightarrow> Code e \<noteq> CodeUnauthorized" for e
      using known_errors [OF ap, of "toDomain wr" e w2] ch by simp
    have "core_error err" using ch chat_error_facts [of "wired os conf"] by simp
    then consider e where "err = ErrGateway e" "statusFor (Code e) \<in> {400, 401, 429, 502, 503, 504}"
      | "err = ErrWrap ''caller disconnected'' (ErrCtx Canceled)"
      by (cases err) (auto simp: core_error_def statusFor_def split: ErrorCode.splits)
    then show ?thesis
    proof cases
      case 1
      from ne [OF 1(1)] 1(2) have "statusFor (Code e) \<in> {400, 429, 502, 503, 504}"
        by (auto simp: statusFor_def split: ErrorCode.splits)
      with 1 failed(4) known show ?thesis by (auto simp: srv writeChatError_def)
    next
      case 2
      with failed(4) known show ?thesis by (simp add: srv writeChatError_def statusClientClosedRequest_def)
    qed
  qed (use k wr chat in \<open>auto simp: srv dest: arg_cong [where f = fst]\<close>)
qed


section \<open>A process that serves\<close>

text \<open>A host with signing keys, whose OpenAI is down and whose Ollama answers, and no Redis.\<close>

definition lit :: "nat outside" where
  "lit = dark\<lparr>
     jose := \<lparr>parse = \<lambda>s.
       if s = ''h'' then Some (JObj [(''alg'', JStr ''RS256''), (''kid'', JStr ''k1'')])
       else if s = ''c'' then Some (JObj [(''iss'', JStr ''https://cluster''), (''sub'', JStr ''sub-s''),
         (''aud'', JArr [JStr ''llm-gateway'']), (''exp'', JInt 1700000000)])
       else None, json_text = \<lambda>_. ''''\<rparr>,
     http_client := \<lparr>bad_url = \<lambda>_. None,
       do_request = \<lambda>_ rq w. (Inr (if hr_url rq = ''http://l/api/chat'' then (200, Inr ''{}'') else (500, Inr '''')), w),
       codec_of = \<lparr>parse = \<lambda>s. if s = ''{}'' then
           Some (JObj [(''message'', JObj [(''role'', JStr ''assistant''), (''content'', JStr ''hi'')]),
             (''done'', JBool True), (''prompt_eval_count'', JInt 3), (''eval_count'', JInt 2)]) else None,
         json_text = \<lambda>_. ''''\<rparr>\<rparr>\<rparr>"

definition lit_call :: Request where
  "lit_call = demo_call\<lparr>rq_headers := [(''Content-Type'', ''application/json''),
     (''Authorization'', ''bearer aA.Yw.cw''), (''X-Correlation-ID'', ''abc'')]\<rparr>"

text \<open>What the example file of \<^theory_text>\<open>Config\<close> becomes.\<close>

definition demo_conf :: GatewayConfig where
  "demo_conf = \<lparr>
     ServerPart = \<lparr>sc_Addr = '':8080'', sc_ReadHeaderTimeout = 0, sc_ReadTimeout = 0,
       sc_WriteTimeout = 0, sc_IdleTimeout = 0, sc_MaxBodyBytes = 0\<rparr>,
     GatewayPart = \<lparr>
       ModelProviders = [\<lparr>MPModel = ''gpt'', Provider = ''openai'', Endpoint = ''https://o''\<rparr>,
         \<lparr>MPModel = ''llama'', Provider = ''ollama'', Endpoint = ''http://l''\<rparr>],
       FailoverOrder = [''openai'', ''ollama''],
       TotalDeadline = 60 * Second, PerTryDeadline = 25 * Second\<rparr>,
     AuthPart = \<lparr>Issuer = ''https://cluster'', AudienceName = ''llm-gateway'',
       AppTable = [
         (''sub-a'', \<lparr>AppName = ''agent'', Policy = \<lparr>Kind = PolicySameModel, Allowlist = []\<rparr>,
            AppTotalDeadline = 150 * Second\<rparr>),
         (''sub-s'', \<lparr>AppName = ''search'', Policy = \<lparr>Kind = PolicyAllowlist, Allowlist = [''llama'']\<rparr>,
            AppTotalDeadline = 0\<rparr>)]\<rparr>,
     JWKSURL = ''https://k8s/jwks'', JWKSInterval = 5 * Minute,
     Limits = [(''agent'', \<lparr>RPS = 0, TokensPerMinute = 9, LMaxInFlight = 64\<rparr>),
       (''search'', \<lparr>RPS = 5, TokensPerMinute = 0, LMaxInFlight = 8\<rparr>)],
     GlobalMaxInFlight = 64,
     RedisPart = \<lparr>RAddr = ''redis:6379'', RTLS = False, RCAPath = '''', RPasswordPath = ''''\<rparr>,
     SecretPart = \<lparr>SecretKind = ''file'', SecretVault = no_vault,
       SecretProviders = [(''openai'', \<lparr>SPath = ''/keys/openai'', SInterval = 5 * Minute\<rparr>)]\<rparr>,
     OTLPEndpoint = ''otel:4317''\<rparr>"

lemma demo_conf_loaded: "wire_toDomain demo_file = Inr demo_conf"
  by code_simp

definition lit_world :: "nat world" where
  "lit_world = new_process (appNames demo_conf) (providerNames demo_conf) (empty_stores\<lparr>st_jwks := warm_cache\<rparr>)"

text \<open>Prefixes as long as the limits on bodies, computed without counting up to the limit.\<close>

definition take_int :: "int \<Rightarrow> 'a list \<Rightarrow> 'a list" where
  "take_int n xs = take (nat n) xs"

lemma take_int_code [code]:
  "take_int n [] = []" "take_int n (x # xs) = (if n \<le> 0 then [] else x # take_int (n - 1) xs)"
  by (simp_all add: take_int_def take_Cons' nat_diff_distrib')

lemma take_limits [code_unfold]:
  "take (nat n) xs = take_int n xs" "take maxResponseBytes xs = take_int 10485760 xs"
  by (simp_all add: take_int_def maxResponseBytes_def)

lemma lit_parts: "sc_MaxBodyBytes (with_defaults (ServerPart demo_conf)) = 1048576"
    "map_option AppName (AppForKey (rsa lit) (jose lit) (AuthPart demo_conf) warm_cache 0 ''aA.Yw.cw'') = Some ''search''"
  by code_simp+

definition lit_request :: chatRequestWire where
  "lit_request = zero_request\<lparr>rw_Model := ''gpt'', rw_MaxTokens := 100,
       rw_Messages := [zero_message\<lparr>mw_Role := ''user'', mw_Content := Some ''hi''\<rparr>]\<rparr>"

lemma lit_headers:
  "header_get ''Content-Type'' (rq_headers lit_call) = ''application/json''"
  "bearerToken lit_call = Some ''aA.Yw.cw''" "rq_body lit_call = ''...''" "rq_ctx lit_call = background"
  "drawn (booted lit demo_conf) lit_call lit_world = lit_world"
  by (code_simp, code_simp) (simp_all add: lit_call_def demo_call_def header_get_def drawn_def lower_def)

lemma lit_decodes: "decodeChatRequest (sv_decoder (booted lit demo_conf)) ''application/json''
    (sv_maxBodyBytes (booted lit demo_conf)) ''...'' = Inr lit_request"
  by (simp add: booted_def plain_server_def lit_parts lit_request_def lit_def dark_def
      decodeChatRequest_def requireJSON_def Decode_def demo_decoder_def setter_defs lower_def
      in_i64_def reject_def Let_def)

lemma lit_chat: "map_sum id RModel (fst (Chat (wired lit demo_conf) background ''aA.Yw.cw'' (toDomain lit_request) lit_world)) = Inr ''llama''"
  by code_simp

lemma lit_caller: "\<exists>app. caller lit demo_conf (booted lit demo_conf) lit_call lit_world = Some (app, toDomain lit_request)"
proof -
  obtain app where "AppForKey (rsa lit) (jose lit) (AuthPart demo_conf) warm_cache 0 ''aA.Yw.cw'' = Some app"
    using lit_parts(2) by (auto simp: map_option_case split: option.splits)
  moreover have "st_jwks (base lit_world) = warm_cache" "time_of lit (base lit_world) = 0"
    by (simp_all add: lit_world_def new_process_def time_of_def lit_def dark_def empty_stores_def)
  ultimately show ?thesis by (simp add: caller_def lit_headers lit_decodes Let_def)
qed

lemma lit_answers: "rs_status (answer (booted lit demo_conf) (post lit_call) lit_world) = Some 200"
proof -
  let ?s = "plain_server lit (ServerPart demo_conf) (chat_of (wired lit demo_conf)) process_checker"
  have b: "booted lit demo_conf = edge ?s [log_watcher (\<lambda>P. time_of lit (base P)) to_journal, count_watcher requestM_update]
      [panic_watcher to_journal, panic_counter panicM_update]" (is "_ = edge _ ?fs ?gs")
    by (rule booted_def)
  obtain res where res: "fst (Chat (wired lit demo_conf) background ''aA.Yw.cw'' (toDomain lit_request) lit_world) = Inr res"
    using lit_chat by (cases "fst (Chat (wired lit demo_conf) background ''aA.Yw.cw'' (toDomain lit_request) lit_world)") auto
  with booted_chat(1) [OF b] have chat:
    "fst (sv_chat ?s background ''aA.Yw.cw'' (toDomain lit_request) lit_world) = Some (Inr res)"
    by (simp add: b)
  note facts = lit_headers lit_decodes [unfolded b edge_simps] lit_headers(5) [unfolded b edge_frames]
  show ?thesis
    unfolding b by (cases rule: answer_cases [of lit_call ?s ?fs ?gs lit_world]) (use chat in \<open>simp_all add: facts\<close>)
qed

lemma lit_boots:
  obtains sc "is" Q where "boot lit background ''c.yaml'' demo_conf
    (new_process (appNames demo_conf) (providerNames demo_conf) empty_stores) = (Inr (booted lit demo_conf, sc, is), Q)"
proof -
  note c = demo_conf_loaded
  have "bootable lit background demo_conf e e'" for e e'
  proof -
    have same: "issuer_refused lit = issuer_refused dark"
      by (simp add: fun_eq_iff issuer_refused_def lit_def)
    show ?thesis
      using demo_bootable [OF c, of e e'] unfolding bootable_def same by (simp add: lit_def)
  qed
  then have "ok (boot lit background ''c.yaml'' demo_conf
      (new_process (appNames demo_conf) (providerNames demo_conf) empty_stores))"
    using boot_ok_iff [OF c] by blast
  then obtain x Q where x: "boot lit background ''c.yaml'' demo_conf
      (new_process (appNames demo_conf) (providerNames demo_conf) empty_stores) = (Inr x, Q)"
    by (rule okE)
  obtain srv sc "is" where "x = (srv, sc, is)" by (metis prod_cases3)
  with x boot_wired [of lit background "''c.yaml''" demo_conf _ srv sc "is" Q] that show thesis by simp
qed

theorem known_callers_witness:
  "\<exists>sc is Q. boot lit background ''c.yaml'' demo_conf
       (new_process (appNames demo_conf) (providerNames demo_conf) empty_stores) = (Inr (booted lit demo_conf, sc, is), Q) \<and>
     rs_status (answer (booted lit demo_conf) (post lit_call) lit_world) = Some 200 \<and>
     (\<exists>row \<in> set (ModelProviders (GatewayPart demo_conf)). \<exists>resp.
        rs_body (answer (booted lit demo_conf) (post lit_call) lit_world) = [PChat resp] \<and> resp_Model resp = MPModel row)"
proof -
  obtain sc "is" Q where b: "boot lit background ''c.yaml'' demo_conf
    (new_process (appNames demo_conf) (providerNames demo_conf) empty_stores) = (Inr (booted lit demo_conf, sc, is), Q)"
    by (rule lit_boots)
  obtain app where "caller lit demo_conf (booted lit demo_conf) lit_call lit_world = Some (app, toDomain lit_request)"
    using lit_caller by blast
  from known_callers [OF b this] b lit_answers show ?thesis by auto
qed

end
