(* ===== verification/WiredProps.thy ===== *)
theory WiredProps
  imports Wired
begin

text \<open>
  What stays true of a booted process while it serves: the slots of the semaphore, the keys of
  its counters, the statuses it answers, and the metric series it exports.
\<close>

section \<open>Serving\<close>

text \<open>Requests to the data path, one after the other.\<close>

fun serve_posts :: "'w Server \<Rightarrow> Request list \<Rightarrow> 'w \<Rightarrow> 'w" where
  "serve_posts srv [] w = w"
| "serve_posts srv (r # rs) w = serve_posts srv rs (fst (snd (ServeHTTP srv (post r) (w, empty_response))))"

lemma booted_keeps:
  assumes chat: "\<And>c k q w. I w \<Longrightarrow> I (snd (Chat (wired os conf) c k q w))"
    and env: "\<And>w e. I (w\<lparr>base := (base w)\<lparr>st_env := e\<rparr>\<rparr>) = I w"
    and seams: "\<And>w l. ln_msg l \<in> set edge_messages \<Longrightarrow> I (to_journal l w) = I w" "\<And>w g. I w \<Longrightarrow> I (requestM_update (count_response g) w)"
      "\<And>w. I w \<Longrightarrow> I (panicM_update (\<lambda>n. i64 (n + 1)) w)"
  shows "I w \<Longrightarrow> I (serve_posts (booted os conf) rs w)"
proof (induction rs arbitrary: w)
  case (Cons r rs)
  from post_keeps [of "booted os conf", OF booted_def, of I, OF chat env seams Cons.prems]
  have "I (fst (snd (ServeHTTP (booted os conf) (post r) (w, empty_response))))" .
  with Cons.IH show ?case by simp
qed simp

section \<open>The world a boot leaves\<close>

text \<open>Building the process writes the log and the stores, never a counter.\<close>

definition built_from :: "'e world \<Rightarrow> 'e world \<Rightarrow> bool" where
  "built_from P Q \<longleftrightarrow> Q = P\<lparr>base := base Q, journal := journal Q\<rparr>"

lemma built_simps [simp]:
  "built_from P P" "built_from P (to_journal l Q) = built_from P Q" "built_from P (put_stores f Q) = built_from P Q"
  by (cases P; cases Q; simp add: built_from_def to_journal_def put_stores_def)+

lemma built_below [simp]: "built_from P (snd (below f Q)) = built_from P Q"
  by (cases P; cases Q; simp add: built_from_def below_def split_beta)

lemma built_counters: "built_from P Q \<Longrightarrow> dirM Q = dirM P \<and> rateM Q = rateM P \<and> tokenM Q = tokenM P \<and>
    slotM Q = slotM P \<and> providerM Q = providerM P \<and> usageM Q = usageM P \<and> refreshM Q = refreshM P \<and>
    triggerM Q = triggerM P \<and> requestM Q = requestM P \<and> panicM Q = panicM P"
  by (cases P; cases Q) (simp add: built_from_def)

lemma fetcher_stores_only: "built_from P Q \<Longrightarrow> built_from P (snd (fetcher_of os k c path Q))"
  by (cases k) simp_all

lemma refresh_builds:
  assumes "\<And>c path Q. built_from P Q \<Longrightarrow> built_from P (snd (fetch c path Q))"
  shows "built_from P Q \<Longrightarrow> built_from P (snd (snd (cache_Refresh fetch clk c p (C, Q))))"
proof -
  assume "built_from P Q"
  with assms have "built_from P (snd (fetch (with_timeout c (clk Q) fetchTimeout) path Q))" for path by blast
  then show ?thesis
    using \<open>built_from P Q\<close>
    by (auto simp: cache_Refresh_def split: option.split prod.splits sum.splits) (metis snd_conv)+
qed

lemma each_builds:
  assumes "\<And>c path Q. built_from P Q \<Longrightarrow> built_from P (snd (fetch c path Q))"
  shows "built_from P (snd Cw) \<Longrightarrow> built_from P (snd (snd (refresh_each (cache_Refresh fetch clk) c ps Cw)))"
proof (induction ps arbitrary: Cw)
  case (Cons p ps)
  obtain C Q where Cw: "Cw = (C, Q)" by fastforce
  from refresh_builds [OF assms] Cons.prems have
    "built_from P (snd (snd (cache_Refresh fetch clk c p Cw)))" by (simp add: Cw)
  from Cons.IH [OF this] show ?case by (simp add: split_beta Let_def)
qed simp

lemma on_keys_builds:
  assumes "\<And>C Q. built_from P Q \<Longrightarrow> built_from P (snd (snd (f (C, Q))))" and "built_from P Q"
  shows "built_from P (snd (on_keys f Q))"
  using assms(1) [OF assms(2), of "st_keys (base Q)"] by (simp add: on_keys_def split_beta Let_def)

lemma provider_stores_only:
  assumes "newProviderClient os c conf ck P1 = (Inr x, P2)" and "built_from P P1"
  shows "built_from P P2"
proof -
  have r: "built_from P (snd (on_keys (RefreshAll fetch clk c) Q))"
    if "\<And>c path Q. built_from P Q \<Longrightarrow> built_from P (snd (fetch c path Q))" "built_from P Q" for fetch clk Q
    by (rule on_keys_builds [OF _ that(2)])
      (use each_builds [of P fetch, OF that(1)] in \<open>simp add: RefreshAll_def split_beta Let_def\<close>)
  have n: "built_from P Q \<Longrightarrow> built_from P (snd (no_fetcher c path Q))" for c path and Q :: "'a stores process"
    by (simp add: no_fetcher_def)
  obtain kind where kind: "newFetcher (SecretPart conf) = Inr kind"
    using assms(1) by (cases "newFetcher (SecretPart conf)") (auto simp: newProviderClient_def)
  from assms kind show ?thesis
    by (auto simp: newProviderClient_def Let_def split_beta r [OF n] r [OF fetcher_stores_only]
      split: sum.splits option.splits if_splits)
qed

lemma boot_builds:
  assumes "boot os c path conf P = (Inr (srv, sc, is), Q)"
  shows "built_from P Q" "st_slots (base Q) = NewLimiter (GlobalMaxInFlight conf) (limit_map LMaxInFlight conf)"
proof -
  from assms obtain dir ck1 P1 prov ck2 P2 rate budget P3 l where
    d: "newAppDirectory os c conf NewChecker P = (Inr (dir, ck1), P1)"
    and p: "newProviderClient os c conf ck1 P1 = (Inr (prov, ck2), P2)"
    and l: "newLimiters os conf P2 = (Inr (rate, budget), P3)"
    and Q: "Q = to_journal l P3"
    unfolding boot_def by (auto dest!: bind_boot_Inr split: option.splits prod.splits)
  have "built_from P P1"
    using d by (auto simp: newAppDirectory_def Let_def split_beta split: sum.splits option.splits go_error.splits)
  from provider_stores_only [OF p this] have 2: "built_from P P2" .
  show "built_from P Q" 
    using l 2 by (auto simp: Q newLimiters_def split: sum.splits)
  show "st_slots (base Q) = NewLimiter (GlobalMaxInFlight conf) (limit_map LMaxInFlight conf)"
    using l by (auto simp: Q newLimiters_def put_stores_def to_journal_def split: sum.splits)
qed

section \<open>Slots\<close>

text \<open>C17: A gateway at rest holds no slot. From the boot on, after any requests, whatever became of
  them, no app holds a slot and the global count is zero: no answer, refusal or failed attempt
  leaks one.\<close>

theorem slots_given_back:
  assumes "boot os c path conf P = (Inr (srv, sc, is), Q)"
  shows "InFlight (st_slots (base (serve_posts srv rs Q))) app = 0 \<and> Total (st_slots (base (serve_posts srv rs Q))) = 0"
proof -
  let ?I = "\<lambda>w. counts_ok (st_slots (base w)) \<and> InFlight (st_slots (base w)) = (\<lambda>_. 0)"
  have "?I Q"
    unfolding boot_builds(2) [OF assms] using New_ok(1)
    by (simp add: InFlight_def NewLimiter_def mget_def fun_eq_iff)
  have I: "?I (serve_posts (booted os conf) rs Q)"
    by (rule booted_keeps [of ?I, OF _ _ _ _ _ \<open>?I Q\<close>])
      (simp_all add: wired_slots.chat_held to_journal_def)
  then have "outstanding (st_slots (base (serve_posts (booted os conf) rs Q))) = {#}"
    using counts_mget [of "st_slots (base (serve_posts (booted os conf) rs Q))"]
    by (simp add: InFlight_def fun_eq_iff multiset_eq_iff)
  with I show ?thesis by (simp add: boot_wired [OF assms] counts_ok_def Total_def)
qed

section \<open>Keys of the counters\<close>

text \<open>A keyed counter has the keys it was made for.\<close>

definition counter_ok :: "'k list \<Rightarrow> 'k keyedCounter \<Rightarrow> bool" where
  "counter_ok ks c \<longleftrightarrow> fst ` set c = set ks"

lemma counter_ok_new [simp]: "counter_ok ks (newKeyedCounter ks)"
proof -
  have "fst ` set (fold (\<lambda>k. AList.update k 0) ks c) = fst ` set c \<union> set ks" for c :: "('a \<times> int) list"
    by (induction ks arbitrary: c) (auto simp: dom_update)
  from this [of "[]"] show ?thesis by (simp add: counter_ok_def newKeyedCounter_def)
qed

lemma counter_ok_add [simp]: "counter_ok ks c \<Longrightarrow> counter_ok ks (kadd k n c)"
  by (simp add: counter_ok_def kadd_def dom_map_entry)

lemma counter_ok_estimate [simp]: "counter_ok ks c \<Longrightarrow> counter_ok ks (addEstimate k n c)"
  by (simp add: addEstimate_def)

text \<open>The counters of a process for the given apps and providers, each with its keys.\<close>

definition counters_ok :: "string list \<Rightarrow> string list \<Rightarrow> 'w process \<Rightarrow> bool" where
  "counters_ok app_names provider_names P \<longleftrightarrow>
     labelled app_names provider_names P \<and>
     list_all (counter_ok app_names)
       [sl_acquired (slotM P), sl_refused (slotM P), us_completions (usageM P), us_failedOvers (usageM P),
        us_promptTokens (usageM P), us_completionTokens (usageM P), us_failOpens (usageM P),
        us_doubleSpendRisks (usageM P), us_doubleSpendTokens (usageM P), us_disconnects (usageM P),
        us_disconnectTokens (usageM P)] \<and>
     counter_ok (appCodeKeys app_names) (us_rejections (usageM P)) \<and>
     counter_ok provider_names (pc_attempts (providerM P)) \<and>
     counter_ok (providerKindKeys provider_names) (pc_failures (providerM P))"

lemma counter_ok_set: "set ks = set ls \<Longrightarrow> counter_ok ks = counter_ok ls"
  by (simp add: counter_ok_def fun_eq_iff)

lemma counter_ok_sort [simp]: "counter_ok ks (newKeyedCounter (sort ks))"
  using counter_ok_new [of "sort ks"] by (simp add: counter_ok_def)

lemma counter_ok_pairs [simp]:
  "counter_ok (appCodeKeys ks) (newKeyedCounter (appCodeKeys (sort ks)))"
  "counter_ok (providerKindKeys ks) (newKeyedCounter (providerKindKeys (sort ks)))"
  using counter_ok_new [of "appCodeKeys (sort ks)"] counter_ok_new [of "providerKindKeys (sort ks)"]
  by (simp_all add: counter_ok_def appCodeKeys_def providerKindKeys_def)

lemma new_counters: "counters_ok names provs (new_process names provs w)"
  by (simp add: counters_ok_def new_process_def NewSlotCounts_def NewProviderCounts_def NewUsageCounts_def
      labelled_def Let_def)

lemma counters_frame:
  "counters_ok as ps (P\<lparr>base := b\<rparr>) = counters_ok as ps P"
  "counters_ok as ps (to_journal l P) = counters_ok as ps P"
  by (simp_all add: counters_ok_def labelled_def to_journal_def)

lemma counters_below: "counters_ok as ps (snd (below f P)) = counters_ok as ps P"
  by (simp add: below_def split_beta counters_frame)

lemma counters_ticks:
  assumes "counters_ok as ps P"
  shows "counters_ok as ps (dirM_update (count_lookup b) P)"
    "counters_ok as ps (rateM_update (count_decision d) P)"
    "counters_ok as ps (tokenM_update (count_check d) P)"
    "counters_ok as ps (tokenM_update (count_debit e n) P)"
    "counters_ok as ps (slotM_update (count_claim a g) P)"
    "counters_ok as ps (providerM_update (count_attempt p x) P)"
    "counters_ok as ps (usageM_update (count_usage ev) P)"
    "counters_ok as ps (triggerM_update (Trigger p) P)"
    "counters_ok as ps (requestM_update (count_response k) P)"
    "counters_ok as ps (panicM_update (\<lambda>n. i64 (n + 1)) P)"
  using assms
  by (simp_all add: counters_ok_def labelled_def count_claim_def)
    (simp_all add: count_attempt_def Let_def split: sum.split,
     cases ev, simp_all add: Let_def)

lemma counters_hook: "counters_ok as ps P \<Longrightarrow> counters_ok as ps (on_rejected clk p P)"
  by (cases "TriggerRefresh p (clk P) (clk P) (st_keys (base P))")
    (simp add: on_rejected_def on_keys_def put_stores_def counters_frame counters_ticks)

interpretation typed: port_invariant "wired os conf" "counters_ok as ps" for os conf as ps
proof
  fix c k a n d x r mp req p g e and w w1 :: "'a stores process"
  assume I: "counters_ok as ps w"
  have b: "below f w = (y, v) \<Longrightarrow> counters_ok as ps v" for f v and y :: 'z
    using counters_below [of as ps f w] I by simp
  show "counters_ok as ps w1" if "apps (wired os conf) c k w = (a, w1)"
    using that by (auto simp: port_simps decorated_directory_def logged_AppForKey_def metered_AppForKey_def
        counters_frame intro!: counters_ticks dest!: b split: prod.splits)
  show "counters_ok as ps w1" if "limits (wired os conf) c n w = (d, w1)"
    using that by (auto simp: port_simps logged_Allow_def metered_Allow_def counters_frame
        intro!: counters_ticks dest!: b split: prod.splits sum.splits)
  show "counters_ok as ps w1" if "tokens_Check (wired os conf) c n w = (d, w1)"
    using that by (auto simp: port_simps logged_Check_def metered_Check_def counters_frame
        intro!: counters_ticks dest!: b split: prod.splits sum.splits)
  show "counters_ok as ps w1" if "tokens_Settle (wired os conf) c n x w = (r, w1)"
    using that by (auto simp: port_simps logged_Settle_def metered_Settle_def counters_frame
        intro!: counters_ticks dest!: b split: prod.splits option.splits)
  show "counters_ok as ps w1" if "slots (wired os conf) n w = (g, w1)"
    using that I by (auto simp: port_simps logged_TryAcquire_def metered_TryAcquire_def slots_below_def counters_frame
        intro!: counters_ticks split: prod.splits SlotGrant.splits)
  show "counters_ok as ps w1" if "provider (wired os conf) c mp req w = (p, w1)"
  proof -
    obtain y v where r: "router_Complete (wired_router os) c mp req w = (y, v)" by fastforce
    have "counters_ok as ps (snd (router_Complete (wired_router os) c mp req w))"
      by (rule router_keeps [OF router_wired _ counters_hook I])
        (simp_all add: http_below_frame [of "counters_ok as ps", OF counters_frame(1)])
    with r have "counters_ok as ps v" by simp
    with r that show ?thesis
      by (auto simp: port_simps decorated_provider_def logged_Complete_def metered_Complete_def counters_frame
          intro!: counters_ticks split: sum.splits)
  qed
  show "counters_ok as ps (usage (wired os conf) e w)"
    using I by (simp add: port_simps metered_Record_def logging_Record_def counters_frame counters_ticks)
next
  fix n rel and w w1 w2 :: "'a stores process"
  assume "slots (wired os conf) n w = (Granted rel, w1)" "counters_ok as ps w2"
  then show "counters_ok as ps (rel w2)"
    by (auto simp: port_simps logged_TryAcquire_def metered_TryAcquire_def slots_below_def counters_frame
        split: prod.splits SlotGrant.splits)
qed

lemma serve_counters: "counters_ok as ps w \<Longrightarrow> counters_ok as ps (serve_posts (booted os conf) rs w)"
  by (rule booted_keeps) (simp_all add: typed.chat_keeps counters_frame counters_ticks)

lemma boot_counters:
  assumes "boot os c path conf (new_process as ps w) = (Inr (srv, sc, is), Q)"
  shows "counters_ok as ps Q"
proof -
  from built_counters [OF boot_builds(1) [OF assms]] new_counters [of as ps w] show ?thesis
    by (simp add: counters_ok_def labelled_def)
qed

text \<open>The credential sources of a configuration, sorted, and the counter of triggered refreshes, which
  starts empty and gets a key when a trigger first starts a refresh: only a provider with a source
  ever gets one.\<close>

definition secret_names :: "GatewayConfig \<Rightarrow> string list" where
  "secret_names conf = sort (remdups (map fst (SecretProviders (SecretPart conf))))"

definition triggers_ok :: "string list \<Rightarrow> 'e world \<Rightarrow> bool" where
  "triggers_ok ks P \<longleftrightarrow> ProviderKeys.Providers (st_keys (base P)) = ks \<and>
     distinct (map fst (triggerM P)) \<and> fst ` set (triggerM P) \<subseteq> set ks"

text \<open>The credentials, and what is counted of their triggers, are behind the provider port alone.\<close>

definition keys_view :: "'e world \<Rightarrow> Cache \<times> (string \<times> int) list" where
  "keys_view P = (st_keys (base P), triggerM P)"

lemma keys_view_frame [simp]:
  "keys_view (to_journal l P) = keys_view P" "keys_view (dirM_update f1 P) = keys_view P"
  "keys_view (rateM_update f2 P) = keys_view P" "keys_view (tokenM_update f3 P) = keys_view P"
  "keys_view (slotM_update f4 P) = keys_view P" "keys_view (providerM_update f5 P) = keys_view P"
  "keys_view (usageM_update f6 P) = keys_view P" "keys_view (P\<lparr>base := (base P)\<lparr>st_env := e\<rparr>\<rparr>) = keys_view P"
  "keys_view (P\<lparr>base := (base P)\<lparr>st_slots := l'\<rparr>\<rparr>) = keys_view P"
  by (simp_all add: keys_view_def to_journal_def)

lemma keys_view_below: "(\<And>w. st_keys (snd (f w)) = st_keys w) \<Longrightarrow> keys_view (snd (below f P)) = keys_view P"
  by (simp add: keys_view_def below_def split_beta)

lemma keys_invariant:
  fixes s :: "'e world Service"
  assumes s: "s = (wired os conf)\<lparr>provider := pr\<rparr>"
    and frame: "\<And>P Q. keys_view Q = keys_view P \<Longrightarrow> I P \<Longrightarrow> I Q"
    and prov: "\<And>c mp req w. I w \<Longrightarrow> I (snd (pr c mp req w))"
  shows "port_invariant s I"
proof
  fix c k a n d x r mp req p g e rel and w w1 w2 :: "'e world"
  have b: "keys_view (snd (below (directory_of os (AuthPart conf) c k) P)) = keys_view P"
    "keys_view (snd (below (Allow (wired_rate os conf) c n) P)) = keys_view P"
    "keys_view (snd (below (Check (wired_budget os conf) c n) P)) = keys_view P"
    "keys_view (snd (below (Settle (wired_budget os conf) c n x) P)) = keys_view P" for P
    by (rule keys_view_below; simp add: limiter_stores directory_of_def)+
  have "keys_view (snd (apps s c k w)) = keys_view w" "keys_view (snd (limits s c n w)) = keys_view w"
    "keys_view (snd (tokens_Check s c n w)) = keys_view w" "keys_view (snd (tokens_Settle s c n x w)) = keys_view w"
    using b [of w]
    by (auto simp: s port_simps decorated_directory_def logged_AppForKey_def metered_AppForKey_def logged_Allow_def
        metered_Allow_def logged_Check_def metered_Check_def logged_Settle_def metered_Settle_def
        split: prod.split sum.split option.split)
  then show "apps s c k w = (a, w1) \<Longrightarrow> I w1" "limits s c n w = (d, w1) \<Longrightarrow> I w1"
    "tokens_Check s c n w = (d, w1) \<Longrightarrow> I w1" "tokens_Settle s c n x w = (r, w1) \<Longrightarrow> I w1" if "I w"
    using frame [OF _ that] by (metis snd_conv)+
  have slot: "keys_view w1 = keys_view w \<and> (g = Granted rel \<longrightarrow> keys_view (rel w2) = keys_view w2)"
    if "slots s n w = (g, w1)" for g rel w2
    using that by (auto simp: s port_simps logged_TryAcquire_def metered_TryAcquire_def slots_below_def slots_of_def
        split: prod.splits sum.splits SlotGrant.splits)
  show "slots s n w = (g, w1) \<Longrightarrow> I w \<Longrightarrow> I w1" using slot frame by blast
  show "slots s n w = (Granted rel, w1) \<Longrightarrow> I w2 \<Longrightarrow> I (rel w2)" using slot frame by blast
  show "provider s c mp req w = (p, w1) \<Longrightarrow> I w \<Longrightarrow> I w1" using prov [of w c mp req] by (simp add: s)
  show "I w \<Longrightarrow> I (usage s e w)"
    by (rule frame) (simp_all add: s port_simps metered_Record_def logging_Record_def)
qed

lemma triggers_hook: "triggers_ok ks P \<Longrightarrow> triggers_ok ks (on_rejected clk p P)"
proof (cases "TriggerRefresh p (clk P) (clk P) (st_keys (base P))")
  case (Pair b C)
  assume ok: "triggers_ok ks P"
  have names: "map fst C = map fst (st_keys (base P))"
    using Pair by (cases b) (auto simp: trigger_started dest: trigger_ignored)
  show ?thesis
  proof (cases b)
    case True
    with Pair obtain e where "map_of (st_keys (base P)) p = Some e" by (auto simp: trigger_started)
    then have "p \<in> set (ProviderKeys.Providers (st_keys (base P)))"
      by (auto simp: Providers_def dest!: map_of_SomeD intro: rev_image_eqI)
    with ok names Pair True show ?thesis
      by (auto simp: on_rejected_def on_keys_def put_stores_def to_journal_def triggers_ok_def Trigger_def
          Providers_def dom_update distinct_update)
  next
    case False
    with ok names Pair show ?thesis
      by (simp add: on_rejected_def on_keys_def put_stores_def triggers_ok_def Providers_def)
  qed
qed

lemma triggers_frame: "keys_view Q = keys_view P \<Longrightarrow> triggers_ok ks P \<Longrightarrow> triggers_ok ks Q"
  by (simp add: keys_view_def triggers_ok_def)

lemma view_provider:
  assumes "\<And>P Q. keys_view Q = keys_view P \<Longrightarrow> I P \<Longrightarrow> I Q" and "\<And>clk w. I w \<Longrightarrow> I (on_rejected clk (Provider mp) w)" "I w"
  shows "I (snd (provider (wired os conf) c mp req w))"
proof -
  have "I (snd (do_request (http_below (http_client os)) c rq w))" if "I w" for c rq w
    using that assms(1) [of "snd (do_request (http_below (http_client os)) c rq w)" w]
    by (simp add: http_below_frame [of keys_view])
  from router_keeps [OF router_wired, of I, OF this assms(2,3)]
  have "I (snd (router_Complete (wired_router os) c mp req w))" .
  moreover have "keys_view (snd (provider (wired os conf) c mp req w)) =
      keys_view (snd (router_Complete (wired_router os) c mp req w))"
    by (simp add: port_simps decorated_provider_def logged_Complete_def metered_Complete_def Let_def
        split: prod.split sum.split)
  ultimately show ?thesis using assms(1) by blast
qed

interpretation triggers: port_invariant "wired os conf" "triggers_ok ks" for os conf ks
  by (rule keys_invariant [where pr = "provider (wired os conf)" and os = os and conf = conf])
    (auto intro: view_provider triggers_frame triggers_hook)

lemma serve_triggers: "triggers_ok ks w \<Longrightarrow> triggers_ok ks (serve_posts (booted os conf) rs w)"
proof (rule booted_keeps)
  show "triggers_ok ks (snd (Chat (wired os conf) c k q w))" if "triggers_ok ks w" for c k q w
    using that by (rule triggers.chat_keeps)
qed (simp_all add: triggers_ok_def to_journal_def)

text \<open>The cache a boot leaves has one entry per configured source.\<close>

lemma fill_names: "fill_entries srcs C = Inr C' \<Longrightarrow>
    fst ` set C' = fst ` set C \<union> fst ` set srcs \<and> (distinct (map fst C) \<longrightarrow> distinct (map fst C'))"
proof (induction srcs arbitrary: C)
  case (Cons x srcs)
  obtain p src where x: "x = (p, src)" by fastforce
  with Cons.prems have "fill_entries srcs (AList.update p (fresh_entry src) C) = Inr C'"
    by (simp split: if_splits)
  from Cons.IH [OF this] show ?case by (auto simp: x dom_update distinct_update)
qed simp

lemma new_cache_names:
  assumes "NewCache fetch (map (\<lambda>(p, s). (p, src s)) ps) = Inr C"
  shows "ProviderKeys.Providers C = sort (remdups (map fst ps))"
proof -
  from assms have "fill_entries (map (\<lambda>(p, s). (p, src s)) ps) [] = Inr C"
    by (simp add: NewCache_def split: if_splits)
  from fill_names [OF this] show ?thesis
    unfolding Providers_def by (intro sorted_distinct_set_unique) (simp_all add: image_image split_beta)
qed

lemma each_names: "map fst (fst (snd (refresh_each (cache_Refresh fetch clk) c ps (C, w)))) = map fst C"
proof (induction ps arbitrary: C w)
  case (Cons p ps)
  obtain err C1 w1 where "cache_Refresh fetch clk c p (C, w) = (err, C1, w1)" by (metis prod_cases3)
  with refresh_kept(2) [of fetch clk c p C w] Cons [of C1 w1] show ?case by (simp add: split_beta Let_def)
qed simp

lemma boot_names:
  assumes "boot os c path conf P = (Inr (srv, sc, is), Q)"
  shows "ProviderKeys.Providers (st_keys (base Q)) = secret_names conf"
proof -
  from assms obtain dir ck1 P1 prov ck2 P2 rate budget P3 l where
    p: "newProviderClient os c conf ck1 P1 = (Inr (prov, ck2), P2)"
    and l: "newLimiters os conf P2 = (Inr (rate, budget), P3)" and Q: "Q = to_journal l P3"
    unfolding boot_def by (auto dest!: bind_boot_Inr split: option.splits prod.splits)
  have names: "ProviderKeys.Providers (st_keys (base (snd (on_keys (RefreshAll f clk c) V)))) =
      ProviderKeys.Providers (st_keys (base V))" for f clk and V :: "'a world"
    using each_names [of f clk c "ProviderKeys.Providers (st_keys (base V))" "st_keys (base V)" V]
    by (simp add: on_keys_def RefreshAll_def put_stores_def split_beta Let_def Providers_def)
  let ?srcs = "map (\<lambda>(p, s). (p, \<lparr>Path = SPath s, SourceInterval = SInterval s\<rparr>)) (SecretProviders (SecretPart conf))"
  obtain kind where kind: "newFetcher (SecretPart conf) = Inr kind"
    using p by (cases "newFetcher (SecretPart conf)") (auto simp: newProviderClient_def)
  obtain C where C: "NewCache (map_option (fetcher_of os) kind) ?srcs = Inr C"
    using p kind by (cases "NewCache (map_option (fetcher_of os) kind) ?srcs") (auto simp: newProviderClient_def Let_def)
  have "ProviderKeys.Providers C = secret_names conf"
    unfolding secret_names_def by (rule new_cache_names [OF C])
  with p kind C have "ProviderKeys.Providers (st_keys (base P2)) = secret_names conf"
    by (auto simp: newProviderClient_def Let_def split_beta names to_journal_def put_stores_def
        split: sum.splits option.splits)
  with l show ?thesis by (auto simp: Q newLimiters_def put_stores_def to_journal_def split: sum.splits)
qed

text \<open>C37: The counters keep their keys. In a booted process, after any requests, every keyed counter has
  exactly the keys the configuration gave it: the apps, the providers, and their products with the
  two fixed tables. The one counter that grows, of triggered credential refreshes, has each of its
  keys once, and they are providers the configuration gives a credential source.\<close>

theorem counters_typed:
  assumes "boot os c path conf (new_process (appNames conf) (providerNames conf) w) = (Inr (srv, sc, is), Q)"
  shows "counters_ok (appNames conf) (providerNames conf) (serve_posts srv rs Q) \<and>
    triggers_ok (secret_names conf) (serve_posts srv rs Q)"
proof -
  have "triggerM Q = []"
    using built_counters [OF boot_builds(1) [OF assms]] by (simp add: new_process_def)
  with boot_names [OF assms] have "triggers_ok (secret_names conf) Q" by (simp add: triggers_ok_def)
  then show ?thesis
    unfolding boot_wired [OF assms] by (intro conjI serve_triggers serve_counters boot_counters [OF assms])
qed

section \<open>Statuses\<close>

text \<open>C16: The status contract of the data path. Whatever is posted to a booted gateway, and whatever
  becomes of the stores, the cluster and the providers behind it, the answer is one of ten
  statuses, never a 500, and every 429 says when to come back, at least one second later.\<close>

theorem status_contract:
  assumes "boot os c path conf P = (Inr (srv, sc, is), Q)"
  shows "\<exists>n. rs_status (answer srv (post r) W) = Some n \<and>
     n \<in> {200, 400, 401, 413, 415, 429, 499, 502, 503, 504} \<and>
     (if n = 429
      then \<exists>k \<ge> 1. map_of (rs_headers (answer srv (post r) W)) ''Retry-After'' = Some (itoa k)
      else True)"
proof -
  have "fst (sv_chat (plain_server os (ServerPart conf) (chat_of (wired os conf)) process_checker) c k q V) =
      Some (fst (Chat (wired os conf) c k q V))" for c k q V
    using booted_chat(1) [OF booted_def] by (simp add: booted_def)
  from edge_status [OF this wired_meters.metered_service_axioms] show ?thesis
    unfolding boot_wired [OF assms] booted_def .
qed

section \<open>Series\<close>

text \<open>All the series a process can export: the gateway's, and those of the credentials, the signing
  keys, the slots and the edge.\<close>

definition process_series :: "GatewayConfig \<Rightarrow> string list \<Rightarrow> (string \<times> (string \<times> string) list) list" where
  "process_series conf ks =
     series_space (appNames conf) (providerNames conf) @
     (label_all [''provider_key_refresh_total'', ''provider_key_refresh_failures_total''] [[]] @
      label_all [''provider_key_refresh_triggered_total'', ''provider_key_age_seconds'']
        (map (\<lambda>p. [(''provider'', p)]) ks)) @
     label_all [''jwks_cache_age_seconds''] [[]] @
     label_all [''in_flight''] (map (\<lambda>x. [(''app'', fst x)]) (Limits conf)) @
     label_all [''http_requests_total'', ''http_server_errors_total'', ''http_panics_total''] [[]]"

lemma within_gauge [simp]:
  "within_labels w (gauge n f) ls \<longleftrightarrow> mset (map snd (f w)) \<subseteq># mset ls"
  "in_name (gauge n f) = n"
  by (simp_all add: within_labels_def gauge_def)

lemma sometimes_mono:
  "mset (map snd (concat (map (\<lambda>p. case f p of None \<Rightarrow> [] | Some x \<Rightarrow> [(g x, l p)]) ks))) \<subseteq># mset (map l ks)"
proof -
  have "mset (concat (map (\<lambda>p. map snd (case f p of None \<Rightarrow> [] | Some x \<Rightarrow> [(g x, l p)])) ks)) \<subseteq># mset (concat (map (\<lambda>p. [l p]) ks))"
    by (rule concat_mono) (simp split: option.split)
  then show ?thesis by (simp add: map_concat o_def)
qed

lemma other_series:
  "mset (map series (collect (key_instruments rf tr cache clk ks) w)) \<subseteq>#
     mset (label_all [''provider_key_refresh_total'', ''provider_key_refresh_failures_total''] [[]] @
       label_all [''provider_key_refresh_triggered_total'', ''provider_key_age_seconds''] (map (\<lambda>p. [(''provider'', p)]) ks))"
  "mset (map series (collect (auth_instruments keys clk) w)) \<subseteq># mset (label_all [''jwks_cache_age_seconds''] [[]])"
  "mset (map series (collect (slots_instruments l names) w)) \<subseteq># mset (label_all [''in_flight''] (map (\<lambda>a. [(''app'', a)]) names))"
  "mset (map series (collect (api_instruments rq panics) w)) \<subseteq>#
     mset (label_all [''http_requests_total'', ''http_server_errors_total'', ''http_panics_total''] [[]])"
proof -
  let ?ks = "map (\<lambda>p. [(''provider'', p)]) ks"
  have trig: "mset (map snd (concat (map (\<lambda>p. active (f p) [(''provider'', p)]) ks))) \<subseteq># mset ?ks" for f
    using active_mono [of f "\<lambda>p. [(''provider'', p)]" ks] by (simp add: map_concat o_def)
  have "list_all2 (within_labels w) (key_instruments rf tr cache clk ks) [[[]], [[]], ?ks, ?ks]"
    unfolding key_instruments_def
    by (simp add: trig sometimes_mono [where l = "\<lambda>p. [(''provider'', p)]"] del: mset_map map_concat)
  from collect_within [OF this] show "mset (map series (collect (key_instruments rf tr cache clk ks) w)) \<subseteq>#
     mset (label_all [''provider_key_refresh_total'', ''provider_key_refresh_failures_total''] [[]] @
       label_all [''provider_key_refresh_triggered_total'', ''provider_key_age_seconds''] ?ks)"
    by (simp add: key_instruments_def label_all_def del: mset_map)
  have "list_all2 (within_labels w) (auth_instruments keys clk) [[[]]]"
    by (simp add: auth_instruments_def split: option.split)
  from collect_within [OF this] show
    "mset (map series (collect (auth_instruments keys clk) w)) \<subseteq># mset (label_all [''jwks_cache_age_seconds''] [[]])"
    by (simp add: auth_instruments_def label_all_def del: mset_map)
  have "list_all2 (within_labels w) (slots_instruments l names) [map (\<lambda>a. [(''app'', a)]) names]"
    by (simp add: slots_instruments_def o_def)
  from collect_within [OF this] show
    "mset (map series (collect (slots_instruments l names) w)) \<subseteq># mset (label_all [''in_flight''] (map (\<lambda>a. [(''app'', a)]) names))"
    by (simp add: slots_instruments_def label_all_def del: mset_map)
  have "list_all2 (within_labels w) (api_instruments rq panics) [[[]], [[]], [[]]]"
    by (simp add: api_instruments_def)
  from collect_within [OF this] show "mset (map series (collect (api_instruments rq panics) w)) \<subseteq>#
     mset (label_all [''http_requests_total'', ''http_server_errors_total'', ''http_panics_total''] [[]])"
    by (simp add: api_instruments_def label_all_def del: mset_map)
qed

lemma process_series_length: "length (process_series conf ks) =
    16 + 18 * length (AppTable (AuthPart conf)) + 8 * length (providerNames conf) + 2 * length ks + length (Limits conf)"
  by (simp add: process_series_def space_length appNames_def label_all_def)

text \<open>C38: How many metric series the process exports is fixed by its configuration. Whatever requests a
  booted gateway has served, one collection of all its instruments exports only series built from
  the configured apps, providers and credential sources and the two fixed tables, each at most once
  for each time the name is listed: at most sixteen, eighteen per app, eight per provider, two per
  credential source and one per app limit.\<close>

theorem series_bounded:
  assumes "boot os c path conf (new_process (appNames conf) (providerNames conf) w) = (Inr (srv, sc, is), Q)"
  shows "let exported = map series (collect is (serve_posts srv rs Q))
   in mset exported \<subseteq># mset (process_series conf (secret_names conf)) \<and>
      length exported \<le> 16 + 18 * length (AppTable (AuthPart conf)) + 8 * length (providerNames conf) +
        2 * length (secret_names conf) + length (Limits conf)"
proof -
  let ?ks = "secret_names conf" and ?W = "serve_posts srv rs Q"
  from assms obtain P3 line where "registerMetrics os conf (ProviderKeys.Providers (st_keys (base P3))) = (None, is)"
    "Q = to_journal line P3"
    unfolding boot_def by (auto dest!: bind_boot_Inr split: option.splits prod.splits)
  then have "registerMetrics os conf ?ks = (None, is)"
    using boot_names [OF assms] by (simp add: to_journal_def)
  then have "is": "is = process_instruments os conf ?ks"
    using register_all [of "refused_names os" "process_instruments os conf ?ks" "[]"]
      register_refused [of "refused_names os" "process_instruments os conf ?ks" "[]"]
    by (auto simp: registerMetrics_all)
  have "labelled (appNames conf) (providerNames conf) ?W"
    using serve_counters [OF boot_counters [OF assms], of os conf rs] unfolding boot_wired [OF assms] counters_ok_def by blast
  note part = gateway_series [OF this]
  have limits: "map (\<lambda>a. [(''app'', a)]) (map fst (Limits conf)) = map (\<lambda>x. [(''app'', fst x)]) (Limits conf)" by simp
  have join: "mset xs \<subseteq># mset ys \<Longrightarrow> mset us \<subseteq># mset vs \<Longrightarrow> mset (xs @ us) \<subseteq># mset (ys @ vs)"
    for xs ys us vs :: "(string \<times> (string \<times> string) list) list"
    by (simp add: subset_mset.add_mono)
  have sub: "mset (map series (collect is ?W)) \<subseteq># mset (process_series conf ?ks)"
    unfolding "is" process_instruments_def process_series_def collect_append map_append limits [symmetric]
    by (intro join part other_series)
  from size_mset_mono [OF this] have "length (map series (collect is ?W)) \<le> length (process_series conf ?ks)"
    by (simp only: size_mset)
  with sub show ?thesis by (simp only: Let_def process_series_length)
qed

section \<open>The properties at a booted process\<close>

abbreviation lit_process :: "nat world" where
  "lit_process \<equiv> new_process (appNames demo_conf) (providerNames demo_conf) empty_stores"

abbreviation lit_boot :: "nat world Server \<Rightarrow> nat world instrument list \<Rightarrow> nat world \<Rightarrow> bool" where
  "lit_boot srv is Q \<equiv> \<exists>sc. boot lit background ''c.yaml'' demo_conf lit_process = (Inr (srv, sc, is), Q)"

theorem slots_given_back_witness:
  "\<exists>srv is Q. lit_boot srv is Q \<and>
     InFlight (st_slots (base (serve_posts srv [lit_call, demo_call, lit_call] Q))) ''search'' = 0"
proof -
  obtain sc "is" Q where b: "boot lit background ''c.yaml'' demo_conf lit_process = (Inr (booted lit demo_conf, sc, is), Q)"
    by (rule lit_boots)
  from slots_given_back [OF b] b show ?thesis by blast
qed

theorem counters_typed_witness:
  "\<exists>srv is Q. lit_boot srv is Q \<and>
     counters_ok [''agent'', ''search''] (providerNames demo_conf) (serve_posts srv [lit_call, demo_call] Q)"
proof -
  obtain sc "is" Q where b: "boot lit background ''c.yaml'' demo_conf lit_process = (Inr (booted lit demo_conf, sc, is), Q)"
    by (rule lit_boots)
  have "appNames demo_conf = [''agent'', ''search'']" by code_simp
  with counters_typed [OF b, of "[lit_call, demo_call]"] b show ?thesis by auto
qed

theorem status_contract_witness:
  "\<exists>srv is Q. lit_boot srv is Q \<and>
     (\<exists>n \<in> {200, 400, 401, 413, 415, 429, 499, 502, 503, 504}. rs_status (answer srv (post demo_call) Q) = Some n)"
proof -
  obtain sc "is" Q where b: "boot lit background ''c.yaml'' demo_conf lit_process = (Inr (booted lit demo_conf, sc, is), Q)"
    by (rule lit_boots)
  from status_contract [OF b, of demo_call Q] b show ?thesis by blast
qed

theorem series_bounded_witness:
  "\<exists>srv is Q. lit_boot srv is Q \<and>
     length (map series (collect is (serve_posts srv [lit_call, demo_call] Q))) \<le>
       16 + 18 * 2 + 8 * 2 + 2 * 1 + 2"
proof -
  obtain sc "is" Q where b: "boot lit background ''c.yaml'' demo_conf lit_process = (Inr (booted lit demo_conf, sc, is), Q)"
    by (rule lit_boots)
  have n: "length (AppTable (AuthPart demo_conf)) = 2" "length (providerNames demo_conf) = 2" "length (Limits demo_conf) = 2"
    "length (secret_names demo_conf) = 1"
    by code_simp+
  from series_bounded [OF b, of "[lit_call, demo_call]"] b show ?thesis unfolding Let_def n by blast
qed

section \<open>The exit of the process\<close>

text \<open>How the wait of \<open>run\<close> has to end for the exit to be clean: the server stopped without an error,
  or a signal came and the drain ended within its budget, which starts at the signal.\<close>

definition ended_well :: "'e outside \<Rightarrow> 'e world listener \<Rightarrow> GatewayConfig \<Rightarrow> ending \<times> 'e world \<Rightarrow> bool" where
  "ended_well os N conf hw = (case hw of
     (Served err, P) \<Rightarrow> err = None
   | (Signalled, P) \<Rightarrow> fst (net_shutdown N (with_timeout background (time_of os (base P)) (drain_timeout conf))
       (to_journal (log_line LInfo ''shutdown initiated'' []) P)) = None)"

lemma exit_zero: "exit_code r = 0 \<longleftrightarrow> r = None"
  by (simp add: exit_code_def split: option.split)

lemma run_end_clean: "fst (run_end (Shutdown N) flush os conf how P) = None \<longleftrightarrow> ended_well os N conf (how, P)"
  by (simp add: run_end_def ended_well_def Shutdown_def to_journal_def Let_def
      split: ending.split prod.split option.split)

lemma map_sum_Inr: "map_sum f id x = Inr y \<longleftrightarrow> x = Inr y"
  by (cases x) auto

text \<open>C35: The exit code of the process tells how its life went. It is zero exactly when the file is read,
  decoded and accepted, the configuration is \<open>bootable\<close> (the ServiceAccount directory is usable,
  the cluster has not named another issuer, the identity block, the app table and the quota store
  are filled in, its files can be read, the deadlines are ordered, the metrics SDK accepts), and the
  life of the server that \<open>booted\<close> describes ends well: it stopped cleanly, or a signal's drain
  ended within its budget. So a bootable configuration always gets to serve: a cluster, a secret
  store, a quota store or a provider that is merely down never keeps the process from it, and an
  exporter that cannot be flushed never turns a clean exit into a failure.\<close>

theorem exit_zero_iff:
  "exit_code (fst (run os open_file decode N flush life c path w)) = 0 \<longleftrightarrow>
    (case open_file path of Inl _ \<Rightarrow> False | Inr s \<Rightarrow>
      (case decode s of Inl _ \<Rightarrow> False | Inr f \<Rightarrow>
        (case wire_toDomain f of Inl _ \<Rightarrow> False | Inr conf \<Rightarrow>
          let P = new_process (appNames conf) (providerNames conf) w
          in bootable os c conf (st_env w) (quota_env os c conf P) \<and>
             ended_well os N conf
               (life (booted os conf) (with_defaults (ServerPart conf)) (snd (boot os c path conf P))))))"
proof (cases "Load open_file decode path")
  case (Inl e)
  then show ?thesis
    by (auto simp: run_def exit_zero Load_def split: sum.splits)
next
  case (Inr conf)
  then obtain s f where s: "open_file path = Inr s" "decode s = Inr f" and f: "wire_toDomain f = Inr conf"
    by (auto simp: Load_def map_sum_Inr split: sum.splits)
  let ?P = "new_process (appNames conf) (providerNames conf) w"
  have ok: "ok (boot os c path conf ?P) \<longleftrightarrow> bootable os c conf (st_env w) (quota_env os c conf ?P)"
    using boot_ok_iff [OF f, of os c path ?P] by (simp add: new_process_def)
  show ?thesis
  proof (cases "ok (boot os c path conf ?P)")
    case True
    then obtain srv sc "is" Q where b: "boot os c path conf ?P = (Inr (srv, sc, is), Q)"
      by (metis okE prod_cases3)
    moreover from b have "sc = with_defaults (ServerPart conf)" by (rule checker_built)
    ultimately show ?thesis
      using s f Inr ok True boot_wired [OF b] by (simp add: run_def exit_zero run_end_clean split: prod.split)
  next
    case False
    then obtain e Q where "boot os c path conf ?P = (Inl e, Q)" by (rule not_okE)
    with s f Inr ok False show ?thesis by (simp add: run_def exit_zero Let_def)
  qed
qed

theorem exit_zero_iff_witness:
  "exit_code (fst (run dark (\<lambda>_. Inr ()) (\<lambda>_. Inr demo_file)
     \<lparr>net_listen = \<lambda>a w. (Inr a, w), net_serve = \<lambda>_ w. (ErrServerClosed, w), net_shutdown = \<lambda>c w. (None, w)\<rparr>
     (\<lambda>c w. (Some (ErrText ''collector down''), w)) (\<lambda>srv sc w. (Signalled, w)) background ''c.yaml'' empty_stores)) = 0"
proof -
  obtain conf where c: "wire_toDomain demo_file = Inr conf" using demo_file_accepted by blast
  show ?thesis
    unfolding exit_zero_iff using demo_bootable [OF c] by (simp add: c ended_well_def)
qed

end
