(* ===== verification/Ledger.thy ===== *)
theory Ledger
  imports WiredProps
begin

text \<open>
  The log of the process and its counters are kept by different decorators; here is why they tell
  one story.
\<close>

section \<open>What the log says\<close>

text \<open>How often the shown log has a line with this message and these attributes.\<close>

definition tells :: "string \<Rightarrow> (string \<times> attr) list \<Rightarrow> line \<Rightarrow> bool" where
  "tells m as l \<longleftrightarrow> shown l \<and> ln_msg l = m \<and> list_all (\<lambda>x. x \<in> set (ln_attrs l)) as"

definition said :: "string \<Rightarrow> (string \<times> attr) list \<Rightarrow> 'w process \<Rightarrow> int" where
  "said m as P = int (length (filter (tells m as) (journal P)))"

lemma said_line: "said m as (to_journal l P) = said m as P + (if tells m as l then 1 else 0)"
  by (simp add: said_def to_journal_def)

lemma said_frame [simp]:
  "said m as (P\<lparr>base := b\<rparr>) = said m as P" "said m as (snd (below f P)) = said m as P"
  "said m as (dirM_update f1 P) = said m as P" "said m as (rateM_update f2 P) = said m as P"
  "said m as (tokenM_update f3 P) = said m as P" "said m as (slotM_update f4 P) = said m as P"
  "said m as (providerM_update f5 P) = said m as P" "said m as (usageM_update f6 P) = said m as P"
  "said m as (refreshM_update f7 P) = said m as P" "said m as (triggerM_update f8 P) = said m as P"
  "said m as (requestM_update f9 P) = said m as P" "said m as (panicM_update f10 P) = said m as P"
  by (simp_all add: said_def below_def split_beta)

lemma tells_line: "tells m as (log_line lv m' bs) \<longleftrightarrow> LInfo \<le> lv \<and> m' = m \<and> list_all (\<lambda>x. x \<in> set bs) as"
  by (simp add: tells_def shown_def log_line_def)

lemma levels [simp]: "LInfo \<le> LInfo" "LInfo \<le> LWarn" "LInfo \<le> LError" "\<not> LInfo \<le> LDebug"
  by (simp_all add: less_eq_level_def)

section \<open>The audit\<close>

text \<open>What is counted and also logged: for each fact, the message and the attributes of its line, and
  the counter. Refusals are not among them: their counter has only the codes of its table.\<close>

type_synonym 'w audit = "string \<times> (string \<times> attr) list \<times> ('w process \<Rightarrow> int)"

definition edge_audit :: "'w audit list" where
  "edge_audit =
     [(''request refused: api key not recognized'', [], \<lambda>P. dir_refused (dirM P)),
      (''rate limiter down, quota unenforced'', [], \<lambda>P. rc_failOpen (rateM P)),
      (''token limiter down, budget unenforced'', [], \<lambda>P. tc_failOpen (tokenM P)),
      (''token debit lost, budget under-counted'', [], \<lambda>P. tc_debitsFailed (tokenM P))]"

definition app_audit :: "string \<Rightarrow> 'w audit list" where
  "app_audit a =
     [(''in-flight ceiling refused a slot'', [(''app'', AStr a)], \<lambda>P. kget (sl_refused (slotM P)) a),
      (''completion served'', [(''app'', AStr a)], \<lambda>P. kget (us_completions (usageM P)) a),
      (''completion served'', [(''app'', AStr a), (''failed_over'', ABool True)], \<lambda>P. kget (us_failedOvers (usageM P)) a),
      (''request admitted unmetered'', [(''app'', AStr a)], \<lambda>P. kget (us_failOpens (usageM P)) a),
      (''failover risks double spend'', [(''app'', AStr a)], \<lambda>P. kget (us_doubleSpendRisks (usageM P)) a),
      (''caller disconnected mid-request'', [(''app'', AStr a)], \<lambda>P. kget (us_disconnects (usageM P)) a)]"

definition audited :: "string list \<Rightarrow> 'w audit list" where
  "audited names = edge_audit @ concat (map app_audit names)"

text \<open>A fact agrees when its counter is the number of its lines, from a log that had \<open>k\<close> of them when
  the counter was zero.\<close>

definition agrees :: "(string \<Rightarrow> (string \<times> attr) list \<Rightarrow> int) \<Rightarrow> 'w process \<Rightarrow> 'w audit \<Rightarrow> bool" where
  "agrees k P x = (case x of (m, as, f) \<Rightarrow> f P = i64 (said m as P - k m as))"

lemma agrees_iff: "agrees k P (m, as, f) \<longleftrightarrow> f P = i64 (said m as P - k m as)"
  by (simp add: agrees_def)

lemma list_all_audited: "list_all (agrees k P) (audited names) \<longleftrightarrow>
    list_all (agrees k P) edge_audit \<and> (\<forall>a \<in> set names. list_all (agrees k P) (app_audit a))"
  by (auto simp: audited_def list_all_iff)

text \<open>The keys the audit needs are there and stay there.\<close>

definition kept :: "string list \<Rightarrow> 'w process \<Rightarrow> bool" where
  "kept names P \<longleftrightarrow> (\<forall>a \<in> set names. has (sl_refused (slotM P)) a \<and> has (us_completions (usageM P)) a \<and>
     has (us_failedOvers (usageM P)) a \<and> has (us_failOpens (usageM P)) a \<and> has (us_doubleSpendRisks (usageM P)) a \<and>
     has (us_disconnects (usageM P)) a)"

definition audit_ok :: "(string \<Rightarrow> (string \<times> attr) list \<Rightarrow> int) \<Rightarrow> string list \<Rightarrow> 'w process \<Rightarrow> bool" where
  "audit_ok k names P \<longleftrightarrow> kept names P \<and> list_all (agrees k P) (audited names)"

lemma one_more: "(x :: int) - k + 1 = x + 1 - k"
  by simp

lemmas audit_defs = audit_ok_def kept_def list_all_audited edge_audit_def app_audit_def agrees_iff

lemma audit_frame [simp]:
  "audit_ok k names (P\<lparr>base := b\<rparr>) = audit_ok k names P"
  "audit_ok k names (snd (below f P)) = audit_ok k names P"
  "audit_ok k names (requestM_update g P) = audit_ok k names P"
  "audit_ok k names (panicM_update h P) = audit_ok k names P"
  "audit_ok k names (triggerM_update t P) = audit_ok k names P"
  "audit_ok k names (providerM_update q P) = audit_ok k names P"
  by (simp_all add: audit_defs below_def split_beta)

text \<open>A line no fact is told by changes nothing.\<close>

definition audit_messages :: "string list" where
  "audit_messages = [''request refused: api key not recognized'', ''rate limiter down, quota unenforced'',
     ''token limiter down, budget unenforced'', ''token debit lost, budget under-counted'',
     ''in-flight ceiling refused a slot'', ''completion served'', ''request admitted unmetered'',
     ''failover risks double spend'', ''caller disconnected mid-request'']"

lemma audit_messages: "x \<in> set (audited names) \<Longrightarrow> fst x \<in> set audit_messages \<and> snd (snd x) (to_journal l P) = snd (snd x) P"
  by (auto simp: audited_def edge_audit_def app_audit_def audit_messages_def to_journal_def)

lemma said_other: "ln_msg l \<noteq> m \<Longrightarrow> said m as (to_journal l P) = said m as P"
  by (simp add: said_line tells_def)

lemma audit_other_line:
  assumes "ln_msg l \<notin> set audit_messages"
  shows "audit_ok k names (to_journal l P) = audit_ok k names P"
proof -
  have "agrees k (to_journal l P) x = agrees k P x" if "x \<in> set (audited names)" for x
  proof -
    from audit_messages [OF that, of l P] assms have "ln_msg l \<noteq> fst x" by auto
    with audit_messages [OF that, of l P] show ?thesis by (cases x) (simp add: agrees_def said_other)
  qed
  then have "list_all (agrees k (to_journal l P)) (audited names) = list_all (agrees k P) (audited names)"
    by (intro list.pred_cong) simp_all
  moreover have "kept names (to_journal l P) = kept names P" by (simp add: kept_def to_journal_def)
  ultimately show ?thesis by (simp add: audit_ok_def)
qed

lemma edge_line: "ln_msg l \<in> set edge_messages \<Longrightarrow> audit_ok k names (to_journal l P) = audit_ok k names P"
  by (rule audit_other_line) (auto simp: edge_messages_def audit_messages_def)


section \<open>Every port keeps the audit\<close>

lemma line_frame [simp]:
  "dirM (to_journal l P) = dirM P" "rateM (to_journal l P) = rateM P" "tokenM (to_journal l P) = tokenM P"
  "slotM (to_journal l P) = slotM P" "usageM (to_journal l P) = usageM P"
  by (simp_all add: to_journal_def)

lemma audit_lookup:
  assumes "audit_ok k names P"
  shows "audit_ok k names (dirM_update (count_lookup True) P)"
    "audit_ok k names (to_journal (log_line LWarn ''request refused: api key not recognized'' as)
       (dirM_update (count_lookup False) P))"
  using assms by (simp_all add: audit_defs count_lookup_def said_line tells_line one_more)

lemma audit_decision:
  assumes "audit_ok k names P"
  shows "audit_ok k names (rateM_update (count_decision (Inr d)) P)"
    "audit_ok k names (to_journal (log_line LError ''rate limiter down, quota unenforced'' as)
       (rateM_update (count_decision (Inl e)) P))"
  using assms by (simp_all add: audit_defs count_decision_def said_line tells_line one_more)

lemma audit_check:
  assumes "audit_ok k names P"
  shows "audit_ok k names (tokenM_update (count_check (Inr d)) P)"
    "audit_ok k names (to_journal (log_line LError ''token limiter down, budget unenforced'' as)
       (tokenM_update (count_check (Inl e)) P))"
  using assms by (simp_all add: audit_defs count_check_def said_line tells_line one_more)

lemma audit_debit:
  assumes "audit_ok k names P"
  shows "audit_ok k names (tokenM_update (count_debit None n) P)"
    "audit_ok k names (to_journal (log_line LError ''token debit lost, budget under-counted'' as)
       (tokenM_update (count_debit (Some e) n) P))"
  using assms by (simp_all add: audit_defs count_debit_def said_line tells_line one_more)

lemma audit_claim:
  assumes "audit_ok k names P"
  shows "audit_ok k names (slotM_update (count_claim a True) P)"
    "audit_ok k names (to_journal (log_line LWarn ''in-flight ceiling refused a slot'' [(''app'', AStr a), (''ceiling'', ANum n)])
       (slotM_update (count_claim a False) P))"
  subgoal using assms by (simp add: audit_defs count_claim_def)
  subgoal using assms by (simp add: audit_defs count_claim_def said_line tells_line one_more kget_kadd)
  done

lemma audit_usage:
  assumes "audit_ok k names P"
  shows "audit_ok k names (metered_Record usageM_update (logging_Record to_journal) e P)"
proof (cases e)
  case (RecordCompletion a mp u l f)
  with assms show ?thesis
    by (simp add: audit_defs metered_Record_def logging_Record_def said_line tells_line one_more kget_kadd Let_def)
next
  case (RecordRejection a code)
  with assms show ?thesis
    by (simp add: audit_defs metered_Record_def logging_Record_def said_line tells_line)
next
  case (RecordRateLimiterFailOpen a)
  with assms show ?thesis
    by (simp add: audit_defs metered_Record_def logging_Record_def said_line tells_line one_more kget_kadd)
next
  case (RecordDoubleSpendRisk a mp n)
  with assms show ?thesis
    by (simp add: audit_defs metered_Record_def logging_Record_def said_line tells_line one_more kget_kadd)
next
  case (RecordClientDisconnect a mp n)
  with assms show ?thesis
    by (simp add: audit_defs metered_Record_def logging_Record_def said_line tells_line one_more kget_kadd)
qed

interpretation audit: port_invariant "wired os conf" "audit_ok k names" for os conf k names
proof
  fix c ky a n d x r mp req p g e and w w1 :: "'a stores process"
  assume I: "audit_ok k names w"
  have b: "below f w = (y, v) \<Longrightarrow> audit_ok k names v" for f v and y :: 'z
    using audit_frame(2) [of k names f w] I by simp
  show "audit_ok k names w1" if "apps (wired os conf) c ky w = (a, w1)"
    using that by (auto simp: port_simps decorated_directory_def logged_AppForKey_def metered_AppForKey_def
        intro!: audit_lookup dest!: b split: prod.splits)
  show "audit_ok k names w1" if "limits (wired os conf) c n w = (d, w1)"
    using that by (auto simp: port_simps logged_Allow_def metered_Allow_def
        intro!: audit_decision dest!: b split: prod.splits sum.splits)
  show "audit_ok k names w1" if "tokens_Check (wired os conf) c n w = (d, w1)"
    using that by (auto simp: port_simps logged_Check_def metered_Check_def
        intro!: audit_check dest!: b split: prod.splits sum.splits)
  show "audit_ok k names w1" if "tokens_Settle (wired os conf) c n x w = (r, w1)"
    using that by (auto simp: port_simps logged_Settle_def metered_Settle_def
        intro!: audit_debit dest!: b split: prod.splits option.splits)
  show "audit_ok k names w1" if "slots (wired os conf) n w = (g, w1)"
    using that I by (auto simp: port_simps logged_TryAcquire_def metered_TryAcquire_def slots_below_def
        intro!: audit_claim split: prod.splits SlotGrant.splits)
  show "audit_ok k names w1" if "provider (wired os conf) c mp req w = (p, w1)"
  proof -
    have plain: "m \<notin> set audit_messages \<Longrightarrow> audit_ok k names (to_journal (log_line lv m as) v) = audit_ok k names v"
      for lv m as and v :: "'a stores process"
      by (rule audit_other_line) (simp add: log_line_def)
    have hook: "audit_ok k names v \<Longrightarrow> audit_ok k names (on_rejected clk q v)" for clk q and v :: "'a stores process"
      by (cases "TriggerRefresh q (clk v) (clk v) (st_keys (base v))")
        (simp add: on_rejected_def on_keys_def put_stores_def plain audit_messages_def)
    obtain y v where r: "router_Complete (wired_router os) c mp req w = (y, v)" by fastforce
    have "audit_ok k names (snd (router_Complete (wired_router os) c mp req w))"
      by (rule router_keeps [OF router_wired _ hook I])
        (simp_all add: http_below_frame [of "audit_ok k names", OF audit_frame(1)])
    with r have "audit_ok k names v" by simp
    with r that show ?thesis
      by (auto simp: port_simps decorated_provider_def logged_Complete_def metered_Complete_def plain audit_messages_def split: sum.splits)
  qed
  show "audit_ok k names (usage (wired os conf) e w)"
    using audit_usage [OF I] by (simp add: port_simps)
next
  fix n rel and w w1 w2 :: "'a stores process"
  assume "slots (wired os conf) n w = (Granted rel, w1)" "audit_ok k names w2"
  then show "audit_ok k names (rel w2)"
    by (auto simp: port_simps logged_TryAcquire_def metered_TryAcquire_def slots_below_def
        split: prod.splits SlotGrant.splits)
qed

lemma serve_audit: "audit_ok k names w \<Longrightarrow> audit_ok k names (serve_posts (booted os conf) rs w)"
  by (rule booted_keeps) (simp_all add: audit.chat_keeps edge_line)

text \<open>C20: The log and the counters tell one story. In a booted process, after any requests, each of
  these facts was counted exactly as often as the shown log has its line since the boot: refused
  tokens, quota stores that were down, lost debits, and per app refused slots, completions,
  failovers, unmetered admissions, possible double spends and disconnects (as 64-bit counters:
  modulo the wrap).\<close>

theorem log_agrees:
  assumes "boot os c path conf (new_process (appNames conf) (providerNames conf) w) = (Inr (srv, sc, is), Q)"
  shows "list_all (agrees (\<lambda>m as. said m as Q) (serve_posts srv rs Q)) (audited (appNames conf))"
proof -
  let ?k = "\<lambda>m as. said m as Q"
  have "audit_ok ?k (appNames conf) Q"
    using built_counters [OF boot_builds(1) [OF assms]]
    by (simp add: audit_defs new_process_def NewSlotCounts_def NewUsageCounts_def has_def keys_new Let_def)
  then have "audit_ok ?k (appNames conf) (serve_posts (booted os conf) rs Q)"
    by (rule serve_audit)
  then show ?thesis by (simp add: boot_wired [OF assms] audit_ok_def)
qed

theorem log_agrees_witness:
  "\<exists>srv is Q. lit_boot srv is Q \<and>
     (let W = serve_posts srv [lit_call, demo_call] Q
      in dir_refused (dirM W) = i64 (said ''request refused: api key not recognized'' [] W -
           said ''request refused: api key not recognized'' [] Q) \<and>
         kget (us_completions (usageM W)) ''search'' =
           i64 (said ''completion served'' [(''app'', AStr ''search'')] W -
             said ''completion served'' [(''app'', AStr ''search'')] Q))"
proof -
  obtain sc "is" Q where b: "boot lit background ''c.yaml'' demo_conf lit_process = (Inr (booted lit demo_conf, sc, is), Q)"
    by (rule lit_boots)
  have "appNames demo_conf = [''agent'', ''search'']" by code_simp
  then have "''search'' \<in> set (appNames demo_conf)" by simp
  moreover note log_agrees [OF b, of "[lit_call, demo_call]"]
  ultimately have "list_all (agrees (\<lambda>m as. said m as Q) (serve_posts (booted lit demo_conf) [lit_call, demo_call] Q)) edge_audit"
    "list_all (agrees (\<lambda>m as. said m as Q) (serve_posts (booted lit demo_conf) [lit_call, demo_call] Q)) (app_audit ''search'')"
    unfolding list_all_audited by blast+
  with b show ?thesis
    by (intro exI [of _ "booted lit demo_conf"] exI [of _ "is"] exI [of _ Q] conjI)
      (simp_all only: Let_def edge_audit_def app_audit_def agrees_iff list.pred_inject, blast+)
qed

end
