(* ===== verification/WiredTasks.thy ===== *)
theory WiredTasks
  imports Tasks Ledger
begin

text \<open>
  The requests of a booted gateway side by side: the semaphore of \<^theory_text>\<open>SlotsLimiter\<close> is a limiter that
  many hold slots of at once, and so what it counts is what the requests hold.
\<close>

section \<open>Claims of the semaphore\<close>

text \<open>The closures whose \<open>sync.Once\<close> has not run, each with the app it captured.\<close>

definition open_claims :: "Limiter \<Rightarrow> (nat \<times> string) multiset" where
  "open_claims l = image_mset (\<lambda>h. (h, fst (onces l ! h)))
     (filter_mset (\<lambda>h. \<not> snd (onces l ! h)) (mset_set {..<length (onces l)}))"

lemma mset_nth: "mset xs = image_mset (\<lambda>h. xs ! h) (mset_set {..<length xs})"
  by (metis atLeast0LessThan map_nth mset_map mset_upt)

lemma claims_outstanding: "image_mset snd (open_claims l) = outstanding l"
  by (simp add: open_claims_def outstanding_def mset_nth [of "onces l"] filter_mset_image_mset image_mset.compositionality o_def)

lemma claims_new [simp]: "open_claims (NewLimiter g own) = {#}"
  by (simp add: open_claims_def NewLimiter_def)

lemma claims_acquire:
  assumes "TryAcquire app l = (Inl h, l1)"
  shows "open_claims l1 = add_mset (h, app) (open_claims l)"
proof -
  have "filter_mset (\<lambda>h. \<not> snd ((onces l @ [(app, False)]) ! h)) (mset_set {..<length (onces l)}) =
      filter_mset (\<lambda>h. \<not> snd (onces l ! h)) (mset_set {..<length (onces l)})"
    by (rule filter_mset_cong) (auto simp: nth_append)
  moreover have "image_mset (\<lambda>h. (h, fst ((onces l @ [(app, False)]) ! h)))
        (filter_mset (\<lambda>h. \<not> snd (onces l ! h)) (mset_set {..<length (onces l)})) = open_claims l"
    unfolding open_claims_def by (rule image_mset_cong) (auto simp: nth_append)
  ultimately show ?thesis
    by (simp add: TryAcquire_granted [OF assms] open_claims_def [of "_\<lparr>onces := _\<rparr>"] open_claims_def [of "Limiter.extend _ _"]
        lessThan_Suc open_claims_def nth_append)
qed

lemma claims_release:
  assumes "open_claims l = add_mset (h, a) C"
  shows "h < length (onces l)" "onces l ! h = (a, False)" "open_claims (release h l) = C"
proof -
  have "(h, a) \<in># open_claims l" by (simp add: assms)
  then show h: "h < length (onces l)" "onces l ! h = (a, False)"
    by (auto simp: open_claims_def) (metis prod.collapse)
  let ?rest = "{..<length (onces l)} - {h}"
  have split: "mset_set {..<length (onces l)} = add_mset h (mset_set ?rest)"
    using h by (simp add: mset_set.remove)
  have C: "C = image_mset (\<lambda>h. (h, fst (onces l ! h))) (filter_mset (\<lambda>h. \<not> snd (onces l ! h)) (mset_set ?rest))"
    using assms h by (simp add: open_claims_def split)
  have "onces (release h l) = (onces l)[h := (a, True)]" using h by (simp add: release_def Let_def)
  moreover have "filter_mset (\<lambda>x. \<not> snd ((onces l)[h := (a, True)] ! x)) (mset_set ?rest) =
      filter_mset (\<lambda>x. \<not> snd (onces l ! x)) (mset_set ?rest)"
    by (rule filter_mset_cong) auto
  moreover have "image_mset (\<lambda>x. (x, fst ((onces l)[h := (a, True)] ! x)))
       (filter_mset (\<lambda>x. \<not> snd (onces l ! x)) (mset_set ?rest)) = C"
    unfolding C by (rule image_mset_cong) auto
  ultimately show "open_claims (release h l) = C" using h by (simp add: open_claims_def split)
qed

section \<open>The semaphore of the process\<close>

definition limiter_ok :: "int \<Rightarrow> (string \<Rightarrow> int option) \<Rightarrow> Limiter \<Rightarrow> bool" where
  "limiter_ok g own l \<longleftrightarrow> counts_ok l \<and> ceilings_ok l \<and> global l = g \<and> ceilings l = own"

lemma limiter_ok_acquire: "limiter_ok g own l \<Longrightarrow> limiter_ok g own (snd (TryAcquire app l))"
  using TryAcquire_counts [of l app] TryAcquire_ceilings [of l app]
  by (auto simp: limiter_ok_def TryAcquire_def Let_def)

lemma limiter_ok_release: "limiter_ok g own l \<Longrightarrow> h < length (onces l) \<Longrightarrow> limiter_ok g own (release h l)"
  using release_counts [of l h] release_ceilings [of l h]
  by (auto simp: limiter_ok_def release_def Let_def)

definition gives_back :: "('e world \<Rightarrow> 'e world) \<Rightarrow> nat \<Rightarrow> bool" where
  "gives_back rel h \<longleftrightarrow> (\<forall>w. st_slots (base (rel w)) = release h (st_slots (base w)))"

lemma wired_grant:
  assumes "slots (wired os conf) a w = (Granted rel, w1)"
  obtains h l1 where "TryAcquire a (st_slots (base w)) = (Inl h, l1)" "st_slots (base w1) = l1" "gives_back rel h"
  using assms unfolding gives_back_def
  by (auto simp: port_simps decorator_defs slots_of_def Let_def split: prod.splits sum.splits SlotGrant.splits)

interpretation pool: shared_slots "wired os conf" "\<lambda>P. st_slots (base P)" "limiter_ok g own" InFlight open_claims gives_back
  for os conf g own
proof (intro shared_slots.intro slot_client.intro shared_slots_axioms.intro)
  show "slot_limiter (slots (wired os conf)) (\<lambda>P. st_slots (base P)) (limiter_ok g own) InFlight"
  proof
    fix a n rel and w w1 w2 :: "'a stores process"
    show "slots (wired os conf) a w = (Refused n, w1) \<Longrightarrow> st_slots (base w1) = st_slots (base w)"
      using wired_slots.refused .
    assume ok: "limiter_ok g own (st_slots (base w))" and g: "slots (wired os conf) a w = (Granted rel, w1)"
    then have c: "counts_ok (st_slots (base w))" by (simp add: limiter_ok_def)
    obtain h l1 where t: "TryAcquire a (st_slots (base w)) = (Inl h, l1)" "st_slots (base w1) = l1" "gives_back rel h"
      using g by (rule wired_grant)
    show "limiter_ok g own (st_slots (base w1)) \<and> InFlight (st_slots (base w1)) =
        (InFlight (st_slots (base w)))(a := InFlight (st_slots (base w)) a + 1)"
      using limiter_ok_acquire [OF ok, of a] t wired_slots.granted [OF c g] by simp
    assume "st_slots (base w2) = st_slots (base w1)"
    with wired_slots.released [OF c g this] limiter_ok_release [OF limiter_ok_acquire [OF ok, of a], of h] t
    show "limiter_ok g own (st_slots (base (rel w2))) \<and> InFlight (st_slots (base (rel w2))) = InFlight (st_slots (base w))"
      using TryAcquire_granted [OF t(1)] by (simp add: gives_back_def)
  qed
  show "slot_client_axioms (wired os conf) (\<lambda>P. st_slots (base P))"
    by (rule wired_slots.slot_client_axioms [THEN slot_client.axioms(2)])
  fix a rel h C l and w w1 :: "'a stores process"
  show "\<exists>h. gives_back rel h \<and> open_claims (st_slots (base w1)) = add_mset (h, a) (open_claims (st_slots (base w)))"
    if "slots (wired os conf) a w = (Granted rel, w1)"
    using that by (rule wired_grant) (auto dest: claims_acquire)
  show "limiter_ok g own (st_slots (base (rel w))) \<and> open_claims (st_slots (base (rel w))) = C"
    if "limiter_ok g own (st_slots (base w))" "gives_back rel h" "open_claims (st_slots (base w)) = add_mset (h, a) C"
    using that limiter_ok_release claims_release [OF that(3)] by (simp add: gives_back_def)
  show "InFlight l a = int (count (image_mset snd (open_claims l)) a)" if "limiter_ok g own l"
    using that counts_mget [of l a] by (simp add: claims_outstanding limiter_ok_def InFlight_def)
qed

text \<open>C4: What the semaphore counts is what the requests hold. However the requests of a booted gateway
  interleave, and whatever else in the process goes on beside them, the count of an app is the
  number of its requests between their claim and their release, the total is the number of all such
  requests, no ceiling is ever exceeded, and when no request is at work both are zero.\<close>

theorem slots_side_by_side:
  assumes "boot os c path conf P = (Inr (srv, sc, is), Q)"
    and "serves (wired os conf) (\<lambda>v w. st_slots (base w) = st_slots (base v)) ({#}, Q) (ts, W)"
  shows "let l = st_slots (base W); own = mget (limit_map LMaxInFlight conf) a; cap = GlobalMaxInFlight conf
   in InFlight l a = int (count (image_mset snd (hands ts)) a) \<and> Total l = int (size (hands ts)) \<and>
      (if 0 < own then InFlight l a \<le> own else True) \<and> (if 0 < cap then Total l \<le> cap else True) \<and>
      (if filter_mset (\<lambda>x. \<not> finished (snd x)) ts = {#} then InFlight l a = 0 \<and> Total l = 0 else True)"
proof -
  let ?g = "GlobalMaxInFlight conf" and ?own = "limit_map LMaxInFlight conf"
  have Q: "st_slots (base Q) = NewLimiter ?g ?own" by (rule boot_builds(2) [OF assms(1)])
  have start: "limiter_ok ?g ?own (st_slots (base Q))" "open_claims (st_slots (base Q)) = {#}"
    unfolding Q limiter_ok_def using New_ok [of ?g ?own] by (simp_all, simp_all add: NewLimiter_def)
  note run = pool.held_by_tasks [OF assms(2) start]
  from run(1) have ok: "limiter_ok ?g ?own (st_slots (base W))" by (simp add: pool.matched_def)
  from run(1) have "size (hands ts) = size (open_claims (st_slots (base W)))"
    unfolding pool.matched_def by (blast dest: rel_mset_size)
  with ok have total: "Total (st_slots (base W)) = int (size (hands ts))"
    by (simp add: limiter_ok_def counts_ok_def Total_def claims_outstanding [symmetric])
  have none: "in_hand t = {#}" if "finished t" for t :: "'a stores process task"
    using that by (cases t) simp_all
  have "hands ts = {#}" if "filter_mset (\<lambda>x. \<not> finished (snd x)) ts = {#}"
    using that by (induction ts) (auto simp: none split: if_splits)
  with run(2) [of a] total ok show ?thesis
    by (auto simp: Let_def limiter_ok_def ceilings_ok_def Total_def)
qed

text \<open>One request that has asked for its app and one that has just arrived.\<close>

abbreviation lit_ask :: "nat world task" where
  "lit_ask \<equiv> Calling background ''aA.Yw.cw'' (toDomain lit_request)"

lemma lit_serves:
  obtains t W where "serves (wired lit demo_conf) env ({#}, Q) ({#(1, t), (0, lit_ask)#}, W)"
    "advance (wired lit demo_conf) lit_ask Q = (t, W)"
proof -
  obtain t W where a: "advance (wired lit demo_conf) lit_ask Q = (t, W)" by fastforce
  have "serves (wired lit demo_conf) env ({#}, Q) ({#(1, t), (0, lit_ask)#}, W)"
    using serves.more [OF serves.more [OF serves.more [OF serves.start side_step.arrives] side_step.arrives]
        side_step.moves [OF _ a, of env 0 "{#(0, lit_ask)#}"]] by simp
  with a that show thesis by blast
qed

theorem slots_side_by_side_witness:
  "\<exists>sc is Q t W. boot lit background ''c.yaml'' demo_conf lit_process = (Inr (booted lit demo_conf, sc, is), Q) \<and>
     advance (wired lit demo_conf) lit_ask Q = (t, W) \<and>
     InFlight (st_slots (base W)) ''search'' \<le> 8 \<and> Total (st_slots (base W)) \<le> 64"
proof -
  obtain sc "is" Q where b: "boot lit background ''c.yaml'' demo_conf lit_process = (Inr (booted lit demo_conf, sc, is), Q)"
    by (rule lit_boots)
  obtain t W where run: "serves (wired lit demo_conf) (\<lambda>v w. st_slots (base w) = st_slots (base v)) ({#}, Q)
      ({#(1, t), (0, lit_ask)#}, W)" and a: "advance (wired lit demo_conf) lit_ask Q = (t, W)"
    by (rule lit_serves)
  have "mget (limit_map LMaxInFlight demo_conf) ''search'' = 8" "GlobalMaxInFlight demo_conf = 64"
    by code_simp+
  with slots_side_by_side [OF b run, of "''search''"] a b show ?thesis by (auto simp: Let_def)
qed

section \<open>The books of the process\<close>

interpretation ledger: booked_service "wired os conf" usageM count_usage for os conf
proof
  fix c k a n mp req e rel and w w1 w2 :: "'a stores process"
  show "usageM (snd (apps (wired os conf) c k w)) = usageM w"
    by (auto simp: port_simps decorated_directory_def decorator_defs Let_def below_def split: prod.splits)
  show "usageM (snd (limits (wired os conf) c a w)) = usageM w"
    "usageM (snd (tokens_Check (wired os conf) c a w)) = usageM w"
    "usageM (snd (tokens_Settle (wired os conf) c a n w)) = usageM w"
    "usageM (snd (slots (wired os conf) a w)) = usageM w"
    by (auto simp: port_simps decorator_defs Let_def below_def split: prod.splits sum.splits option.splits SlotGrant.splits)
  show "usageM (rel w2) = usageM w2" if "slots (wired os conf) a w = (Granted rel, w1)"
    using that by (auto simp: port_simps decorator_defs Let_def split: prod.splits SlotGrant.splits)
  show "usageM (snd (provider (wired os conf) c mp req w)) = usageM w"
  proof (rule provider_frame)
    show "usageM (on_rejected clk p v) = usageM v" for clk p and v :: "'a stores process"
      by (cases "TriggerRefresh p (clk v) (clk v) (st_keys (base v))")
        (simp add: on_rejected_def on_keys_def put_stores_def)
  qed simp_all
  show "usageM (usage (wired os conf) e w) = count_usage e (usageM w)"
    by (simp add: port_simps metered_Record_def logging_Record_def)
qed

text \<open>The answers an app's callers have been served, among what is accounted for.\<close>

definition answered :: "string \<Rightarrow> (string \<times> (go_error + ChatResult)) multiset \<Rightarrow> ChatResult multiset" where
  "answered a A = image_mset (\<lambda>x. projr (snd x)) (filter_mset (\<lambda>x. fst x = a \<and> \<not> isl (snd x)) A)"

fun refused_with :: "ErrorCode \<Rightarrow> go_error + ChatResult \<Rightarrow> bool" where
  "refused_with code (Inl (ErrGateway e)) = (Code e = code)"
| "refused_with code _ = False"

fun caller_left :: "go_error + ChatResult \<Rightarrow> bool" where
  "caller_left (Inl (ErrWrap m (ErrCtx Canceled))) = True"
| "caller_left _ = False"

definition refusals :: "string \<Rightarrow> ErrorCode \<Rightarrow> (string \<times> (go_error + ChatResult)) multiset \<Rightarrow> nat" where
  "refusals a code A = size (filter_mset (\<lambda>x. fst x = a \<and> refused_with code (snd x)) A)"

definition departures :: "string \<Rightarrow> (string \<times> (go_error + ChatResult)) multiset \<Rightarrow> nat" where
  "departures a A = size (filter_mset (\<lambda>x. fst x = a \<and> caller_left (snd x)) A)"

definition in_balance :: "string \<Rightarrow> (string \<times> (go_error + ChatResult)) multiset \<Rightarrow> usage_counts \<Rightarrow> bool" where
  "in_balance a A m \<longleftrightarrow>
     kget (us_completions m) a = i64 (int (size (answered a A))) \<and>
     kget (us_promptTokens m) a = i64 (\<Sum>r \<in># answered a A. PromptTokens (RUsage r)) \<and>
     kget (us_completionTokens m) a = i64 (\<Sum>r \<in># answered a A. CompletionTokens (RUsage r)) \<and>
     list_all (\<lambda>code. kget (us_rejections m) (a, code) = i64 (int (refusals a code A))) ErrorCodes \<and>
     kget (us_disconnects m) a = i64 (int (departures a A))"

definition keyed_for :: "string \<Rightarrow> usage_counts \<Rightarrow> bool" where
  "keyed_for a m \<longleftrightarrow> has (us_completions m) a \<and> has (us_promptTokens m) a \<and> has (us_completionTokens m) a \<and>
     list_all (\<lambda>code. has (us_rejections m) (a, code)) ErrorCodes \<and> has (us_disconnects m) a"

lemmas balance_defs = in_balance_def keyed_for_def answered_def refusals_def departures_def

lemma balance_note: "keyed_for a m \<and> in_balance a A m \<Longrightarrow> \<not> terminal_event e \<Longrightarrow>
    keyed_for a (count_usage e m) \<and> in_balance a A (count_usage e m)"
  by (cases e) (simp_all add: in_balance_def keyed_for_def)

fun_cases accounts_elim: "accounts b r e"

lemma balance_account:
  assumes "keyed_for a m \<and> in_balance a A m" and "terminal_event e" and "accounts b r e"
  shows "keyed_for a (count_usage e m) \<and> in_balance a (add_mset (b, r) A) (count_usage e m)"
  using assms(3,1,2)
  by (elim accounts_elim)
    (auto simp: balance_defs Let_def kget_kadd list_all_iff algebra_simps)

text \<open>C19: The books balance while requests run side by side. In any interleaving of a booted gateway,
  an app's completions and tokens are those of the answers its requests have been given, its
  refusals per code and its disconnects are those of its other requests past their accounting, at
  every moment and whatever else the process does (as 64-bit counters: modulo the wrap).\<close>

theorem books_side_by_side:
  assumes "boot os c path conf (new_process (appNames conf) (providerNames conf) v) = (Inr (srv, sc, is), Q)"
    and "serves (wired os conf) (\<lambda>x y. usageM y = usageM x) ({#}, Q) (ts, W)"
    and "a \<in> set (appNames conf)"
  shows "in_balance a (accounts_of ts) (usageM W)"
proof -
  have Q: "usageM Q = NewUsageCounts (appNames conf)"
    using built_counters [OF boot_builds(1) [OF assms(1)]] by (simp add: new_process_def)
  have "keyed_for a (usageM Q) \<and> in_balance a {#} (usageM Q)"
    using assms(3) by (auto simp: Q balance_defs NewUsageCounts_def has_def keys_new list_all_iff appCodeKeys_def Let_def)
  then have "keyed_for a (usageM W) \<and> in_balance a (accounts_of ts) (usageM W)"
    by (rule ledger.books_kept [OF assms(2), of "\<lambda>A m. keyed_for a m \<and> in_balance a A m", OF _ _ balance_note balance_account])
  then show ?thesis by blast
qed

theorem books_side_by_side_witness:
  "\<exists>sc is Q t W. boot lit background ''c.yaml'' demo_conf lit_process = (Inr (booted lit demo_conf, sc, is), Q) \<and>
     advance (wired lit demo_conf) lit_ask Q = (t, W) \<and>
     in_balance ''search'' (accounts_of {#(1, t), (0, lit_ask)#}) (usageM W)"
proof -
  obtain sc "is" Q where b: "boot lit background ''c.yaml'' demo_conf lit_process = (Inr (booted lit demo_conf, sc, is), Q)"
    by (rule lit_boots)
  obtain t W where run: "serves (wired lit demo_conf) (\<lambda>v w. usageM w = usageM v) ({#}, Q)
      ({#(1, t), (0, lit_ask)#}, W)" and a: "advance (wired lit demo_conf) lit_ask Q = (t, W)"
    by (rule lit_serves)
  have "appNames demo_conf = [''agent'', ''search'']" by code_simp
  then have "''search'' \<in> set (appNames demo_conf)" by simp
  from books_side_by_side [OF b run this] a b show ?thesis by blast
qed

end
