(* ===== verification/Secrets.thy ===== *)
theory Secrets
  imports WiredProps
begin

text \<open>
  Who a credential can reach. The process holds the credentials of all providers in one cache; here
  is why a request sees only those of the providers its caller's policy permits: it goes the same
  way, sends the same bytes and leaves the same books when the others had never been loaded.
\<close>

section \<open>A process with some of its credentials\<close>

definition only_keys :: "string set \<Rightarrow> 'e world \<Rightarrow> 'e world" where
  "only_keys S = put_stores (\<lambda>w. w\<lparr>st_keys := filter (\<lambda>(p, e). p \<in> S) (st_keys w)\<rparr>)"

lemma only_keys_frame [simp]:
  "only_keys S (dirM_update f1 P) = dirM_update f1 (only_keys S P)"
  "only_keys S (rateM_update f2 P) = rateM_update f2 (only_keys S P)"
  "only_keys S (tokenM_update f3 P) = tokenM_update f3 (only_keys S P)"
  "only_keys S (slotM_update f4 P) = slotM_update f4 (only_keys S P)"
  "only_keys S (providerM_update f5 P) = providerM_update f5 (only_keys S P)"
  "only_keys S (usageM_update f6 P) = usageM_update f6 (only_keys S P)"
  "only_keys S (triggerM_update f7 P) = triggerM_update f7 (only_keys S P)"
  "only_keys S (to_journal l P) = to_journal l (only_keys S P)"
  "journal (only_keys S P) = journal P"
  "st_jwks (base (only_keys S P)) = st_jwks (base P)" "st_slots (base (only_keys S P)) = st_slots (base P)"
  "st_env (base (only_keys S P)) = st_env (base P)" "time_of os (base (only_keys S P)) = time_of os (base P)"
  by (simp_all add: only_keys_def put_stores_def to_journal_def time_of_def)

text \<open>What does not look at the credentials does not miss them.\<close>

definition blind :: "('e stores \<Rightarrow> 'r \<times> 'e stores) \<Rightarrow> bool" where
  "blind f \<longleftrightarrow> (\<forall>w C. f (w\<lparr>st_keys := C\<rparr>) = apsnd (\<lambda>v. v\<lparr>st_keys := C\<rparr>) (f w) \<and>
     st_keys (snd (f w)) = st_keys w)"

lemma blind_below: "blind f \<Longrightarrow> below f (only_keys S P) = apsnd (only_keys S) (below f P)"
proof -
  assume "blind f"
  then have b: "f ((base P)\<lparr>st_keys := C\<rparr>) = apsnd (\<lambda>v. v\<lparr>st_keys := C\<rparr>) (f (base P))"
      "st_keys (snd (f (base P))) = st_keys (base P)" for C
    by (simp_all add: blind_def)
  then show ?thesis
    by (cases "f (base P)") (simp add: below_def only_keys_def put_stores_def)
qed

lemma blind_env: "blind (in_env f)"
  by (simp add: blind_def in_env_def split: prod.split)

lemma blind_redis: "blind (redis_Int os c args)"
  by (simp add: blind_def redis_Int_def split: prod.split)

lemma blind_limiters:
  "blind (Allow (wired_rate os conf) c a)" "blind (Check (wired_budget os conf) c a)"
  "blind (Settle (wired_budget os conf) c a n)"
proof -
  note r = blind_redis [unfolded blind_def, rule_format, of os c]
  have t: "time_of os (w\<lparr>st_keys := C\<rparr>) = time_of os w" for w :: "'a stores" and C
    by (simp add: time_of_def)
  show "blind (Allow (wired_rate os conf) c a)" "blind (Check (wired_budget os conf) c a)"
    "blind (Settle (wired_budget os conf) c a n)"
    using r by (auto simp: blind_def Allow_def Check_def Settle_def wired_rate_def wired_budget_def NewRateLimiter_def
        NewTokenLimiter_def Let_def t apsnd_def map_prod_def split: prod.splits sum.splits) (metis snd_conv)+
qed

lemma blind_directory: "blind (directory_of os ac c k)"
  by (simp add: blind_def directory_of_def time_of_def)

section \<open>The providers\<close>

lemma post_json_commutes:
  assumes "\<And>c rq. do_request H c rq (f w) = apsnd f (do_request H c rq w)"
  shows "post_json H name url body hs d td c (f w) = apsnd f (post_json H name url body hs d td c w)"
proof -
  have "exchange H name d td c rq (f w) = apsnd f (exchange H name d td c rq w)" for rq
    by (simp add: exchange_def assms apsnd_def map_prod_def split: prod.split sum.split)
  then show ?thesis by (simp add: post_json_def split: sum.split option.split)
qed

lemma map_of_only: "p \<in> S \<Longrightarrow> map_of (filter (\<lambda>(p, e). p \<in> S) C) p = map_of C p"
  by (induction C) auto

lemma entry_only: "p \<in> S \<Longrightarrow> AList.map_entry p f (filter (\<lambda>(p, e). p \<in> S) C) = filter (\<lambda>(p, e). p \<in> S) (AList.map_entry p f C)"
  by (induction C) auto

lemma key_only: "p \<in> S \<Longrightarrow> cache_Key (\<lambda>P. st_keys (base P)) p (only_keys S P) = cache_Key (\<lambda>P. st_keys (base P)) p P"
  by (simp add: cache_Key_def KeyFor_def only_keys_def put_stores_def map_of_only)

lemma adapter_only:
  assumes "map_of (adapter_table os) n = Some (Some a)" and "n \<in> S"
  shows "a c mp req (only_keys S P) = apsnd (only_keys S) (a c mp req P)"
proof -
  let ?H = "http_below (http_client os)"
  have "do_request ?H c rq (only_keys S P) = apsnd (only_keys S) (do_request ?H c rq P)" for c rq
    by (simp add: http_below_def blind_below blind_env)
  note post = post_json_commutes [of ?H "only_keys S", OF this]
  consider
    "n = ''openai''" "a = openai_Complete (NewOpenAI ?H (Some ?H) (Some (cache_Key (\<lambda>P. st_keys (base P)) ''openai'')))"
  | "n = ''anthropic''" "a = anthropic_Complete (NewAnthropic ?H (Some ?H) (Some (cache_Key (\<lambda>P. st_keys (base P)) ''anthropic'')))"
  | "n = ''ollama''" "a = ollama_Complete (NewOllama ?H (Some ?H) (cache_Key (\<lambda>P. st_keys (base P)) ''ollama''))"
    using assms(1) unfolding adapter_table_def Let_def by (simp split: if_splits)
  then show ?thesis
    using assms(2)
    by cases (simp_all add: openai_Complete_def anthropic_Complete_def ollama_Complete_def NewOpenAI_def
        NewAnthropic_def NewOllama_def Let_def key_only post)
qed

lemma trigger_only: "p \<in> S \<Longrightarrow> TriggerRefresh p t t' (filter (\<lambda>(p, e). p \<in> S) C) =
    apsnd (filter (\<lambda>(p, e). p \<in> S)) (TriggerRefresh p t t' C)"
  by (simp add: TriggerRefresh_def map_of_only entry_only split: option.split)

lemma put_only: "put_stores (\<lambda>w. w\<lparr>st_keys := filter (\<lambda>(p, e). p \<in> S) C\<rparr>) (only_keys S P) =
    only_keys S (put_stores (\<lambda>w. w\<lparr>st_keys := C\<rparr>) P)"
  by (simp add: only_keys_def put_stores_def)

lemma rejected_only:
  assumes "\<And>P. clk (only_keys S P) = clk P" and "p \<in> S"
  shows "on_rejected clk p (only_keys S P) = only_keys S (on_rejected clk p P)"
proof (cases "TriggerRefresh p (clk P) (clk P) (st_keys (base P))")
  case (Pair b C)
  have "st_keys (base (only_keys S P)) = filter (\<lambda>(p, e). p \<in> S) (st_keys (base P))"
    by (simp add: only_keys_def put_stores_def)
  with Pair show ?thesis
    by (simp add: on_rejected_def on_keys_def assms trigger_only put_only)
qed

lemma router_only:
  assumes "Provider mp \<in> S"
  shows "router_Complete (wired_router os) c mp req (only_keys S P) =
    apsnd (only_keys S) (router_Complete (wired_router os) c mp req P)"
proof (cases "adapters (wired_router os) (Provider mp)")
  case (Some a)
  then have "map_of (adapter_table os) (Provider mp) = Some (Some a)"
    by (simp add: wired_router_def split: option.splits)
  from adapter_only [OF this assms] Some show ?thesis
    by (cases "a c mp req P")
      (simp add: router_Complete_def wired_router_def rejected_only [OF _ assms] split: sum.split)
qed (simp add: router_Complete_def)

section \<open>A service kept to some providers\<close>

definition confined :: "string set \<Rightarrow> 'w Service \<Rightarrow> 'w Service" where
  "confined S s = s\<lparr>provider := \<lambda>c mp req w.
     if Provider mp \<in> S then provider s c mp req w else (Inl (ErrText ''not permitted''), w)\<rparr>"

lemma confined_ports [simp]:
  "cfg (confined S s) = cfg s" "apps (confined S s) = apps s" "limits (confined S s) = limits s"
  "tokens_Check (confined S s) = tokens_Check s" "tokens_Settle (confined S s) = tokens_Settle s"
  "slots (confined S s) = slots s" "usage (confined S s) = usage s" "clock (confined S s) = clock s"
  by (simp_all add: confined_def)

lemma confined_steps [simp]:
  "settle (confined S s) = settle s" "exhausted (confined S s) = exhausted s"
  "meterRate (confined S s) = meterRate s" "meterTokens (confined S s) = meterTokens s"
  by (auto simp: fun_eq_iff settle_def exhausted_def meterRate_def meterTokens_def split: prod.split sum.split)

lemma loop_confined:
  "Provider ` set mps \<subseteq> S \<Longrightarrow> attempt_loop (confined S s) cc c app req con mps n tried w =
    attempt_loop s cc c app req con mps n tried w"
proof (induction mps arbitrary: n tried w)
  case (Cons mp mps)
  then have "tryModelProvider (confined S s) c mp req w = tryModelProvider s c mp req w"
    by (simp add: tryModelProvider_def confined_def)
  with Cons show ?case by (simp split: prod.split sum.split)
qed simp

text \<open>The providers of the rows an app may be answered by.\<close>

definition may_use :: "'w Service \<Rightarrow> App \<Rightarrow> string \<Rightarrow> string set" where
  "may_use s app model = Provider ` {mp \<in> set (ModelProviders (cfg s)). permits (Policy app) model (MPModel mp)}"

lemma chat_confined:
  assumes "\<And>app. fst (apps s c k w) = Some app \<Longrightarrow> may_use s app (Model req) \<subseteq> S"
  shows "Chat (confined S s) c k req w = Chat s c k req w"
proof -
  have "with_slot (confined S s) c app req v = with_slot s c app req v" if "fst (apps s c k w) = Some app" for app v
  proof -
    have "Provider ` set (fst (buildModelsProvidersFallback (Model req) (Policy app) (ModelProviders (cfg s)) (FailoverOrder (cfg s)))) \<subseteq> S"
      using assms [OF that] plan_row [where s = s and app = app and req = req] by (auto simp: may_use_def)
    then have "route (confined S s) c app req v = route s c app req v" for v
      by (cases "buildModelsProvidersFallback (Model req) (Policy app) (ModelProviders (cfg s)) (FailoverOrder (cfg s))")
        (simp add: route_def loop_confined Let_def)
    then show ?thesis by (simp add: with_slot_def split: prod.split SlotGrant.split)
  qed
  then show ?thesis
    by (cases "apps s c k w") (auto simp: Chat_def split: option.split prod.split)
qed

section \<open>The booted gateway\<close>

text \<open>Taking credentials away is a simulation of the gateway kept to the providers that are left.\<close>

interpretation secrets: service_simulation "confined S (wired os conf)" "confined S (wired os conf)" "only_keys S" for S os conf
proof
  fix c k n x mp req e cap rel p a d r and W W1 :: "'a world"
  note only = blind_below [OF blind_directory] blind_limiters [THEN blind_below] port_simps decorated_directory_def
    metered_AppForKey_def logged_AppForKey_def metered_Allow_def logged_Allow_def metered_Check_def logged_Check_def
    metered_Settle_def logged_Settle_def metered_TryAcquire_def logged_TryAcquire_def
  show "clock (confined S (wired os conf)) W = clock (confined S (wired os conf)) (only_keys S W)"
    by (simp add: wired_def)
  show "apps (confined S (wired os conf)) c k W = (a, W1) \<Longrightarrow>
      apps (confined S (wired os conf)) c k (only_keys S W) = (a, only_keys S W1)"
    by (auto simp: only Let_def split: prod.splits option.splits)
  show "limits (confined S (wired os conf)) c n W = (d, W1) \<Longrightarrow>
      limits (confined S (wired os conf)) c n (only_keys S W) = (d, only_keys S W1)"
    "tokens_Check (confined S (wired os conf)) c n W = (d, W1) \<Longrightarrow>
      tokens_Check (confined S (wired os conf)) c n (only_keys S W) = (d, only_keys S W1)"
    "tokens_Settle (confined S (wired os conf)) c n x W = (r, W1) \<Longrightarrow>
      tokens_Settle (confined S (wired os conf)) c n x (only_keys S W) = (r, only_keys S W1)"
    by (auto simp: only Let_def split: prod.splits sum.splits option.splits)
  show "slots (confined S (wired os conf)) n W = (Refused cap, W1) \<Longrightarrow>
      slots (confined S (wired os conf)) n (only_keys S W) = (Refused cap, only_keys S W1)"
    by (auto simp: only Let_def slots_below_def slots_of_def only_keys_def put_stores_def to_journal_def split: prod.splits sum.splits)
  show "slots (confined S (wired os conf)) n W = (Granted rel, W1) \<Longrightarrow>
      \<exists>rel'. slots (confined S (wired os conf)) n (only_keys S W) = (Granted rel', only_keys S W1) \<and>
        (\<forall>W2. only_keys S (rel W2) = rel' (only_keys S W2))"
    by (auto simp: only Let_def slots_below_def slots_of_def only_keys_def put_stores_def to_journal_def split: prod.splits sum.splits)
  show "provider (confined S (wired os conf)) c mp req W = (p, W1) \<Longrightarrow>
      provider (confined S (wired os conf)) c mp req (only_keys S W) = (p, only_keys S W1)"
    by (auto simp: confined_def port_simps decorated_provider_def metered_Complete_def logged_Complete_def router_only
        Let_def split: prod.splits sum.splits option.splits if_splits)
  show "only_keys S (usage (confined S (wired os conf)) e W) = usage (confined S (wired os conf)) e (only_keys S W)"
    by (simp add: port_simps metered_Record_def logging_Record_def)
qed simp

text \<open>What it holds of the credentials of the others, it keeps.\<close>

definition others :: "string set \<Rightarrow> 'e world \<Rightarrow> string \<Rightarrow> entry option" where
  "others S P p = (if p \<in> S then None else map_of (st_keys (base P)) p)"

lemma others_hook: "q \<in> S \<Longrightarrow> others S (on_rejected clk q P) = others S P"
proof (cases "TriggerRefresh q (clk P) (clk P) (st_keys (base P))")
  case (Pair b C)
  assume "q \<in> S"
  moreover from this Pair have "map_of C p = map_of (st_keys (base P)) p" if "p \<notin> S" for p
    using that by (cases b) (auto simp: trigger_started map_of_map_entry dest: trigger_ignored)
  ultimately show ?thesis
    using Pair by (auto simp: fun_eq_iff others_def on_rejected_def on_keys_def put_stores_def to_journal_def)
qed

interpretation bystanders: port_invariant "confined S (wired os conf)" "\<lambda>P. others S P = m" for S os conf m
proof (rule keys_invariant [where os = os and conf = conf])
  show "confined S (wired os conf) = (wired os conf)\<lparr>provider := provider (confined S (wired os conf))\<rparr>"
    by (simp add: confined_def)
  have frame: "others S Q = m" if "keys_view Q = keys_view P" "others S P = m" for P Q :: "'a world"
  proof -
    have "others S Q = others S P" using that(1) by (simp add: keys_view_def others_def fun_eq_iff)
    with that(2) show ?thesis by simp
  qed
  then show "others S Q = m" if "keys_view Q = keys_view P" "others S P = m" for P Q :: "'a world"
    using that .
  show "others S (snd (provider (confined S (wired os conf)) c mp req w)) = m" if "others S w = m" for c mp req w
    using view_provider [of "\<lambda>P. others S P = m", OF frame _ that] that
    by (auto simp: confined_def others_hook)
qed

text \<open>C15: A request learns nothing of the credentials of providers its caller may not use, and spends
  and touches none of them. Whatever set of providers covers the rows the caller's policy permits
  for the model it asks for, a booted gateway that never loaded the credentials of the others
  answers the same, exchanges the same with the network, Redis and the clock, and leaves the same
  log and counters; and the gateway that has loaded them leaves every one as it was, its time of
  loading and its refresh marks included.\<close>

theorem credentials_confined:
  assumes "\<And>app. fst (apps (wired os conf) c k P) = Some app \<Longrightarrow> may_use (wired os conf) app (Model req) \<subseteq> S"
  shows "Chat (wired os conf) c k req (only_keys S P) = apsnd (only_keys S) (Chat (wired os conf) c k req P) \<and>
    (\<forall>p. p \<notin> S \<longrightarrow>
       map_of (st_keys (base (snd (Chat (wired os conf) c k req P)))) p = map_of (st_keys (base P)) p)"
proof -
  obtain a W1 where ap: "apps (wired os conf) c k P = (a, W1)" by fastforce
  then have "apps (wired os conf) c k (only_keys S P) = (a, only_keys S W1)"
    using secrets.apps_sim [of S os conf c k P a W1] by simp
  with ap assms have same: "Chat (confined S (wired os conf)) c k req P = Chat (wired os conf) c k req P"
    "Chat (confined S (wired os conf)) c k req (only_keys S P) = Chat (wired os conf) c k req (only_keys S P)"
    by (auto intro!: chat_confined)
  with secrets.chat_sim [of S os conf c k req P]
  have "Chat (wired os conf) c k req (only_keys S P) = apsnd (only_keys S) (Chat (wired os conf) c k req P)"
    by (cases "Chat (wired os conf) c k req P") simp
  moreover have "others S (snd (Chat (wired os conf) c k req P)) = others S P"
    using bystanders.chat_keeps [of S P "others S P" os conf c k req] by (simp add: same)
  then have "map_of (st_keys (base (snd (Chat (wired os conf) c k req P)))) p = map_of (st_keys (base P)) p"
    if "p \<notin> S" for p
    using that by (auto simp: others_def dest!: fun_cong [of _ _ p])
  ultimately show ?thesis by blast
qed

text \<open>The gateway of the example configuration answers the demonstration call the same with or without
  a credential of a provider that is not in its table.\<close>

definition foreign_key :: entry where
  "foreign_key = \<lparr>source = \<lparr>Path = ''/keys/anthropic'', SourceInterval = 0\<rparr>, held_key = ''sk-1'', loadedAt = Some 5,
     refreshing = False, lastTrigger = None\<rparr>"

definition keyed_world :: "nat world" where
  "keyed_world = put_stores (\<lambda>w. w\<lparr>st_keys := [(''anthropic'', foreign_key)]\<rparr>) lit_world"

theorem credentials_confined_witness:
  "KeyFor (st_keys (base keyed_world)) ''anthropic'' = ''sk-1'' \<and>
   map_sum id RModel (fst (Chat (wired lit demo_conf) background ''aA.Yw.cw'' (toDomain lit_request) keyed_world)) = Inr ''llama'' \<and>
   snd (Chat (wired lit demo_conf) background ''aA.Yw.cw'' (toDomain lit_request) lit_world) =
     only_keys {''openai'', ''ollama''} (snd (Chat (wired lit demo_conf) background ''aA.Yw.cw'' (toDomain lit_request) keyed_world)) \<and>
   map_of (st_keys (base (snd (Chat (wired lit demo_conf) background ''aA.Yw.cw'' (toDomain lit_request) keyed_world)))) ''anthropic'' =
     Some foreign_key"
proof -
  have w: "only_keys {''openai'', ''ollama''} keyed_world = lit_world"
    by (simp add: only_keys_def keyed_world_def put_stores_def lit_world_def new_process_def empty_stores_def)
  have "may_use (wired lit demo_conf) app m \<subseteq> {''openai'', ''ollama''}" for app m
    by (auto simp: may_use_def wired_def demo_conf_def)
  from credentials_confined [OF this, of background "''aA.Yw.cw''" "toDomain lit_request" keyed_world, unfolded w]
  have "Chat (wired lit demo_conf) background ''aA.Yw.cw'' (toDomain lit_request) lit_world =
    apsnd (only_keys {''openai'', ''ollama''}) (Chat (wired lit demo_conf) background ''aA.Yw.cw'' (toDomain lit_request) keyed_world) \<and>
    (\<forall>p. p \<notin> {''openai'', ''ollama''} \<longrightarrow>
       map_of (st_keys (base (snd (Chat (wired lit demo_conf) background ''aA.Yw.cw'' (toDomain lit_request) keyed_world)))) p =
       map_of (st_keys (base keyed_world)) p)" .
  with lit_chat show ?thesis
    by (simp add: keyed_world_def put_stores_def KeyFor_def foreign_key_def)
qed

end
