(* ===== verification/Spec2Isabelle.thy ===== *)
theory Spec2Isabelle
  imports WiredTasks Secrets
begin

text \<open>
  A verification library of the LLM gateway: one process that takes chat requests from apps inside
  a Kubernetes cluster, identifies the app by its ServiceAccount token, holds it to its quotas, and
  answers with a completion from OpenAI, Anthropic or Ollama, failing over between them as far as
  the app's policy permits. This theory imports the rest and says what is where.

  \<^bold>\<open>The parts and how they meet.\<close> The core (\<open>internal/gateway\<close>) knows six ports: an app directory, a
  rate limiter, a token budget, a slot limiter, a provider client and a usage recorder. Its one
  operation, \<open>Chat\<close>, drives them in a fixed order. Each port has an adapter (\<open>internal/auth\<close>,
  \<open>internal/redis\<close>, \<open>internal/slots\<close>, \<open>internal/providers\<close> with one package per dialect), and two
  decorators around it that count and log (\<open>internal/metrics\<close>, \<open>internal/logs\<close>). The HTTP edge
  (\<open>internal/api\<close>) decodes a request into the core's vocabulary and the core's answer into a
  status and a body. Two caches are kept warm beside the requests: the cluster's signing keys and
  the providers' credentials (\<open>internal/providerkeys\<close>). \<open>cmd/gateway/main.go\<close> reads the
  configuration (\<open>internal/config\<close>), builds all of this, serves, and drains.

  The model threads one state through all of it. A component's operations take and return the part
  of the state they own, polymorphic in the rest of the world; \<^theory_text>\<open>Boot\<close> instantiates the world with
  the stores of the process (\<open>stores\<close>: both caches, the Vault token, the Redis pool, the semaphore)
  inside its observers (\<open>process\<close>: every counter, and the log as a list of lines). A fallible
  function returns a sum, an optional error an option; errors are the datatype \<open>go_error\<close>, which
  keeps wrapping as the code does; a panic is a flag of the handler's result. Go's \<open>int\<close> and
  \<open>time.Duration\<close> are integers with the 64-bit wrap (\<open>i64\<close>) written where the code adds, and
  truncating division is \<open>sdiv\<close> and \<open>smod\<close>. Maps that are only looked up are maps, maps that are
  iterated are association lists, and where the order of iteration could matter it is an argument.

  \<^bold>\<open>Foundations.\<close>
  \<^item> \<^theory_text>\<open>Prelude\<close>: 64-bit arithmetic, decimal text, association lists; the collections \<open>go_simps\<close> and
    \<open>port_simps\<close>.
  \<^item> \<^theory_text>\<open>GatewayDomain\<close> (\<open>internal/gateway\<close>: \<open>gateway_domain.go\<close>, \<open>chat.go\<close>, \<open>tool.go\<close>, \<open>policy.go\<close>,
    \<open>errors.go\<close>): the domain, contexts as deadlines, faults and gateway errors.
  \<^item> \<^theory_text>\<open>Ports\<close>: the interfaces as locales, with what each client proves from them alone:
    \<open>slot_limiter\<close> and \<open>slot_client\<close> (a claim that is granted is given back), \<open>rate_limiter\<close> and
    \<open>metered_service\<close> (a refusal says when to come back), \<open>provider_client\<close> (a failed call is a
    classified fault). \<^theory_text>\<open>Observe\<close> adds \<open>port_invariant\<close> (what every port keeps, \<open>Chat\<close> keeps),
    \<open>service_simulation\<close> and \<open>call_counter\<close>; \<^theory_text>\<open>Web\<close> has \<open>fail_static\<close>; \<^theory_text>\<open>Tasks\<close> has \<open>shared_slots\<close>
    and \<open>booked_service\<close>. Each is interpreted on the code's own operations, in the theory of the
    component that provides them.

  \<^bold>\<open>The core.\<close>
  \<^item> \<^theory_text>\<open>Fallback\<close> (\<open>fallback_logic_build.go\<close>): the plan, its loops, and the exact rows and order each
    policy permits.
  \<^item> \<^theory_text>\<open>Service\<close> (\<open>llm_gateway.go\<close>): \<open>New\<close> and all of \<open>Chat\<close>. \<^theory_text>\<open>ChatTrace\<close> runs it over ports that
    write down their calls and the answers to them; \<^theory_text>\<open>ChatProps\<close> reads the protocol off the trace: the
    order of the calls, that the first refusal ends them, one accounting record per request, the slot released once and last, at most two attempts and never
    two at one provider, the deadlines, and that a failing limiter is an admitting one.
  \<^item> \<^theory_text>\<open>SlotsLimiter\<close> (\<open>internal/slots\<close>): the semaphore as a step relation; under every interleaving
    it counts the outstanding slots exactly, and releasing twice is releasing once.

  \<^bold>\<open>The adapters.\<close>
  \<^item> \<^theory_text>\<open>Redis\<close>, \<^theory_text>\<open>RedisQuota\<close> (\<open>limiter.go\<close>, \<open>tokenlimiter.go\<close>): both limiters and their scripts over a
    server given by its documented commands; over any run inside one window they refine an exact
    count per app. \<^theory_text>\<open>RedisClient\<close> (\<open>client.go\<close>): the wire format, dialing, and the pool.
  \<^item> \<^theory_text>\<open>Json\<close> (the decoding of \<open>encoding/json\<close> into structs), \<^theory_text>\<open>ProviderHttp\<close> (\<open>internal/shared\<close>),
    \<^theory_text>\<open>OpenAI\<close>, \<^theory_text>\<open>Anthropic\<close>, \<^theory_text>\<open>Ollama\<close>: both directions of each dialect. \<^theory_text>\<open>Router\<close>
    (\<open>internal/providers\<close>): what is sent for a row, and the fault and the charge of every outcome.
  \<^item> \<^theory_text>\<open>Web\<close>, \<^theory_text>\<open>Auth\<close> (\<open>internal/auth\<close>): the key cache, the verification of a token down to an exact
    characterisation of the tokens that open an app, discovery, and the refresh loop.
  \<^item> \<^theory_text>\<open>ProviderKeys\<close>, \<^theory_text>\<open>KeysProps\<close> (\<open>internal/providerkeys\<close>): the credential cache, files and Vault;
    its steps interleave, a credential is never lost, and rejections cannot flood the store.

  \<^bold>\<open>The edge and the configuration.\<close>
  \<^item> \<^theory_text>\<open>ApiWire\<close>, \<^theory_text>\<open>ApiRequest\<close>, \<^theory_text>\<open>ApiServer\<close>, \<^theory_text>\<open>ApiProps\<close> (\<open>internal/api\<close>): the schema, the strict
    decoder, the handlers and the middleware chain, routing, and the listener.
  \<^item> \<^theory_text>\<open>Durations\<close>, \<^theory_text>\<open>Config\<close> (\<open>internal/config\<close>): \<open>Load\<close> from the decoded file on; which files are
    accepted, what they become, and that the order of their maps does not matter.

  \<^bold>\<open>Observation and the whole process.\<close>
  \<^item> \<^theory_text>\<open>Metrics\<close>, \<^theory_text>\<open>Logs\<close>, \<^theory_text>\<open>Health\<close> (\<open>internal/metrics\<close>, \<open>internal/logs\<close>, \<open>internal/health\<close>): the
    decorators, the counters and their readers, the lines, the readiness checks. \<^theory_text>\<open>Observe\<close> and
    \<^theory_text>\<open>ObserveProps\<close> wrap them around the core: it answers as if they were not there, and their books
    balance. \<^theory_text>\<open>Otlp\<close> (\<open>internal/metrics/otlp\<close>): every instrument with its callback.
  \<^item> \<^theory_text>\<open>Boot\<close>, \<^theory_text>\<open>BootProps\<close> (\<open>main.go\<close>): \<open>run\<close> and all its helpers, what keeps a configuration from
    booting, and what the readiness routes say.
  \<^item> \<^theory_text>\<open>Wired\<close>, \<^theory_text>\<open>WiredProps\<close>: the booted process as one service over the whole world, on which the
    locales are interpreted once more. Here are the end-to-end properties: what a stranger and a
    known caller get, the statuses, slots given back, the keys of the counters, the bound on the
    exported series, and the exit code. \<^theory_text>\<open>Ledger\<close>: the log and the counters tell one story.
    \<^theory_text>\<open>Secrets\<close>: a request depends on no credential of a provider its caller may not use, and
    touches none.
  \<^item> \<^theory_text>\<open>Tasks\<close>: \<open>Chat\<close> cut at its port calls into the steps of a task (\<open>advance\<close>), many of which share
    a server (\<open>serves\<close>). Run alone the steps are \<open>Chat\<close>; side by side every request still ends within
    its own sixteen steps, and the accounting records and the answers pair up. \<^theory_text>\<open>WiredTasks\<close> runs the
    booted gateway that way: its semaphore counts the requests between claim and release, and its
    usage counters the answers given.

  \<^bold>\<open>Concurrency.\<close> The requests of a server run side by side. Each shared object has its operations
  as atomic as the mutex of the code makes them: the semaphore, the credential cache and the Redis
  server have step relations of their own, the counters are atomic adds and commute. Requests
  interleave at their calls of the ports (\<^theory_text>\<open>Tasks\<close>), with steps of the rest of the process between
  them as far as the property allows; a call of a port, decorators included, is one step. The
  properties of the HTTP edge run whole requests, from any state of the stores, so what happened in
  between is in the state they start from.

  \<^bold>\<open>Loops and fuel.\<close> No definition uses fuel. Loops over lists are structural; the decoding of
  durations and of RESP shrinks its text (a measure); the pool and the attempts are bounded by the
  lists they run over. A request takes at most sixteen steps (a measure on its task), so \<open>alone\<close> with
  sixteen steps is the whole of it. Loops that run until the process ends (\<open>KeepFresh\<close>) take the
  sequence of their wake-ups as an argument, so every statement about them is about every finite
  prefix.

  \<^bold>\<open>Parameters.\<close> Code that is not in this repository is an argument: the YAML decoder, JSON text to
  trees, RSA and SHA-256, URL parsing, the network and TLS (\<open>network\<close>, \<open>Http\<close>, \<open>listener\<close>), the
  files of the host, the clock, random bytes, the metrics SDK's refusals, and the rounding of
  fractional durations. The one named hypothesis about them is \<open>documented\<close> of \<^theory_text>\<open>RedisQuota\<close>, what
  the commands of a Redis server do. A file may read differently every time: the boot condition
  says at which moment it is read.

  \<^bold>\<open>Not modelled.\<close> Command-line flags, the delivery of signals, and the goroutines of the refresh
  loops and of \<open>net/http\<close> inside \<open>run\<close> (the life of the server between its start and its end is
  an argument of it); descriptions of instruments and the SDK's aggregation; floating-point rounding
  of exported ages (they are rationals); nil loggers (\<open>OrDefault\<close>). Panics: the edge recovers one
  from whatever core it is given (\<open>recoverPanic\<close>), but the modelled core and its ports are total and
  have none, so the properties of a booted process are about runs without a panic, and the release
  of a slot by \<open>defer\<close> is modelled for returns only. One fetch from Vault is modelled as a whole:
  that concurrent fetches share the cached token is not. Deadlines are sums of unbounded integers;
  the range of \<open>time.Time\<close> is modelled where tokens bring their own times (\<^theory_text>\<open>Auth\<close>).
\<close>

end
